theory Spec2Isabelle
  imports Complex_Main "HOL-Library.Sublist" "HOL-Library.Char_ord" "HOL-Library.List_Lexorder"
begin

section \<open>Values\<close>

text \<open>
  A Python float is a binary64 number. A finite one is modelled by the rational that it
  stands for, with negative zero apart (\<open>Fin 0\<close> is the positive zero); then come the two
  infinities and not-a-number.
\<close>

datatype pyfloat = Fin rat | NZero | PInf | NInf | NaN

text \<open>
  The values held by product records and by the pipeline's dictionaries are the values
  that \<^verbatim>\<open>json.loads\<close> produces. A \<^verbatim>\<open>dict\<close> keeps insertion order, so it is an
  association list (with distinct keys). Text is ASCII: \<^typ>\<open>string\<close>.
\<close>

datatype jvalue =
    JNull
  | JBool bool
  | JInt int
  | JFloat pyfloat
  | JStr string
  | JList "jvalue list"
  | JObj "(string \<times> jvalue) list"

type_synonym jdict = "(string \<times> jvalue) list"

text \<open>
  The exceptions that the code can raise, each with its message. The messages that the
  repository itself writes are exact; those of the Python runtime are abbreviated.
\<close>

datatype py_error =
    ValueError string
  | KeyError string
  | AttributeError string
  | TypeError string
  | OverflowError string
  | RuntimeError string

text \<open>
  \<^verbatim>\<open>d.get(k)\<close> (Python's \<^verbatim>\<open>None\<close> is \<^const>\<open>JNull\<close>), \<^verbatim>\<open>d.get(k, default)\<close>, \<^verbatim>\<open>k in d\<close>,
  \<^verbatim>\<open>d[k]\<close> and \<^verbatim>\<open>d[k] = v\<close>.
\<close>

definition dict_get :: "jdict \<Rightarrow> string \<Rightarrow> jvalue" where
  "dict_get d k = (case map_of d k of None \<Rightarrow> JNull | Some v \<Rightarrow> v)"

definition dict_get_default :: "jdict \<Rightarrow> string \<Rightarrow> jvalue \<Rightarrow> jvalue" where
  "dict_get_default d k dflt = (case map_of d k of None \<Rightarrow> dflt | Some v \<Rightarrow> v)"

definition dict_has :: "jdict \<Rightarrow> string \<Rightarrow> bool" where
  "dict_has d k = (map_of d k \<noteq> None)"

definition dict_item :: "jdict \<Rightarrow> string \<Rightarrow> py_error + jvalue" where
  "dict_item d k = (case map_of d k of None \<Rightarrow> Inl (KeyError k) | Some v \<Rightarrow> Inr v)"

text \<open>Assigning to an existing key keeps the key's position; a new key goes last.\<close>

fun dict_set :: "jdict \<Rightarrow> string \<Rightarrow> jvalue \<Rightarrow> jdict" where
  "dict_set [] k v = [(k, v)]"
| "dict_set ((k', v') # d) k v = (if k' = k then (k, v) # d else (k', v') # dict_set d k v)"

text \<open>Truth value of a Python object, as \<^verbatim>\<open>not x\<close> tests it.\<close>

fun py_truthy :: "jvalue \<Rightarrow> bool" where
  "py_truthy JNull = False"
| "py_truthy (JBool b) = b"
| "py_truthy (JInt n) = (n \<noteq> 0)"
| "py_truthy (JFloat f) = (f \<noteq> Fin 0 \<and> f \<noteq> NZero)"
| "py_truthy (JStr s) = (s \<noteq> [])"
| "py_truthy (JList xs) = (xs \<noteq> [])"
| "py_truthy (JObj d) = (d \<noteq> [])"

section \<open>Text\<close>

definition upper_letters :: string where
  "upper_letters = ''ABCDEFGHIJKLMNOPQRSTUVWXYZ''"

definition lower_letters :: string where
  "lower_letters = ''abcdefghijklmnopqrstuvwxyz''"

definition is_upper :: "char \<Rightarrow> bool" where
  "is_upper c = (c \<in> set upper_letters)"

definition is_lower :: "char \<Rightarrow> bool" where
  "is_lower c = (c \<in> set lower_letters)"

definition is_digit :: "char \<Rightarrow> bool" where
  "is_digit c = (c \<in> set ''0123456789'')"

text \<open>The ASCII characters that \<^verbatim>\<open>str.strip\<close> removes: codes 9 to 13, 28 to 31 and the space.\<close>
definition is_space :: "char \<Rightarrow> bool" where
  "is_space c =
     (c \<in> set [CHR 0x09, CHR 0x0A, CHR 0x0B, CHR 0x0C, CHR 0x0D,
                CHR 0x1C, CHR 0x1D, CHR 0x1E, CHR 0x1F, CHR '' ''])"

definition lower_char :: "char \<Rightarrow> char" where
  "lower_char c = (case map_of (zip upper_letters lower_letters) c of None \<Rightarrow> c | Some d \<Rightarrow> d)"

definition upper_char :: "char \<Rightarrow> char" where
  "upper_char c = (case map_of (zip lower_letters upper_letters) c of None \<Rightarrow> c | Some d \<Rightarrow> d)"

definition digit_val :: "char \<Rightarrow> nat" where
  "digit_val c =
     (case map_of (zip ''0123456789'' [0, 1, 2, 3, 4, 5, 6, 7, 8, 9]) c of None \<Rightarrow> 0 | Some d \<Rightarrow> d)"

text \<open>\<^verbatim>\<open>s.lower()\<close>\<close>
definition py_lower :: "string \<Rightarrow> string" where
  "py_lower s = map lower_char s"

text \<open>\<^verbatim>\<open>s.replace(" ", "_")\<close>\<close>
definition replace_space :: "string \<Rightarrow> string" where
  "replace_space s = map (\<lambda>c. if c = CHR '' '' then CHR ''_'' else c) s"

text \<open>\<^verbatim>\<open>s.strip()\<close>\<close>
definition py_strip :: "string \<Rightarrow> string" where
  "py_strip s = rev (dropWhile is_space (rev (dropWhile is_space s)))"

text \<open>
  \<^verbatim>\<open>s.title()\<close>: a letter that follows a letter is lowercased, any other letter is
  uppercased.
\<close>
fun title_from :: "bool \<Rightarrow> string \<Rightarrow> string" where
  "title_from prev [] = []"
| "title_from prev (c # cs) =
     (if is_upper c \<or> is_lower c
      then (if prev then lower_char c else upper_char c) # title_from True cs
      else c # title_from False cs)"

definition py_title :: "string \<Rightarrow> string" where
  "py_title s = title_from False s"

text \<open>\<^verbatim>\<open>sep in s\<close> and \<^verbatim>\<open>s.split(sep)[0]\<close>, for a separator that is not empty.\<close>

fun py_contains :: "string \<Rightarrow> string \<Rightarrow> bool" where
  "py_contains sep [] = (sep = [])"
| "py_contains sep (c # cs) = (prefix sep (c # cs) \<or> py_contains sep cs)"

fun split_first :: "string \<Rightarrow> string \<Rightarrow> string" where
  "split_first sep [] = []"
| "split_first sep (c # cs) = (if prefix sep (c # cs) then [] else c # split_first sep cs)"

text \<open>\<^verbatim>\<open>sep.join(xs)\<close>\<close>
fun py_join :: "string \<Rightarrow> string list \<Rightarrow> string" where
  "py_join sep [] = []"
| "py_join sep [x] = x"
| "py_join sep (x # y # xs) = x @ sep @ py_join sep (y # xs)"

section \<open>Floats\<close>

text \<open>
  Every float operation returns the binary64 number nearest to its exact result, a tie
  going to the one whose mantissa is even. Binary64 has 53 significant bits; its least
  quantum is \<open>2^-1074\<close>, and a result that rounds to \<open>2^1024\<close> or more overflows.
\<close>

definition pow2 :: "int \<Rightarrow> rat" where
  "pow2 e = (if 0 \<le> e then 2 ^ nat e else 1 / 2 ^ nat (- e))"

text \<open>The number of binary digits of a natural number.\<close>
fun bit_length :: "nat \<Rightarrow> nat" where
  "bit_length n = (if n = 0 then 0 else Suc (bit_length (n div 2)))"

declare bit_length.simps [simp del]

text \<open>The binary exponent \<open>e\<close> of a positive rational \<open>q\<close>: \<open>2^e \<le> q < 2^(e+1)\<close>.\<close>
definition exponent2 :: "rat \<Rightarrow> int" where
  "exponent2 q = (if 1 \<le> q then int (bit_length (nat \<lfloor>q\<rfloor>)) - 1
                  else - int (bit_length (nat (\<lceil>1 / q\<rceil> - 1))))"

text \<open>Rounding to the nearest integer, a tie going to the even neighbour.\<close>
definition round_half_even :: "rat \<Rightarrow> int" where
  "round_half_even q =
     (let f = \<lfloor>q\<rfloor>; d = q - of_int f
      in if d < 1 / 2 then f else if 1 / 2 < d then f + 1 else if even f then f else f + 1)"

text \<open>
  The magnitude of the binary64 number nearest to a magnitude \<open>a\<close>; \<open>None\<close> when it
  overflows.
\<close>
definition nearest_double :: "rat \<Rightarrow> rat option" where
  "nearest_double a =
     (if a = 0 then Some 0
      else (let quantum = pow2 (max (exponent2 a - 52) (- 1074));
                r = of_int (round_half_even (a / quantum)) * quantum
            in if 2 ^ 1024 \<le> r then None else Some r))"

text \<open>The float with a given sign that is nearest to a magnitude.\<close>
definition signed_float :: "bool \<Rightarrow> rat \<Rightarrow> pyfloat" where
  "signed_float neg a =
     (case nearest_double a of
        None \<Rightarrow> if neg then NInf else PInf
      | Some r \<Rightarrow> if neg then (if r = 0 then NZero else Fin (- r)) else Fin r)"

text \<open>The float that a decimal literal of the source denotes.\<close>
definition to_float :: "rat \<Rightarrow> pyfloat" where
  "to_float q = signed_float (q < 0) \<bar>q\<bar>"

text \<open>\<^verbatim>\<open>math.isfinite\<close>\<close>
fun isfinite :: "pyfloat \<Rightarrow> bool" where
  "isfinite (Fin q) = True"
| "isfinite NZero = True"
| "isfinite PInf = False"
| "isfinite NInf = False"
| "isfinite NaN = False"

fun is_inf :: "pyfloat \<Rightarrow> bool" where
  "is_inf PInf = True"
| "is_inf NInf = True"
| "is_inf f = False"

fun is_zero :: "pyfloat \<Rightarrow> bool" where
  "is_zero (Fin q) = (q = 0)"
| "is_zero NZero = True"
| "is_zero f = False"

fun sign_bit :: "pyfloat \<Rightarrow> bool" where
  "sign_bit (Fin q) = (q < 0)"
| "sign_bit NZero = True"
| "sign_bit NInf = True"
| "sign_bit f = False"

fun magnitude :: "pyfloat \<Rightarrow> rat" where
  "magnitude (Fin q) = \<bar>q\<bar>"
| "magnitude f = 0"

text \<open>\<^verbatim>\<open>x * y\<close> on floats.\<close>
definition fl_mult :: "pyfloat \<Rightarrow> pyfloat \<Rightarrow> pyfloat" where
  "fl_mult x y =
     (if x = NaN \<or> y = NaN then NaN
      else if is_inf x \<or> is_inf y then
        (if is_zero x \<or> is_zero y then NaN
         else if sign_bit x \<noteq> sign_bit y then NInf else PInf)
      else signed_float (sign_bit x \<noteq> sign_bit y) (magnitude x * magnitude y))"

text \<open>
  \<^verbatim>\<open>round(x, 2)\<close>: an infinity or not-a-number is returned as it is; a finite \<open>x\<close> is
  written out in decimal with two places, its exact value rounded half to even, and the
  decimal is read back as a float, the sign kept also when the result is zero. Reading it
  back raises \<^verbatim>\<open>OverflowError\<close> only for a decimal beyond the largest float, which two
  places cannot produce: a float of magnitude \<open>2^52\<close> or more is an integer and is
  returned as it is (shown below for the floats that the operations of this section
  return), so the model has no error result here.
\<close>
fun py_round2 :: "pyfloat \<Rightarrow> pyfloat" where
  "py_round2 (Fin q) = signed_float (q < 0) (of_int (round_half_even (\<bar>q\<bar> * 100)) / 100)"
| "py_round2 f = f"

text \<open>
  \<^verbatim>\<open>float(s)\<close> for a string: surrounding whitespace (codes 9 to 13 and the space) is
  dropped, case is ignored, a sign may lead; then \<^verbatim>\<open>inf\<close>, \<^verbatim>\<open>infinity\<close>, \<^verbatim>\<open>nan\<close> or a
  decimal numeral with an optional fraction and exponent, where single underscores may
  separate digits. The numeral is rounded to the nearest float. \<open>None\<close> is Python's
  \<^verbatim>\<open>ValueError\<close>.
\<close>

definition is_float_space :: "char \<Rightarrow> bool" where
  "is_float_space c = (c \<in> set [CHR 0x09, CHR 0x0A, CHR 0x0B, CHR 0x0C, CHR 0x0D, CHR '' ''])"

definition float_strip :: "string \<Rightarrow> string" where
  "float_strip s = rev (dropWhile is_float_space (rev (dropWhile is_float_space s)))"

fun digits_from :: "string \<Rightarrow> string \<times> string" where
  "digits_from [] = ([], [])"
| "digits_from (c # cs) =
     (if is_digit c then (let (ds, r) = digits_from cs in (c # ds, r))
      else if c = CHR ''_'' \<and> cs \<noteq> [] \<and> is_digit (hd cs) then digits_from cs
      else ([], c # cs))"

definition digitpart :: "string \<Rightarrow> string \<times> string" where
  "digitpart s = (case s of [] \<Rightarrow> ([], []) | c # cs \<Rightarrow> if is_digit c then digits_from s else ([], s))"

definition digits_value :: "string \<Rightarrow> nat" where
  "digits_value ds = foldl (\<lambda>a c. 10 * a + digit_val c) 0 ds"

definition pow10 :: "int \<Rightarrow> rat" where
  "pow10 e = (if 0 \<le> e then 10 ^ nat e else 1 / 10 ^ nat (- e))"

definition exponent_of :: "string \<Rightarrow> int option" where
  "exponent_of s =
     (case s of
        [] \<Rightarrow> Some 0
      | c # cs \<Rightarrow>
          if c = CHR ''e'' then
            (let (neg, body) =
                   (case cs of
                      [] \<Rightarrow> (False, cs)
                    | d # ds \<Rightarrow> if d = CHR ''-'' then (True, ds)
                               else if d = CHR ''+'' then (False, ds) else (False, cs));
                 (es, r) = digitpart body
             in if es = [] \<or> r \<noteq> [] then None
                else Some (if neg then - int (digits_value es) else int (digits_value es)))
          else None)"

definition decimal_of :: "string \<Rightarrow> rat option" where
  "decimal_of s =
     (let (ip, r1) = digitpart s;
          (fp, r2) = (case r1 of [] \<Rightarrow> ([], r1)
                      | c # cs \<Rightarrow> if c = CHR ''.'' then digitpart cs else ([], r1))
      in if ip = [] \<and> fp = [] then None
         else (case exponent_of r2 of
                 None \<Rightarrow> None
               | Some e \<Rightarrow>
                   Some ((of_nat (digits_value ip) + of_nat (digits_value fp) / 10 ^ length fp)
                         * pow10 e)))"

definition py_float_str :: "string \<Rightarrow> pyfloat option" where
  "py_float_str s0 =
     (let s = py_lower (float_strip s0);
          (neg, body) =
            (case s of
               [] \<Rightarrow> (False, s)
             | c # cs \<Rightarrow> if c = CHR ''-'' then (True, cs)
                        else if c = CHR ''+'' then (False, cs) else (False, s))
      in if body = ''inf'' \<or> body = ''infinity'' then Some (if neg then NInf else PInf)
         else if body = ''nan'' then Some NaN
         else (case decimal_of body of
                 None \<Rightarrow> None
               | Some q \<Rightarrow> Some (signed_float neg q)))"

section \<open>Unit conversion\<close>

text \<open>
  \<^verbatim>\<open>_convert_units(key, value)\<close>. The only operation of its body that can raise is
  \<^verbatim>\<open>float\<close>, whose \<^verbatim>\<open>ValueError\<close> the function catches; so the model returns a plain value.
\<close>

definition convert_units :: "string \<Rightarrow> jvalue \<Rightarrow> jvalue" where
  "convert_units key v =
     (case v of
        JStr s \<Rightarrow>
          (let lower = py_lower s in
           if (key = ''capacity'' \<or> key = ''volume'') \<and> py_contains ''oz'' lower then
             (case py_float_str (py_strip (split_first ''oz'' lower)) of
                None \<Rightarrow> v
              | Some ounces \<Rightarrow>
                  (let milliliters = py_round2 (fl_mult ounces (to_float (295735 / 10000)))
                   in JObj [(''value'', JFloat milliliters), (''unit'', JStr ''ml''),
                            (''source'', v)]))
           else if key = ''weight'' \<and> py_contains ''lb'' lower then
             (case py_float_str (py_strip (split_first ''lb'' lower)) of
                None \<Rightarrow> v
              | Some pounds \<Rightarrow>
                  (let kilograms = py_round2 (fl_mult pounds (to_float (453592 / 1000000)))
                   in JObj [(''value'', JFloat kilograms), (''unit'', JStr ''kg''),
                            (''source'', v)]))
           else v)
      | _ \<Rightarrow> v)"

text \<open>
  \<^verbatim>\<open>float(x)\<close> for any value: an integer is rounded to the nearest float and raises
  \<^verbatim>\<open>OverflowError\<close> when that overflows, text that is no numeral raises \<^verbatim>\<open>ValueError\<close>,
  \<^verbatim>\<open>None\<close>, a list or a dict raises \<^verbatim>\<open>TypeError\<close>.
\<close>

fun py_float :: "jvalue \<Rightarrow> py_error + pyfloat" where
  "py_float (JInt n) =
     (case nearest_double \<bar>of_int n\<bar> of
        None \<Rightarrow> Inl (OverflowError ''int too large to convert to float'')
      | Some r \<Rightarrow> Inr (Fin (if n < 0 then - r else r)))"
| "py_float (JFloat f) = Inr f"
| "py_float (JBool b) = Inr (Fin (if b then 1 else 0))"
| "py_float (JStr s) =
     (case py_float_str s of
        None \<Rightarrow> Inl (ValueError ''could not convert string to float'')
      | Some f \<Rightarrow> Inr f)"
| "py_float v = Inl (TypeError ''float() argument must be a string or a real number'')"

section \<open>Events and the run environment\<close>

text \<open>
  \<^verbatim>\<open>WorkflowEvent\<close> of \<^verbatim>\<open>status.py\<close>. Its timestamp is the wall clock at creation and is
  left out.
\<close>

record workflow_event =
  step :: string
  message :: string
  payload :: "jdict option"

definition WorkflowEvent :: "string \<Rightarrow> string \<Rightarrow> jdict option \<Rightarrow> workflow_event" where
  "WorkflowEvent s m pl = \<lparr>step = s, message = m, payload = pl\<rparr>"

definition WORKFLOW_STEPS :: "string list" where
  "WORKFLOW_STEPS = [''ingest'', ''extract'', ''validate'', ''copywrite'', ''localize'', ''publish'']"

text \<open>
  The text-generation capability is a black box. A call is described by what its prompt
  is built from; the reply is either a failure of the call or of parsing its content as
  JSON (with the text of the exception), or the parsed content together with
  \<^verbatim>\<open>response.usage.total_tokens\<close> (\<open>None\<close> when reading it raises). The same request
  gets the same reply.
\<close>

datatype ai_request =
    ExtractRequest jdict
  | SeoRequest jdict jdict
  | LocalizeRequest string jvalue jvalue jvalue

datatype ai_reply =
    CallFailed string
  | Reply jvalue "jvalue option"

type_synonym client = "ai_request \<Rightarrow> ai_reply"

text \<open>
  What a run reads from its process: the module constant \<^verbatim>\<open>LANGGRAPH_AVAILABLE\<close>, the
  result of \<^verbatim>\<open>_get_openai_client()\<close>, and Python's \<^verbatim>\<open>str\<close> on values that are not text
  (used when an f-string formats such a value; left abstract).
\<close>

record env =
  langgraph_available :: bool
  openai_client :: "client option"
  str_of :: "jvalue \<Rightarrow> string"

definition fstr :: "env \<Rightarrow> jvalue \<Rightarrow> string" where
  "fstr env v = (case v of JStr s \<Rightarrow> s | _ \<Rightarrow> str_of env v)"

definition usage_error :: string where
  "usage_error = ''NoneType object has no attribute total_tokens''"

section \<open>Stage functions\<close>

text \<open>
  A stage function receives the list object \<^verbatim>\<open>events\<close> and appends to it in place. In
  the model it takes the contents of that list and returns the contents afterwards,
  also when it raises.
\<close>

type_synonym 'a staged = "workflow_event list \<times> (py_error + 'a)"

subsection \<open>extract\<close>

definition fallback_extract_attributes :: "jdict \<Rightarrow> workflow_event list \<Rightarrow> jdict staged" where
  "fallback_extract_attributes p evs =
     (let evs1 = evs @ [WorkflowEvent ''extract'' ''Normalizing attributes'' None] in
      case dict_get_default p ''attributes'' (JObj []) of
        JObj attributes \<Rightarrow>
          (let normalized =
                 fold (\<lambda>(key, v) acc.
                         let normalized_key = replace_space (py_lower key)
                         in dict_set acc normalized_key (convert_units normalized_key v))
                      attributes []
           in case dict_get_default p ''category'' (JStr ''uncategorized'') of
                JStr c \<Rightarrow> (evs1, Inr (dict_set normalized ''category'' (JStr (py_lower c))))
              | _ \<Rightarrow> (evs1, Inl (AttributeError ''lower'')))
      | _ \<Rightarrow> (evs1, Inl (AttributeError ''items'')))"

text \<open>
  The body of the \<^verbatim>\<open>try\<close> block of \<^verbatim>\<open>_ai_extract_attributes\<close>: \<open>Inl\<close> carries the text
  of the exception that the \<^verbatim>\<open>except\<close> clause catches.
\<close>

definition ai_extract_attempt ::
  "jdict \<Rightarrow> workflow_event list \<Rightarrow> client \<Rightarrow> workflow_event list \<times> (string + jdict)" where
  "ai_extract_attempt p evs cl =
     (case cl (ExtractRequest p) of
        CallFailed msg \<Rightarrow> (evs, Inl msg)
      | Reply extracted None \<Rightarrow> (evs, Inl usage_error)
      | Reply extracted (Some tokens) \<Rightarrow>
          (let evs1 = evs @ [WorkflowEvent ''extract'' ''AI extracted product attributes''
                               (Some [(''token_usage'', tokens)])]
           in case extracted of
                JObj d \<Rightarrow>
                  (case dict_get_default p ''category'' (JStr ''uncategorized'') of
                     JStr c \<Rightarrow>
                       (evs1, Inr (map (\<lambda>(key, v). (key, convert_units key v))
                                       (dict_set d ''category'' (JStr (py_lower c)))))
                   | _ \<Rightarrow> (evs1, Inl ''object has no attribute lower''))
              | JList xs \<Rightarrow>
                  (case dict_get_default p ''category'' (JStr ''uncategorized'') of
                     JStr c \<Rightarrow> (evs1, Inl ''list indices must be integers or slices, not str'')
                   | _ \<Rightarrow> (evs1, Inl ''object has no attribute lower''))
              | _ \<Rightarrow> (evs1, Inl ''object has no attribute copy'')))"

definition ai_extract_attributes :: "jdict \<Rightarrow> workflow_event list \<Rightarrow> client \<Rightarrow> jdict staged" where
  "ai_extract_attributes p evs cl =
     (case ai_extract_attempt p evs cl of
        (evs1, Inr normalized) \<Rightarrow> (evs1, Inr normalized)
      | (evs1, Inl msg) \<Rightarrow>
          fallback_extract_attributes p
            (evs1 @ [WorkflowEvent ''extract'' (''AI extraction failed: '' @ msg @ '', using fallback'') None]))"

definition normalize_attributes :: "env \<Rightarrow> jdict \<Rightarrow> workflow_event list \<Rightarrow> jdict staged" where
  "normalize_attributes env p evs =
     (let evs1 = evs @ [WorkflowEvent ''extract'' ''Extracting attributes with AI'' None] in
      case openai_client env of
        Some cl \<Rightarrow> ai_extract_attributes p evs1 cl
      | None \<Rightarrow>
          fallback_extract_attributes p
            (evs1 @ [WorkflowEvent ''extract'' ''Using fallback attribute extraction'' None]))"

subsection \<open>validate\<close>

definition required_fields :: "string list" where
  "required_fields = [''sku'', ''name'', ''price'']"

definition missing_fields :: "jdict \<Rightarrow> string list" where
  "missing_fields p = filter (\<lambda>field. \<not> py_truthy (dict_get p field)) required_fields"

definition validate_product :: "jdict \<Rightarrow> workflow_event list \<Rightarrow> jdict staged" where
  "validate_product p evs =
     (let missing = missing_fields p in
      if missing \<noteq> [] then
        (let msg = ''Missing required fields: '' @ py_join '', '' missing
         in (evs @ [WorkflowEvent ''validate'' msg (Some [(''status'', JStr ''error'')])],
             Inl (ValueError msg)))
      else
        (let evs1 = evs @ [WorkflowEvent ''validate'' ''Validation passed'' None] in
         case py_float (dict_get_default p ''price'' (JInt 0)) of
           Inl e \<Rightarrow> (evs1, Inl e)
         | Inr price_value \<Rightarrow>
             (evs1, Inr [(''currency'', dict_get_default p ''currency'' (JStr ''USD'')),
                         (''price'', JFloat price_value),
                         (''in_stock'', JBool (isfinite price_value))])))"

subsection \<open>copywrite\<close>

text \<open>
  \<^verbatim>\<open>sorted({a, b})\<close> on two strings. In \<^verbatim>\<open>_fallback_seo_copy\<close> the category is text once
  \<^verbatim>\<open>.title()\<close> has succeeded; a name that is not text then makes the set or the sort
  raise \<^verbatim>\<open>TypeError\<close> (unhashable, or not comparable with text).
\<close>

definition sorted_pair :: "string \<Rightarrow> string \<Rightarrow> string list" where
  "sorted_pair a b = sort (remdups [a, b])"

definition fallback_seo_copy ::
  "env \<Rightarrow> jdict \<Rightarrow> jdict \<Rightarrow> workflow_event list \<Rightarrow> jvalue staged" where
  "fallback_seo_copy env p normalized evs =
     (let key_attr = (case normalized of [] \<Rightarrow> dict_get_default p ''description'' (JStr '''')
                      | (k, v) # rest \<Rightarrow> v)
      in case dict_item p ''name'' of
           Inl e \<Rightarrow> (evs, Inl e)
         | Inr name \<Rightarrow>
             (case dict_get_default p ''category'' (JStr '''') of
                JStr category \<Rightarrow>
                  (let title = py_strip (fstr env name @ '' | '' @ py_title category);
                       description =
                         ''Buy '' @ fstr env name @ '' featuring ''
                         @ (case key_attr of
                              JStr s \<Rightarrow> s
                            | _ \<Rightarrow> fstr env (dict_get_default p ''description'' (JStr '''')))
                         @ ''.''
                   in case dict_get_default p ''name'' (JStr '''') of
                        JStr n \<Rightarrow>
                          (let keywords = sorted_pair category n
                           in (evs @ [WorkflowEvent ''copywrite'' ''Generated SEO copy'' None],
                               Inr (JObj [(''title'', JStr title),
                                          (''description'', JStr (py_strip description)),
                                          (''keywords'',
                                           JList (map JStr (filter (\<lambda>kw. kw \<noteq> []) keywords)))])))
                      | _ \<Rightarrow> (evs, Inl (TypeError ''keywords'')))
              | _ \<Rightarrow> (evs, Inl (AttributeError ''title''))))"

definition ai_generate_seo_copy ::
  "env \<Rightarrow> jdict \<Rightarrow> jdict \<Rightarrow> workflow_event list \<Rightarrow> client \<Rightarrow> jvalue staged" where
  "ai_generate_seo_copy env p normalized evs cl =
     (case cl (SeoRequest p normalized) of
        Reply seo_copy (Some tokens) \<Rightarrow>
          (evs @ [WorkflowEvent ''copywrite'' ''AI generated SEO copy''
                    (Some [(''token_usage'', tokens)])],
           Inr seo_copy)
      | Reply seo_copy None \<Rightarrow>
          fallback_seo_copy env p normalized
            (evs @ [WorkflowEvent ''copywrite'' (''AI SEO failed: '' @ usage_error @ '', using fallback'') None])
      | CallFailed msg \<Rightarrow>
          fallback_seo_copy env p normalized
            (evs @ [WorkflowEvent ''copywrite'' (''AI SEO failed: '' @ msg @ '', using fallback'') None]))"

definition build_seo_copy ::
  "env \<Rightarrow> jdict \<Rightarrow> jdict \<Rightarrow> workflow_event list \<Rightarrow> jvalue staged" where
  "build_seo_copy env p normalized evs =
     (case openai_client env of
        Some cl \<Rightarrow> ai_generate_seo_copy env p normalized evs cl
      | None \<Rightarrow>
          fallback_seo_copy env p normalized
            (evs @ [WorkflowEvent ''copywrite'' ''Using fallback SEO generation'' None]))"

subsection \<open>localize\<close>

definition locale_name_of :: "string \<Rightarrow> string" where
  "locale_name_of locale =
     (case map_of [(''es-ES'', ''Spanish''), (''fr-FR'', ''French'')] locale of
        None \<Rightarrow> locale
      | Some n \<Rightarrow> n)"

definition localize_failed :: "string \<Rightarrow> string \<Rightarrow> workflow_event" where
  "localize_failed locale msg =
     WorkflowEvent ''localize'' (''Localization failed for '' @ locale @ '': '' @ msg) None"

text \<open>
  One round of the loop over the target locales. The translated entry is appended before
  the event that reads the token usage is built, so a reply without usage leaves the entry
  in the list and logs a failure.
\<close>

definition localize_locale ::
  "client \<Rightarrow> jdict \<Rightarrow> string \<Rightarrow> jvalue list \<times> workflow_event list
     \<Rightarrow> jvalue list \<times> workflow_event list" where
  "localize_locale cl base_copy locale acc =
     (case acc of (localizations, evs) \<Rightarrow>
        (let locale_name = locale_name_of locale in
         case cl (LocalizeRequest locale_name (dict_get base_copy ''title'')
                    (dict_get base_copy ''description'') (dict_get base_copy ''long_description'')) of
           CallFailed msg \<Rightarrow> (localizations, evs @ [localize_failed locale msg])
         | Reply translated usage \<Rightarrow>
             (case translated of
                JObj t \<Rightarrow>
                  (let localizations1 =
                         localizations
                         @ [JObj [(''locale'', JStr locale),
                                  (''title'', dict_get_default t ''title'' (JStr '''')),
                                  (''description'', dict_get_default t ''description'' (JStr '''')),
                                  (''long_description'',
                                   dict_get_default t ''long_description'' (JStr ''''))]]
                   in case usage of
                        Some tokens \<Rightarrow>
                          (localizations1,
                           evs @ [WorkflowEvent ''localize'' (''AI localized to '' @ locale_name)
                                    (Some [(''token_usage'', tokens)])])
                      | None \<Rightarrow> (localizations1, evs @ [localize_failed locale usage_error]))
              | _ \<Rightarrow> (localizations, evs @ [localize_failed locale ''object has no attribute get'']))))"

definition target_locales :: "string list" where
  "target_locales = [''en-US'', ''es-ES'', ''fr-FR'']"

definition ai_localize_copy ::
  "jvalue \<Rightarrow> workflow_event list \<Rightarrow> client \<Rightarrow> jvalue list staged" where
  "ai_localize_copy seo_copy evs cl =
     (case seo_copy of
        JObj sc \<Rightarrow>
          (let base_copy = [(''title'', dict_get_default sc ''title'' (JStr '''')),
                            (''description'', dict_get_default sc ''description'' (JStr '''')),
                            (''long_description'',
                             dict_get_default sc ''long_description'' (JStr ''''))];
               localizations = [JObj [(''locale'', JStr ''en-US''),
                                      (''title'', dict_get base_copy ''title''),
                                      (''description'', dict_get base_copy ''description''),
                                      (''long_description'',
                                       dict_get_default base_copy ''long_description'' (JStr ''''))]];
               (localizations', evs') =
                 fold (localize_locale cl base_copy) (tl target_locales) (localizations, evs)
           in (evs', Inr localizations'))
      | _ \<Rightarrow> (evs, Inl (AttributeError ''get'')))"

definition fallback_localize_copy :: "jvalue \<Rightarrow> workflow_event list \<Rightarrow> jvalue list staged" where
  "fallback_localize_copy seo_copy evs =
     (let evs1 = evs @ [WorkflowEvent ''localize'' ''Generated default locale copy'' None] in
      case seo_copy of
        JObj sc \<Rightarrow>
          (evs1, Inr [JObj [(''locale'', JStr ''en-US''),
                            (''title'', dict_get_default sc ''title'' (JStr '''')),
                            (''description'', dict_get_default sc ''description'' (JStr ''''))]])
      | _ \<Rightarrow> (evs1, Inl (AttributeError ''get'')))"

definition localize_copy :: "env \<Rightarrow> jvalue \<Rightarrow> workflow_event list \<Rightarrow> jvalue list staged" where
  "localize_copy env seo_copy evs =
     (case openai_client env of
        Some cl \<Rightarrow> ai_localize_copy seo_copy evs cl
      | None \<Rightarrow>
          fallback_localize_copy seo_copy
            (evs @ [WorkflowEvent ''localize'' ''Using fallback localization'' None]))"


section \<open>The state bag and the stage nodes\<close>

text \<open>
  The event list is one mutable list object that the state bag, the stage functions and
  the partial updates returned by the nodes all refer to. The model keeps list objects
  in a store and lets the state hold a reference.
\<close>

record heap =
  cells :: "nat \<Rightarrow> workflow_event list"
  next_ref :: nat

definition empty_heap :: heap where
  "empty_heap = \<lparr>cells = (\<lambda>r. []), next_ref = 0\<rparr>"

text \<open>A new empty list object: \<^verbatim>\<open>[]\<close>.\<close>
definition new_list :: "heap \<Rightarrow> nat \<times> heap" where
  "new_list h = (next_ref h, h\<lparr>cells := (cells h)(next_ref h := []), next_ref := Suc (next_ref h)\<rparr>)"

text \<open>\<^verbatim>\<open>events.append(e)\<close> on the list object \<open>r\<close>.\<close>
definition append_event :: "nat \<Rightarrow> workflow_event \<Rightarrow> heap \<Rightarrow> heap" where
  "append_event r e h = h\<lparr>cells := (cells h)(r := cells h r @ [e])\<rparr>"

text \<open>Running a stage function on the list object \<open>r\<close>.\<close>
definition on_events :: "nat \<Rightarrow> heap \<Rightarrow> (workflow_event list \<Rightarrow> 'a staged) \<Rightarrow> heap \<times> (py_error + 'a)" where
  "on_events r h f = (case f (cells h r) of (evs, res) \<Rightarrow> (h\<lparr>cells := (cells h)(r := evs)\<rparr>, res))"

text \<open>
  \<^verbatim>\<open>EnrichmentState\<close>, a \<^verbatim>\<open>TypedDict\<close> with \<^verbatim>\<open>total=False\<close>: every key may be missing. The
  partial update that a node returns has the same type.
\<close>

record enrichment_state =
  product :: "jdict option"
  events :: "nat option"
  normalized_attributes :: "jdict option"
  pricing :: "jdict option"
  seo :: "jvalue option"
  localizations :: "jvalue list option"
  enriched :: "jdict option"

definition empty_state :: enrichment_state where
  "empty_state = \<lparr>product = None, events = None, normalized_attributes = None, pricing = None,
                   seo = None, localizations = None, enriched = None\<rparr>"

definition or_else :: "'a option \<Rightarrow> 'a option \<Rightarrow> 'a option" where
  "or_else new old = (case new of None \<Rightarrow> old | Some x \<Rightarrow> Some x)"

text \<open>\<^verbatim>\<open>state.update(u)\<close>: the keys of \<open>u\<close> replace those of the state.\<close>
definition state_update :: "enrichment_state \<Rightarrow> enrichment_state \<Rightarrow> enrichment_state" where
  "state_update s u =
     \<lparr>product = or_else (product u) (product s),
      events = or_else (events u) (events s),
      normalized_attributes = or_else (normalized_attributes u) (normalized_attributes s),
      pricing = or_else (pricing u) (pricing s),
      seo = or_else (seo u) (seo s),
      localizations = or_else (localizations u) (localizations s),
      enriched = or_else (enriched u) (enriched s)\<rparr>"

text \<open>\<^verbatim>\<open>state.get("events", [])\<close>: the state's list object, or a new one.\<close>
definition state_events :: "enrichment_state \<Rightarrow> heap \<Rightarrow> nat \<times> heap" where
  "state_events s h = (case events s of Some r \<Rightarrow> (r, h) | None \<Rightarrow> new_list h)"

type_synonym node_result = "heap \<times> (py_error + enrichment_state)"
type_synonym node = "enrichment_state \<Rightarrow> heap \<Rightarrow> node_result"

text \<open>
  The nodes. \<^verbatim>\<open>time.sleep\<close> and the logger calls are left out. \<^verbatim>\<open>state["product"]\<close>
  raises \<^verbatim>\<open>KeyError\<close> when the key is missing.
\<close>

definition node_ingest :: "env \<Rightarrow> node" where
  "node_ingest env s h =
     (case product s of
        None \<Rightarrow> (h, Inl (KeyError ''product''))
      | Some p \<Rightarrow>
          (case state_events s h of (r, h1) \<Rightarrow>
             (append_event r (WorkflowEvent ''ingest'' ''Loaded product''
                                (Some [(''sku'', dict_get p ''sku'')])) h1,
              Inr (empty_state\<lparr>events := Some r\<rparr>))))"

definition node_extract :: "env \<Rightarrow> node" where
  "node_extract env s h =
     (case product s of
        None \<Rightarrow> (h, Inl (KeyError ''product''))
      | Some p \<Rightarrow>
          (case state_events s h of (r, h1) \<Rightarrow>
             (case on_events r h1 (normalize_attributes env p) of
                (h2, Inl e) \<Rightarrow> (h2, Inl e)
              | (h2, Inr normalized) \<Rightarrow>
                  (h2, Inr (empty_state\<lparr>events := Some r, normalized_attributes := Some normalized\<rparr>)))))"

definition node_validate :: "env \<Rightarrow> node" where
  "node_validate env s h =
     (case product s of
        None \<Rightarrow> (h, Inl (KeyError ''product''))
      | Some p \<Rightarrow>
          (case state_events s h of (r, h1) \<Rightarrow>
             (case on_events r h1 (validate_product p) of
                (h2, Inl e) \<Rightarrow> (h2, Inl e)
              | (h2, Inr pr) \<Rightarrow> (h2, Inr (empty_state\<lparr>events := Some r, pricing := Some pr\<rparr>)))))"

definition node_copywrite :: "env \<Rightarrow> node" where
  "node_copywrite env s h =
     (case product s of
        None \<Rightarrow> (h, Inl (KeyError ''product''))
      | Some p \<Rightarrow>
          (case state_events s h of (r, h1) \<Rightarrow>
             (let normalized = (case normalized_attributes s of None \<Rightarrow> [] | Some n \<Rightarrow> n) in
              case on_events r h1 (build_seo_copy env p normalized) of
                (h2, Inl e) \<Rightarrow> (h2, Inl e)
              | (h2, Inr sc) \<Rightarrow> (h2, Inr (empty_state\<lparr>events := Some r, seo := Some sc\<rparr>)))))"

definition node_localize :: "env \<Rightarrow> node" where
  "node_localize env s h =
     (case state_events s h of (r, h1) \<Rightarrow>
        (let sc = (case seo s of None \<Rightarrow> JObj [] | Some x \<Rightarrow> x) in
         case on_events r h1 (localize_copy env sc) of
           (h2, Inl e) \<Rightarrow> (h2, Inl e)
         | (h2, Inr ls) \<Rightarrow> (h2, Inr (empty_state\<lparr>events := Some r, localizations := Some ls\<rparr>))))"

definition node_publish :: "env \<Rightarrow> node" where
  "node_publish env s h =
     (case product s of
        None \<Rightarrow> (h, Inl (KeyError ''product''))
      | Some p \<Rightarrow>
          (case state_events s h of (r, h1) \<Rightarrow>
             (let normalized = (case normalized_attributes s of None \<Rightarrow> [] | Some n \<Rightarrow> n);
                  sc = (case seo s of None \<Rightarrow> JObj [] | Some x \<Rightarrow> x);
                  ls = (case localizations s of None \<Rightarrow> [] | Some x \<Rightarrow> x);
                  pr = (case pricing s of None \<Rightarrow> [] | Some x \<Rightarrow> x)
              in case dict_item p ''sku'' of
                   Inl e \<Rightarrow> (h1, Inl e)
                 | Inr sku \<Rightarrow>
                     (case dict_item p ''name'' of
                        Inl e \<Rightarrow> (h1, Inl e)
                      | Inr name \<Rightarrow>
                          (append_event r (WorkflowEvent ''publish'' ''Enriched product ready''
                                             (Some [(''sku'', sku)])) h1,
                           Inr (empty_state
                                  \<lparr>events := Some r,
                                   enriched := Some [(''sku'', sku), (''name'', name),
                                                     (''normalized_attributes'', JObj normalized),
                                                     (''seo'', sc),
                                                     (''localizations'', JList ls),
                                                     (''pricing'', JObj pr)]\<rparr>))))))"

section \<open>Execution strategies\<close>

subsection \<open>Sequential\<close>

text \<open>\<^verbatim>\<open>state.update(node(state))\<close>, an exception of the node ending the run.\<close>

fun update_with :: "node \<Rightarrow> heap \<times> (py_error + enrichment_state) \<Rightarrow> node_result" where
  "update_with nd (h, Inl e) = (h, Inl e)"
| "update_with nd (h, Inr s) =
     (case nd s h of
        (h', Inl e) \<Rightarrow> (h', Inl e)
      | (h', Inr u) \<Rightarrow> (h', Inr (state_update s u)))"

text \<open>
  \<^verbatim>\<open>_run_sequential_pipeline\<close>. The value returned by \<^verbatim>\<open>_node_ingest\<close> is dropped; its
  event reaches the state through the shared list object.
\<close>

definition run_sequential_pipeline :: "env \<Rightarrow> jdict \<Rightarrow> heap \<Rightarrow> node_result" where
  "run_sequential_pipeline env p h0 =
     (case new_list h0 of (r, h) \<Rightarrow>
        (let state = empty_state\<lparr>product := Some p, events := Some r\<rparr> in
         case node_ingest env state h of
           (h1, Inl e) \<Rightarrow> (h1, Inl e)
         | (h1, Inr dropped) \<Rightarrow>
             update_with (node_publish env)
               (update_with (node_localize env)
                 (update_with (node_copywrite env)
                   (update_with (node_validate env)
                     (update_with (node_extract env) (h1, Inr state)))))))"

subsection \<open>Graph\<close>

text \<open>
  Modelled from the spec: the graph runtime (\<^verbatim>\<open>StateGraph\<close>, \<^verbatim>\<open>compile\<close> and \<^verbatim>\<open>invoke\<close> of
  the langgraph library), which is not part of the repository. The spec describes it as
  nodes wired in a chain with a designated entry node and explicit edges ending at a
  terminal marker, where a shared state object flows through the chain and each node
  returns a partial-state update that is merged into it before the next node runs. A run
  is cut off after \<open>recursion_limit\<close> steps (25 in the library).
\<close>

record graph =
  nodes :: "(string \<times> node) list"
  entry_point :: "string option"
  edges :: "(string \<times> string) list"

definition END :: string where
  "END = ''__end__''"

definition StateGraph :: graph where
  "StateGraph = \<lparr>nodes = [], entry_point = None, edges = []\<rparr>"

definition add_node :: "string \<Rightarrow> node \<Rightarrow> graph \<Rightarrow> graph" where
  "add_node name nd g = g\<lparr>nodes := nodes g @ [(name, nd)]\<rparr>"

definition set_entry_point :: "string \<Rightarrow> graph \<Rightarrow> graph" where
  "set_entry_point name g = g\<lparr>entry_point := Some name\<rparr>"

definition add_edge :: "string \<Rightarrow> string \<Rightarrow> graph \<Rightarrow> graph" where
  "add_edge a b g = g\<lparr>edges := edges g @ [(a, b)]\<rparr>"

definition recursion_limit :: nat where
  "recursion_limit = 25"

text \<open>
  Modelled from the spec: \<^verbatim>\<open>graph.invoke(state)\<close> of the langgraph library. From the current
  node: run it, merge its partial update into the state, and follow its edge, until the
  terminal marker is reached; an exception of a node ends the run.
\<close>

fun invoke_from :: "nat \<Rightarrow> graph \<Rightarrow> string \<Rightarrow> enrichment_state \<Rightarrow> heap \<Rightarrow> node_result" where
  "invoke_from 0 g cur s h = (h, Inl (RuntimeError ''GraphRecursionError''))"
| "invoke_from (Suc fuel) g cur s h =
     (if cur = END then (h, Inr s)
      else case map_of (nodes g) cur of
             None \<Rightarrow> (h, Inl (KeyError cur))
           | Some nd \<Rightarrow>
               (case nd s h of
                  (h', Inl e) \<Rightarrow> (h', Inl e)
                | (h', Inr u) \<Rightarrow>
                    (case map_of (edges g) cur of
                       None \<Rightarrow> (h', Inr (state_update s u))
                     | Some nxt \<Rightarrow> invoke_from fuel g nxt (state_update s u) h')))"

definition invoke :: "graph \<Rightarrow> enrichment_state \<Rightarrow> heap \<Rightarrow> node_result" where
  "invoke g s h =
     (case entry_point g of
        None \<Rightarrow> (h, Inl (ValueError ''no entry point''))
      | Some start \<Rightarrow> invoke_from recursion_limit g start s h)"

text \<open>
  \<^verbatim>\<open>_get_graph\<close>. The graph is built once and cached; building it is pure, so the model
  builds it at each call. Tracing only sets the \<^verbatim>\<open>debug\<close> flag and is left out.
\<close>

definition get_graph :: "env \<Rightarrow> py_error + graph" where
  "get_graph env =
     (if \<not> langgraph_available env then Inl (RuntimeError ''LangGraph is not installed.'')
      else Inr (add_edge ''publish'' END
               (add_edge ''localize'' ''publish''
               (add_edge ''copywrite'' ''localize''
               (add_edge ''validate'' ''copywrite''
               (add_edge ''extract'' ''validate''
               (add_edge ''ingest'' ''extract''
               (set_entry_point ''ingest''
               (add_node ''publish'' (node_publish env)
               (add_node ''localize'' (node_localize env)
               (add_node ''copywrite'' (node_copywrite env)
               (add_node ''validate'' (node_validate env)
               (add_node ''extract'' (node_extract env)
               (add_node ''ingest'' (node_ingest env) StateGraph))))))))))))))"

subsection \<open>Enriching one product\<close>

record processed_product =
  pp_sku :: jvalue
  pp_original :: jdict
  pp_enriched :: jdict
  pp_events :: "workflow_event list"

text \<open>
  \<^verbatim>\<open>enrich_product\<close>. Beside the result, the model returns the contents of the run's
  event list when the call ends, normally or by an exception: the run's list is the first
  list object that the call creates.
\<close>

definition run_strategy :: "env \<Rightarrow> jdict \<Rightarrow> node_result" where
  "run_strategy env p =
     (if langgraph_available env then
        (case get_graph env of
           Inl e \<Rightarrow> (empty_heap, Inl e)
         | Inr g \<Rightarrow>
             (case new_list empty_heap of (r, h) \<Rightarrow>
                invoke g (empty_state\<lparr>product := Some p, events := Some r\<rparr>) h))
      else run_sequential_pipeline env p empty_heap)"

definition enrich_product :: "env \<Rightarrow> jdict \<Rightarrow> workflow_event list \<times> (py_error + processed_product)" where
  "enrich_product env p =
     (case run_strategy env p of
        (h, Inl e) \<Rightarrow> (cells h 0, Inl e)
      | (h, Inr result) \<Rightarrow>
          (let evs = (case events result of None \<Rightarrow> [] | Some r \<Rightarrow> cells h r) in
           case enriched result of
             None \<Rightarrow> (cells h 0, Inl (RuntimeError ''Enrichment failed to produce output''))
           | Some en \<Rightarrow>
               if en = [] then (cells h 0, Inl (RuntimeError ''Enrichment failed to produce output''))
               else (case dict_item p ''sku'' of
                       Inl e \<Rightarrow> (cells h 0, Inl e)
                     | Inr sku \<Rightarrow>
                         (cells h 0,
                          Inr \<lparr>pp_sku = sku, pp_original = p, pp_enriched = en, pp_events = evs\<rparr>))))"


section \<open>Catalog files\<close>

text \<open>
  A catalog file holds a JSON document, or text that \<^verbatim>\<open>json.loads\<close> rejects. Writing a
  document and reading it back gives the same value.
\<close>

datatype catalog_file = Unparseable | Document jvalue

type_synonym filesystem = "string \<Rightarrow> catalog_file option"

definition load_json_array :: "filesystem \<Rightarrow> string \<Rightarrow> py_error + jvalue list" where
  "load_json_array fs path =
     (case fs path of
        None \<Rightarrow> Inr []
      | Some Unparseable \<Rightarrow> Inl (ValueError ''JSONDecodeError'')
      | Some (Document (JList records)) \<Rightarrow> Inr records
      | Some (Document other) \<Rightarrow> Inl (ValueError ''Expected list''))"

definition write_json_array :: "string \<Rightarrow> jdict list \<Rightarrow> filesystem \<Rightarrow> filesystem" where
  "write_json_array path records fs = fs(path \<mapsto> Document (JList (map JObj records)))"

text \<open>
  Membership in a Python set goes by hash and equality. Lists and dicts are unhashable
  (\<^verbatim>\<open>TypeError\<close>). Among the other values a truth value equals the integer 0 or 1 and a
  float with an integral value equals that integer; \<open>py_key\<close> picks one representative,
  so that two hashable values are equal in Python when their keys are the same.
\<close>

fun hashable :: "jvalue \<Rightarrow> bool" where
  "hashable (JList xs) = False"
| "hashable (JObj d) = False"
| "hashable v = True"

fun py_key :: "jvalue \<Rightarrow> jvalue" where
  "py_key (JBool b) = JInt (if b then 1 else 0)"
| "py_key (JFloat (Fin q)) = (if of_int \<lfloor>q\<rfloor> = q then JInt \<lfloor>q\<rfloor> else JFloat (Fin q))"
| "py_key (JFloat NZero) = JInt 0"
| "py_key v = v"

text \<open>\<^verbatim>\<open>{record[key] for record in existing if key in record}\<close>\<close>
fun initial_seen :: "string \<Rightarrow> jdict list \<Rightarrow> py_error + jvalue list" where
  "initial_seen key [] = Inr []"
| "initial_seen key (r # rs) =
     (if dict_has r key then
        (if hashable (dict_get r key) then
           (case initial_seen key rs of
              Inl e \<Rightarrow> Inl e
            | Inr seen \<Rightarrow> Inr (py_key (dict_get r key) # seen))
         else Inl (TypeError ''unhashable type''))
      else initial_seen key rs)"

text \<open>The loop of \<^verbatim>\<open>append_unique_records\<close> over the new records.\<close>
fun append_new :: "string \<Rightarrow> jdict list \<Rightarrow> jvalue list \<Rightarrow> jdict list \<Rightarrow> py_error + jdict list" where
  "append_new key [] seen appended = Inr appended"
| "append_new key (r # rs) seen appended =
     (let identifier = dict_get r key in
      if identifier = JNull then Inl (ValueError ''Record missing key'')
      else if \<not> hashable identifier then Inl (TypeError ''unhashable type'')
      else if py_key identifier \<in> set seen then append_new key rs seen appended
      else append_new key rs (py_key identifier # seen) (appended @ [r]))"

definition append_unique_records ::
  "string \<Rightarrow> jdict list \<Rightarrow> jdict list \<Rightarrow> string \<Rightarrow> filesystem
     \<Rightarrow> filesystem \<times> (py_error + jdict list)" where
  "append_unique_records path existing new_records key fs =
     (case initial_seen key existing of
        Inl e \<Rightarrow> (fs, Inl e)
      | Inr seen \<Rightarrow>
          (case append_new key new_records seen existing of
             Inl e \<Rightarrow> (fs, Inl e)
           | Inr appended \<Rightarrow> (write_json_array path appended fs, Inr appended)))"

section \<open>Batch processing\<close>

text \<open>\<^verbatim>\<open>{record.get("sku") for record in enriched_records}\<close>; a record that is not a dict has no \<^verbatim>\<open>get\<close>.\<close>
fun record_skus :: "jvalue list \<Rightarrow> py_error + jvalue list" where
  "record_skus [] = Inr []"
| "record_skus (JObj d # rest) =
     (if hashable (dict_get d ''sku'') then
        (case record_skus rest of
           Inl e \<Rightarrow> Inl e
         | Inr skus \<Rightarrow> Inr (py_key (dict_get d ''sku'') # skus))
      else Inl (TypeError ''unhashable type''))"
| "record_skus (v # rest) = Inl (AttributeError ''get'')"

text \<open>\<^verbatim>\<open>[record for record in simple_records if record.get("sku") not in existing_skus]\<close>\<close>
fun pending_of :: "jvalue list \<Rightarrow> jvalue list \<Rightarrow> py_error + jdict list" where
  "pending_of existing_skus [] = Inr []"
| "pending_of existing_skus (JObj d # rest) =
     (if hashable (dict_get d ''sku'') then
        (case pending_of existing_skus rest of
           Inl e \<Rightarrow> Inl e
         | Inr ps \<Rightarrow> Inr (if py_key (dict_get d ''sku'') \<in> set existing_skus then ps else d # ps))
      else Inl (TypeError ''unhashable type''))"
| "pending_of existing_skus (v # rest) = Inl (AttributeError ''get'')"

text \<open>The records of a loaded catalog once every one of them is known to be a dict.\<close>
fun dicts_of :: "jvalue list \<Rightarrow> jdict list" where
  "dicts_of [] = []"
| "dicts_of (JObj d # rest) = d # dicts_of rest"
| "dicts_of (v # rest) = dicts_of rest"

text \<open>The batch loop: a product whose enrichment raises is logged and skipped.\<close>
fun enrich_all :: "env \<Rightarrow> jdict list \<Rightarrow> processed_product list" where
  "enrich_all env [] = []"
| "enrich_all env (p # ps) =
     (case enrich_product env p of
        (evs, Inr result) \<Rightarrow> result # enrich_all env ps
      | (evs, Inl exc) \<Rightarrow> enrich_all env ps)"

definition process_pending_products ::
  "env \<Rightarrow> filesystem \<Rightarrow> string \<Rightarrow> string \<Rightarrow> bool
     \<Rightarrow> filesystem \<times> (py_error + processed_product list)" where
  "process_pending_products env fs simple_path enriched_path process_all =
     (case load_json_array fs simple_path of
        Inl e \<Rightarrow> (fs, Inl e)
      | Inr simple_records \<Rightarrow>
     (case load_json_array fs enriched_path of
        Inl e \<Rightarrow> (fs, Inl e)
      | Inr enriched_records \<Rightarrow>
     (case record_skus enriched_records of
        Inl e \<Rightarrow> (fs, Inl e)
      | Inr existing_skus \<Rightarrow>
     (case pending_of existing_skus simple_records of
        Inl e \<Rightarrow> (fs, Inl e)
      | Inr all_pending \<Rightarrow>
          (let pending = (if \<not> process_all \<and> all_pending \<noteq> [] then [last all_pending]
                          else all_pending);
               processed = enrich_all env pending
           in if processed \<noteq> [] then
                (case append_unique_records enriched_path (dicts_of enriched_records)
                        (map pp_enriched processed) ''sku'' fs of
                   (fs', Inl e) \<Rightarrow> (fs', Inl e)
                 | (fs', Inr appended) \<Rightarrow> (fs', Inr processed))
              else (fs, Inr processed))))))"



section \<open>Products of the data model\<close>

text \<open>
  In the data model a product's \<^verbatim>\<open>category\<close> is text and its \<^verbatim>\<open>attributes\<close> a mapping; both
  may be missing from a record.
\<close>

definition absent_or_text :: "jdict \<Rightarrow> string \<Rightarrow> bool" where
  "absent_or_text p k = (case map_of p k of None \<Rightarrow> True | Some (JStr s) \<Rightarrow> True | Some other \<Rightarrow> False)"

definition absent_or_mapping :: "jdict \<Rightarrow> string \<Rightarrow> bool" where
  "absent_or_mapping p k = (case map_of p k of None \<Rightarrow> True | Some (JObj d) \<Rightarrow> True | Some other \<Rightarrow> False)"

definition typed_product :: "jdict \<Rightarrow> bool" where
  "typed_product p \<longleftrightarrow> absent_or_text p ''category'' \<and> absent_or_mapping p ''attributes''"

text \<open>The source category of a product, lowercased, or \<^verbatim>\<open>uncategorized\<close> when there is none.\<close>
definition lowercased_category :: "jdict \<Rightarrow> string" where
  "lowercased_category p = (case map_of p ''category'' of Some (JStr c) \<Rightarrow> py_lower c | other \<Rightarrow> ''uncategorized'')"

section \<open>The run as a composition of stage functions\<close>

text \<open>
  The six stages applied one after the other to the contents of a single event list,
  without the state bag and the store. Both strategies are shown below to compute it;
  the properties of a run are then read off the stage functions.
\<close>

definition ingest_event :: "jdict \<Rightarrow> workflow_event" where
  "ingest_event p = WorkflowEvent ''ingest'' ''Loaded product'' (Some [(''sku'', dict_get p ''sku'')])"

definition publish_event :: "jvalue \<Rightarrow> workflow_event" where
  "publish_event sku = WorkflowEvent ''publish'' ''Enriched product ready'' (Some [(''sku'', sku)])"

definition staged_run :: "env \<Rightarrow> jdict \<Rightarrow> jdict staged" where
  "staged_run env p =
     (case normalize_attributes env p [ingest_event p] of
        (evs2, Inl e) \<Rightarrow> (evs2, Inl e)
      | (evs2, Inr normalized) \<Rightarrow>
     (case validate_product p evs2 of
        (evs3, Inl e) \<Rightarrow> (evs3, Inl e)
      | (evs3, Inr pr) \<Rightarrow>
     (case build_seo_copy env p normalized evs3 of
        (evs4, Inl e) \<Rightarrow> (evs4, Inl e)
      | (evs4, Inr sc) \<Rightarrow>
     (case localize_copy env sc evs4 of
        (evs5, Inl e) \<Rightarrow> (evs5, Inl e)
      | (evs5, Inr ls) \<Rightarrow>
     (case dict_item p ''sku'' of
        Inl e \<Rightarrow> (evs5, Inl e)
      | Inr sku \<Rightarrow>
     (case dict_item p ''name'' of
        Inl e \<Rightarrow> (evs5, Inl e)
      | Inr name \<Rightarrow>
          (evs5 @ [publish_event sku],
           Inr [(''sku'', sku), (''name'', name),
                (''normalized_attributes'', JObj normalized),
                (''seo'', sc),
                (''localizations'', JList ls),
                (''pricing'', JObj pr)])))))))"

fun finish :: "jdict \<Rightarrow> jdict staged \<Rightarrow> workflow_event list \<times> (py_error + processed_product)" where
  "finish p (evs, Inl e) = (evs, Inl e)"
| "finish p (evs, Inr en) =
     (evs, Inr \<lparr>pp_sku = dict_get p ''sku'', pp_original = p, pp_enriched = en, pp_events = evs\<rparr>)"

text \<open>A stage appends to the event list a block of one or more events, all of its own step.\<close>

definition appends_block :: "string \<Rightarrow> workflow_event list \<Rightarrow> workflow_event list \<Rightarrow> bool" where
  "appends_block name evs evs' \<longleftrightarrow>
     (\<exists>new. evs' = evs @ new \<and> new \<noteq> [] \<and> (\<forall>e \<in> set new. step e = name))"

text \<open>The step sequence of an event log, restricted to the six canonical steps.\<close>

definition canonical_steps :: "workflow_event list \<Rightarrow> string list" where
  "canonical_steps evs = filter (\<lambda>s. s \<in> set WORKFLOW_STEPS) (map step evs)"

section \<open>Sample data\<close>

text \<open>A process without the graph library and without the text-generation capability.\<close>

definition plain_env :: env where
  "plain_env = \<lparr>langgraph_available = False, openai_client = None, str_of = (\<lambda>v. ''None'')\<rparr>"

text \<open>The product of the repository's test \<^verbatim>\<open>test_enrich_product_converts_capacity_units\<close>.\<close>

definition bottle :: jdict where
  "bottle = [(''sku'', JStr ''TEMP-2''), (''name'', JStr ''Bottle''), (''description'', JStr ''''),
             (''attributes'', JObj [(''capacity'', JStr ''20 oz'')]),
             (''price'', JFloat (Fin (25 / 2))), (''currency'', JStr ''USD''),
             (''category'', JStr ''Outdoors'')]"

text \<open>The event log and the result of enriching it without the capability.\<close>

definition bottle_log :: "workflow_event list" where
  "bottle_log =
     [\<lparr>step = ''ingest'', message = ''Loaded product'', payload = Some [(''sku'', JStr ''TEMP-2'')]\<rparr>,
      \<lparr>step = ''extract'', message = ''Extracting attributes with AI'', payload = None\<rparr>,
      \<lparr>step = ''extract'', message = ''Using fallback attribute extraction'', payload = None\<rparr>,
      \<lparr>step = ''extract'', message = ''Normalizing attributes'', payload = None\<rparr>,
      \<lparr>step = ''validate'', message = ''Validation passed'', payload = None\<rparr>,
      \<lparr>step = ''copywrite'', message = ''Using fallback SEO generation'', payload = None\<rparr>,
      \<lparr>step = ''copywrite'', message = ''Generated SEO copy'', payload = None\<rparr>,
      \<lparr>step = ''localize'', message = ''Using fallback localization'', payload = None\<rparr>,
      \<lparr>step = ''localize'', message = ''Generated default locale copy'', payload = None\<rparr>,
      \<lparr>step = ''publish'', message = ''Enriched product ready'', payload = Some [(''sku'', JStr ''TEMP-2'')]\<rparr>]"

definition bottle_enriched :: jdict where
  "bottle_enriched =
     [(''sku'', JStr ''TEMP-2''), (''name'', JStr ''Bottle''),
      (''normalized_attributes'',
       JObj [(''capacity'', JObj [(''value'', JFloat (to_float (59147 / 100))), (''unit'', JStr ''ml''),
                                  (''source'', JStr ''20 oz'')]),
             (''category'', JStr ''outdoors'')]),
      (''seo'', JObj [(''title'', JStr ''Bottle | Outdoors''),
                      (''description'', JStr ''Buy Bottle featuring .''),
                      (''keywords'', JList [JStr ''Bottle'', JStr ''Outdoors''])]),
      (''localizations'',
       JList [JObj [(''locale'', JStr ''en-US''), (''title'', JStr ''Bottle | Outdoors''),
                    (''description'', JStr ''Buy Bottle featuring .'')]]),
      (''pricing'', JObj [(''currency'', JStr ''USD''), (''price'', JFloat (Fin (25 / 2))),
                          (''in_stock'', JBool True)])]"

definition bottle_processed :: processed_product where
  "bottle_processed =
     \<lparr>pp_sku = JStr ''TEMP-2'', pp_original = bottle, pp_enriched = bottle_enriched,
      pp_events = bottle_log\<rparr>"

text \<open>The same product without a category.\<close>

definition uncategorized_bottle :: jdict where
  "uncategorized_bottle = [(''sku'', JStr ''TEMP-2''), (''name'', JStr ''Bottle''),
                           (''description'', JStr ''''), (''price'', JFloat (Fin (25 / 2)))]"

text \<open>A process whose text-generation capability is present but fails at every call.\<close>

definition failing_env :: env where
  "failing_env = \<lparr>langgraph_available = False,
                   openai_client = Some (\<lambda>request. CallFailed ''Connection error.''),
                   str_of = (\<lambda>v. ''None'')\<rparr>"

text \<open>
  The record that the API endpoint builds from a request whose name is empty and whose
  category is null (the request model declares the category optional).
\<close>

definition blank_request :: jdict where
  "blank_request = [(''sku'', JStr ''TEMP-9''), (''name'', JStr ''''), (''description'', JStr ''''),
                    (''category'', JNull), (''price'', JFloat (Fin 0)), (''currency'', JStr ''USD''),
                    (''attributes'', JObj [])]"

text \<open>
  A process whose text-generation capability answers every call with the JSON document
  \<^verbatim>\<open>[]\<close>, and one whose capability answers every call with a mapping that carries a long
  description.
\<close>

definition list_env :: env where
  "list_env = \<lparr>langgraph_available = False,
                openai_client = Some (\<lambda>request. Reply (JList []) (Some (JInt 7))),
                str_of = (\<lambda>v. ''None'')\<rparr>"

definition copy_env :: env where
  "copy_env = \<lparr>langgraph_available = False,
                openai_client =
                  Some (\<lambda>request. Reply (JObj [(''title'', JStr ''T''), (''description'', JStr ''D''),
                                                (''long_description'', JStr ''L'')])
                                          (Some (JInt 7))),
                str_of = (\<lambda>v. ''None'')\<rparr>"

text \<open>A record without a name, and catalogs on disk: only the simple catalog exists.\<close>

definition nameless :: jdict where
  "nameless = [(''sku'', JStr ''TEMP-3''), (''price'', JInt 5), (''category'', JStr ''Test'')]"

definition mixed_catalogs :: filesystem where
  "mixed_catalogs = [''simple.json'' \<mapsto> Document (JList [JObj bottle, JObj nameless])]"



section \<open>Notions used in the statements\<close>

text \<open>
  The call of the capability for SEO copy fails: the call or the parsing of its content
  raises, or the reply carries no token usage to read.
\<close>

definition seo_call_fails :: "client \<Rightarrow> jdict \<Rightarrow> jdict \<Rightarrow> bool" where
  "seo_call_fails cl p normalized =
     (case cl (SeoRequest p normalized) of
        CallFailed msg \<Rightarrow> True
      | Reply content None \<Rightarrow> True
      | Reply content (Some tokens) \<Rightarrow> False)"

text \<open>
  The title as the specification words it, \<^verbatim>\<open>"{name} | {Category title-cased}"\<close>, for a
  product whose name is the text \<open>n\<close> and whose category is the text \<open>c\<close> (empty when the
  product has none).
\<close>

definition spec_title :: "string \<Rightarrow> string \<Rightarrow> string" where
  "spec_title n c = n @ '' | '' @ py_title c"

text \<open>The text of a field of a record: empty when the field is missing or not text.\<close>

definition text_of :: "jdict \<Rightarrow> string \<Rightarrow> string" where
  "text_of p k = (case map_of p k of Some (JStr s) \<Rightarrow> s | other \<Rightarrow> '''')"

text \<open>The key under which a record's \<^verbatim>\<open>sku\<close> takes part in set membership.\<close>

definition sku_key :: "jdict \<Rightarrow> jvalue" where
  "sku_key d = py_key (dict_get d ''sku'')"

text \<open>Every record of a loaded catalog is a dict whose \<^verbatim>\<open>sku\<close> is hashable.\<close>

definition hashable_dicts :: "jvalue list \<Rightarrow> bool" where
  "hashable_dicts records =
     list_all (\<lambda>v. case v of JObj d \<Rightarrow> hashable (dict_get d ''sku'') | other \<Rightarrow> False) records"

text \<open>
  The pending records of a pair of catalogs, as \<^verbatim>\<open>process_pending_products\<close> computes them
  before it narrows them: the simple records whose sku is not in the enriched catalog.
\<close>

definition pending_records :: "filesystem \<Rightarrow> string \<Rightarrow> string \<Rightarrow> py_error + jdict list" where
  "pending_records fs simple_path enriched_path =
     (case load_json_array fs simple_path of
        Inl e \<Rightarrow> Inl e
      | Inr simple_records \<Rightarrow>
     (case load_json_array fs enriched_path of
        Inl e \<Rightarrow> Inl e
      | Inr enriched_records \<Rightarrow>
     (case record_skus enriched_records of
        Inl e \<Rightarrow> Inl e
      | Inr existing_skus \<Rightarrow> pending_of existing_skus simple_records)))"

text \<open>The enrichment of a product returns an output.\<close>

definition succeeds :: "env \<Rightarrow> jdict \<Rightarrow> bool" where
  "succeeds env p = (\<not> isl (snd (enrich_product env p)))"

text \<open>
  A valid record: a product of the data model whose required fields are all truthy,
  whose name is text and whose price converts to a float.
\<close>

definition valid_product :: "jdict \<Rightarrow> bool" where
  "valid_product p \<longleftrightarrow>
     typed_product p \<and> missing_fields p = []
     \<and> (case map_of p ''name'' of Some (JStr n) \<Rightarrow> True | other \<Rightarrow> False)
     \<and> \<not> isl (py_float (dict_get p ''price''))"

section \<open>Evaluation rules\<close>

lemma floor_rat_numeral: "\<lfloor>numeral a / numeral b :: rat\<rfloor> = numeral a div numeral b"
  by (metis floor_divide_of_int_eq of_int_numeral)

lemma floor_rat_neg_numeral: "\<lfloor>- (numeral a / numeral b) :: rat\<rfloor> = - numeral a div numeral b"
  by (metis divide_minus_left floor_divide_of_int_eq of_int_neg_numeral of_int_numeral)

lemmas text_eval =
  upper_letters_def lower_letters_def is_upper_def is_lower_def is_digit_def is_space_def
  lower_char_def upper_char_def digit_val_def py_lower_def replace_space_def py_strip_def
  py_title_def

lemma ceiling_rat_numeral: "\<lceil>numeral a / numeral b :: rat\<rceil> = - (- numeral a div numeral b)"
  by (simp add: ceiling_def floor_rat_neg_numeral)

lemma bit_length_eval:
  "bit_length 0 = 0"
  "bit_length (Suc 0) = Suc 0"
  "bit_length (numeral k) = Suc (bit_length (numeral k div 2))"
  by (simp_all add: bit_length.simps [of 0] bit_length.simps [of "Suc 0"] bit_length.simps [of "numeral k"])

lemmas float_eval =
  Let_def pow2_def exponent2_def bit_length_eval nearest_double_def signed_float_def to_float_def
  fl_mult_def round_half_even_def is_float_space_def float_strip_def digitpart_def digits_value_def
  pow10_def exponent_of_def decimal_of_def py_float_str_def
  floor_rat_numeral floor_rat_neg_numeral ceiling_rat_numeral

section \<open>Floats: properties\<close>

lemma bit_length_pos: "0 < n \<Longrightarrow> 0 < bit_length n"
  by (subst bit_length.simps) simp

lemma bit_length_bounds:
  "0 < n \<Longrightarrow> 2 ^ (bit_length n - 1) \<le> n \<and> n < 2 ^ bit_length n"
proof (induction n rule: bit_length.induct)
  case (1 n)
  show ?case
  proof (cases "n div 2 = 0")
    case True
    with 1(2) have n: "n = 1" by presburger
    then show ?thesis by (simp add: bit_length_eval)
  next
    case False
    then have p: "0 < n div 2" by simp
    from 1(2) have n0: "n \<noteq> 0" by simp
    from 1(1) [OF n0 p] have ih: "2 ^ (bit_length (n div 2) - 1) \<le> n div 2"
      "n div 2 < 2 ^ bit_length (n div 2)" by simp_all
    have b: "bit_length n = Suc (bit_length (n div 2))"
      using n0 by (subst bit_length.simps) simp
    from bit_length_pos [OF p] obtain k where k: "bit_length (n div 2) = Suc k"
      by (cases "bit_length (n div 2)") simp_all
    from ih k have l: "2 ^ k \<le> n div 2" and u: "n div 2 < 2 * 2 ^ k" by simp_all
    from l have "2 * 2 ^ k \<le> n" by presburger
    moreover from u have "n < 2 * (2 * 2 ^ k)" by presburger
    ultimately show ?thesis by (simp add: b k)
  qed
qed

lemma exponent2_bounds:
  assumes "0 < q"
  shows "pow2 (exponent2 q) \<le> q \<and> q < pow2 (exponent2 q + 1)"
proof (cases "1 \<le> q")
  case True
  define n where "n = nat \<lfloor>q\<rfloor>"
  define b where "b = bit_length n"
  from True have f: "1 \<le> \<lfloor>q\<rfloor>" by simp
  then have n: "0 < n" and nq: "(of_nat n :: rat) = of_int \<lfloor>q\<rfloor>"
    by (simp_all add: n_def)
  from bit_length_bounds [OF n] have l: "2 ^ (b - 1) \<le> n" and u: "n < 2 ^ b"
    by (simp_all add: b_def)
  from bit_length_pos [OF n] have bp: "0 < b" by (simp add: b_def)
  have e: "exponent2 q = int b - 1"
    using True by (simp add: exponent2_def n_def b_def)
  from bp have p1: "pow2 (int b - 1) = 2 ^ (b - 1)"
    by (simp add: pow2_def nat_diff_distrib')
  have p2: "pow2 (int b - 1 + 1) = 2 ^ b" by (simp add: pow2_def)
  from l have "(of_nat (2 ^ (b - 1)) :: rat) \<le> of_nat n" by (simp only: of_nat_le_iff)
  then have "(2 :: rat) ^ (b - 1) \<le> of_nat n" by simp
  also have "\<dots> \<le> q" unfolding nq by simp
  finally have lo: "(2 :: rat) ^ (b - 1) \<le> q" .
  from u have "Suc n \<le> 2 ^ b" by simp
  then have "(of_nat (Suc n) :: rat) \<le> of_nat (2 ^ b)" by (simp only: of_nat_le_iff)
  then have "(of_nat n :: rat) + 1 \<le> 2 ^ b" by simp
  moreover have "q < of_nat n + 1" unfolding nq by linarith
  ultimately have hi: "q < 2 ^ b" by simp
  from lo hi show ?thesis unfolding e p2 p1 by simp
next
  case False
  define c where "c = \<lceil>1 / q\<rceil>"
  define n where "n = nat (c - 1)"
  define b where "b = bit_length n"
  from False assms have i: "1 < 1 / q" by simp
  then have c2: "2 \<le> c" unfolding c_def by linarith
  then have n: "0 < n" and nc: "(of_nat n :: rat) = of_int c - 1"
    by (simp_all add: n_def)
  have c1: "of_int c - 1 < 1 / q" and c3: "1 / q \<le> of_int c"
    unfolding c_def by linarith+
  from bit_length_bounds [OF n] have l: "2 ^ (b - 1) \<le> n" and u: "n < 2 ^ b"
    by (simp_all add: b_def)
  from bit_length_pos [OF n] have bp: "0 < b" by (simp add: b_def)
  have e: "exponent2 q = - int b"
    using False by (simp add: exponent2_def n_def b_def c_def)
  from bp have p1: "pow2 (- int b) = 1 / 2 ^ b" by (simp add: pow2_def)
  have p2: "pow2 (- int b + 1) = 1 / 2 ^ (b - 1)"
  proof (cases "b = 1")
    case True
    then show ?thesis by (simp add: pow2_def)
  next
    case False
    with bp have "1 < b" by simp
    then have "\<not> 0 \<le> - int b + 1" and "nat (- (- int b + 1)) = b - 1" by simp_all
    then show ?thesis by (simp add: pow2_def)
  qed
  from l have "(of_nat (2 ^ (b - 1)) :: rat) \<le> of_nat n" by (simp only: of_nat_le_iff)
  then have "(2 :: rat) ^ (b - 1) \<le> of_nat n" by simp
  also have "\<dots> < 1 / q" unfolding nc by (rule c1)
  finally have "(2 :: rat) ^ (b - 1) < 1 / q" .
  with assms have hi: "q < 1 / 2 ^ (b - 1)"
    by (simp add: field_simps)
  from u have "Suc n \<le> 2 ^ b" by simp
  then have "(of_nat (Suc n) :: rat) \<le> of_nat (2 ^ b)" by (simp only: of_nat_le_iff)
  then have "(of_nat n :: rat) + 1 \<le> 2 ^ b" by simp
  then have "(of_int c :: rat) \<le> 2 ^ b" unfolding nc by simp
  with c3 have "1 / q \<le> 2 ^ b" by (rule order_trans)
  with assms have lo: "1 / 2 ^ b \<le> q"
    by (simp add: field_simps)
  from lo hi show ?thesis unfolding e p1 p2 by simp
qed

lemma pow2_powi: "pow2 e = 2 powi e"
  by (simp add: pow2_def power_int_def field_simps)

lemma pow2_pos: "0 < pow2 e"
  by (simp add: pow2_powi)

lemma pow2_add: "pow2 (a + b) = pow2 a * pow2 b"
  by (simp add: pow2_powi power_int_add)

lemma pow2_mono: "a \<le> b \<Longrightarrow> pow2 a \<le> pow2 b"
  by (simp add: pow2_powi power_int_increasing)

lemma pow2_nat: "pow2 (int n) = 2 ^ n"
  by (simp add: pow2_def)

lemma round_half_even_near: "\<bar>of_int (round_half_even x) - x\<bar> \<le> 1 / 2"
proof -
  have "of_int \<lfloor>x\<rfloor> \<le> x" "x < of_int \<lfloor>x\<rfloor> + 1" by linarith+
  then show ?thesis
    by (auto simp: round_half_even_def Let_def abs_le_iff)
qed

lemma round_half_even_int: "round_half_even (of_int n) = n"
  by (simp add: round_half_even_def)

text \<open>
  The nearest binary64 number is a multiple of the quantum of its binade, with a mantissa
  of at most 53 bits, and lies within half a quantum.
\<close>

lemma nearest_double_near:
  assumes "0 < a" and "nearest_double a = Some r"
  shows "\<exists>m k. r = of_int m * pow2 k \<and> 0 \<le> m \<and> m \<le> 2 ^ 53 \<and> - 1074 \<le> k
               \<and> k = max (exponent2 a - 52) (- 1074) \<and> \<bar>r - a\<bar> \<le> pow2 k / 2 \<and> r < 2 ^ 1024"
proof -
  define k where "k = max (exponent2 a - 52) (- 1074)"
  define m where "m = round_half_even (a / pow2 k)"
  from assms have r: "r = of_int m * pow2 k" and lt: "r < 2 ^ 1024"
    by (auto simp: nearest_double_def Let_def k_def m_def split: if_splits)
  have q: "0 < pow2 k" by (rule pow2_pos)
  from round_half_even_near [of "a / pow2 k"] have n: "\<bar>of_int m - a / pow2 k\<bar> \<le> 1 / 2"
    by (simp add: m_def)
  have "r - a = (of_int m - a / pow2 k) * pow2 k"
    using q by (simp add: r left_diff_distrib)
  then have "\<bar>r - a\<bar> = \<bar>of_int m - a / pow2 k\<bar> * \<bar>pow2 k\<bar>"
    by (simp only: abs_mult)
  also have "\<dots> = \<bar>of_int m - a / pow2 k\<bar> * pow2 k"
    using q by simp
  also have "\<dots> \<le> 1 / 2 * pow2 k"
    using n q by (intro mult_right_mono) simp_all
  finally have near: "\<bar>r - a\<bar> \<le> pow2 k / 2" by simp
  from exponent2_bounds [OF assms(1)] have "a < pow2 (exponent2 a + 1)" by simp
  also have "\<dots> \<le> pow2 (k + 53)" by (rule pow2_mono) (simp add: k_def)
  also have "\<dots> = pow2 k * 2 ^ 53" using pow2_add [of k 53] pow2_nat [of 53] by simp
  finally have "a / pow2 k < 2 ^ 53" using q by (simp add: field_simps)
  with n have "(of_int m :: rat) < 2 ^ 53 + 1" by linarith
  also have "\<dots> = of_int (2 ^ 53 + 1)" by simp
  finally have "m < 2 ^ 53 + 1" by (simp only: of_int_less_iff)
  then have m53: "m \<le> 2 ^ 53" by linarith
  from assms(1) q have "0 < a / pow2 k" by simp
  with n have "(- 1 :: rat) < of_int m" by linarith
  then have "(of_int (- 1) :: rat) < of_int m" by simp
  then have "- 1 < m" by (simp only: of_int_less_iff)
  then have m0: "0 \<le> m" by linarith
  have "- 1074 \<le> k" by (simp add: k_def)
  with r m0 m53 near lt show ?thesis unfolding k_def by blast
qed

lemma nearest_double_below_limit:
  assumes "0 < x" and "x < 2 ^ 1024 - 2 ^ 970"
  shows "nearest_double x \<noteq> None"
proof -
  define k where "k = max (exponent2 x - 52) (- 1074)"
  define r where "r = of_int (round_half_even (x / pow2 k)) * pow2 k"
  have q: "0 < pow2 k" by (rule pow2_pos)
  from round_half_even_near [of "x / pow2 k"]
  have n: "\<bar>of_int (round_half_even (x / pow2 k)) - x / pow2 k\<bar> \<le> 1 / 2" .
  have "r - x = (of_int (round_half_even (x / pow2 k)) - x / pow2 k) * pow2 k"
    using q by (simp add: r_def left_diff_distrib)
  then have "\<bar>r - x\<bar> = \<bar>of_int (round_half_even (x / pow2 k)) - x / pow2 k\<bar> * \<bar>pow2 k\<bar>"
    by (simp only: abs_mult)
  also have "\<dots> = \<bar>of_int (round_half_even (x / pow2 k)) - x / pow2 k\<bar> * pow2 k"
    using q by simp
  also have "\<dots> \<le> 1 / 2 * pow2 k"
    using n q by (intro mult_right_mono) simp_all
  finally have near: "\<bar>r - x\<bar> \<le> pow2 k / 2" by simp
  have e: "exponent2 x < 1024"
  proof (rule ccontr)
    assume "\<not> exponent2 x < 1024"
    then have "pow2 1024 \<le> pow2 (exponent2 x)" by (intro pow2_mono) simp
    also from exponent2_bounds [OF assms(1)] have "\<dots> \<le> x" by simp
    finally have "2 ^ 1024 \<le> x" using pow2_nat [of 1024] by simp
    with assms(2) show False by simp
  qed
  then have "k \<le> 971" by (simp add: k_def)
  then have "pow2 k \<le> pow2 971" by (rule pow2_mono)
  also have "\<dots> = 2 * 2 ^ 970" using pow2_nat [of 971] by simp
  finally have "pow2 k / 2 \<le> 2 ^ 970" by simp
  with near have "r \<le> x + 2 ^ 970" by linarith
  with assms(2) have "r < 2 ^ 1024" by linarith
  then show ?thesis
    using assms(1) by (simp add: nearest_double_def Let_def k_def r_def)
qed

lemma nearest_double_big:
  assumes "0 < a" and "972 \<le> max (exponent2 a - 52) (- 1074)"
  shows "nearest_double a = None"
proof (rule ccontr)
  assume "nearest_double a \<noteq> None"
  then obtain r where s: "nearest_double a = Some r" by auto
  from nearest_double_near [OF assms(1) s] obtain m k where
    r: "r = of_int m * pow2 k" and k: "k = max (exponent2 a - 52) (- 1074)"
    and near: "\<bar>r - a\<bar> \<le> pow2 k / 2" and lt: "r < 2 ^ 1024"
    by (elim exE conjE)
  have q: "0 < pow2 k" by (rule pow2_pos)
  from assms(2) have k972: "972 \<le> k" unfolding k .
  with k have ke: "k = exponent2 a - 52" by simp
  from exponent2_bounds [OF assms(1)] have "pow2 (k + 52) \<le> a" unfolding ke by simp
  then have "pow2 k * 2 ^ 52 \<le> a" using pow2_add [of k 52] pow2_nat [of 52] by simp
  then have big: "2 ^ 52 * pow2 k \<le> a" by (simp add: mult.commute)
  from near have "a - pow2 k / 2 \<le> of_int m * pow2 k" unfolding r by linarith
  with big have "(2 ^ 52 - 1 / 2) * pow2 k \<le> of_int m * pow2 k"
    by (simp add: left_diff_distrib)
  with q have "(2 ^ 52 - 1 / 2 :: rat) \<le> of_int m"
    by (simp only: mult_le_cancel_right_pos)
  then have "(of_int (2 ^ 52 - 1) :: rat) < of_int m" by simp
  then have "2 ^ 52 - 1 < m" by (simp only: of_int_less_iff)
  then have "2 ^ 52 \<le> m" by linarith
  then have "(of_int (2 ^ 52) :: rat) \<le> of_int m" by (simp only: of_int_le_iff)
  then have m52: "(2 ^ 52 :: rat) \<le> of_int m" by simp
  from k972 have "pow2 972 \<le> pow2 k" by (rule pow2_mono)
  then have "2 ^ 972 \<le> pow2 k" using pow2_nat [of 972] by simp
  then have "(2 ^ 52 :: rat) * 2 ^ 972 \<le> 2 ^ 52 * pow2 k"
    by (intro mult_left_mono) simp_all
  also have "\<dots> \<le> of_int m * pow2 k"
    using m52 q by (intro mult_right_mono) simp_all
  finally have "2 ^ 1024 \<le> r" unfolding r by simp
  with lt show False by simp
qed

text \<open>A magnitude of \<open>2^1024\<close> or more overflows.\<close>

lemma nearest_double_overflow:
  assumes "2 ^ 1024 \<le> a"
  shows "nearest_double a = None"
proof -
  have "(0 :: rat) < 2 ^ 1024" by simp
  then have a: "0 < a" using assms by (rule less_le_trans)
  have "1024 \<le> exponent2 a"
  proof (rule ccontr)
    assume "\<not> 1024 \<le> exponent2 a"
    then have "pow2 (exponent2 a + 1) \<le> pow2 1024" by (intro pow2_mono) simp
    with exponent2_bounds [OF a] have "a < pow2 1024" by simp
    with assms show False using pow2_nat [of 1024] by simp
  qed
  then have "972 \<le> max (exponent2 a - 52) (- 1074)" by simp
  with a show ?thesis by (rule nearest_double_big)
qed

lemma nearest_double_range:
  assumes "0 < a" and "nearest_double a = Some r"
  shows "0 \<le> r \<and> r \<le> 2 ^ 1024 - 2 ^ 971 \<and> (r \<le> 2 ^ 52 \<or> (\<exists>n. r = of_int n))"
proof -
  from nearest_double_near [OF assms] obtain m k where
    r: "r = of_int m * pow2 k" and m0: "0 \<le> m" and m53: "m \<le> 2 ^ 53"
    and k: "k = max (exponent2 a - 52) (- 1074)" and lt: "r < 2 ^ 1024"
    by (elim exE conjE)
  have q: "0 < pow2 k" by (rule pow2_pos)
  from m0 q have r0: "0 \<le> r" by (simp add: r)
  from m53 have "(of_int m :: rat) \<le> of_int (2 ^ 53)" by (simp only: of_int_le_iff)
  then have mr: "(of_int m :: rat) \<le> 2 ^ 53" by simp
  have top: "r \<le> 2 ^ 1024 - 2 ^ 971"
  proof (cases "k \<le> 970")
    case True
    then have "pow2 k \<le> pow2 970" by (rule pow2_mono)
    then have p: "pow2 k \<le> 2 ^ 970" using pow2_nat [of 970] by simp
    have "r \<le> 2 ^ 53 * pow2 k" unfolding r using mr q by (intro mult_right_mono) simp_all
    also have "\<dots> \<le> 2 ^ 53 * 2 ^ 970" using p by (intro mult_left_mono) simp_all
    also have "\<dots> \<le> (2 ^ 1024 - 2 ^ 971 :: rat)" by simp
    finally show ?thesis .
  next
    case False
    show ?thesis
    proof (cases "k = 971")
      case True
      then have p: "pow2 k = 2 ^ 971" using pow2_nat [of 971] by simp
      from lt have "of_int m * (2 ^ 971 :: rat) < 2 ^ 53 * 2 ^ 971" unfolding r p by simp
      then have "(of_int m :: rat) < 2 ^ 53" by (simp only: mult_less_cancel_right_pos zero_less_power zero_less_numeral)
      also have "\<dots> = of_int (2 ^ 53)" by simp
      finally have "m < 2 ^ 53" by (simp only: of_int_less_iff)
      then have "m \<le> 2 ^ 53 - 1" by linarith
      then have "(of_int m :: rat) \<le> of_int (2 ^ 53 - 1)" by (simp only: of_int_le_iff)
      then have "(of_int m :: rat) \<le> 2 ^ 53 - 1" by simp
      then have "of_int m * (2 ^ 971 :: rat) \<le> (2 ^ 53 - 1) * 2 ^ 971"
        by (intro mult_right_mono) simp_all
      also have "\<dots> = (2 ^ 1024 - 2 ^ 971 :: rat)" by simp
      finally show ?thesis unfolding r p .
    next
      case False
      with \<open>\<not> k \<le> 970\<close> have "972 \<le> max (exponent2 a - 52) (- 1074)"
        unfolding k by simp
      from nearest_double_big [OF assms(1) this] assms(2) have False by simp
      then have "2 ^ 1024 \<le> r" ..
      with lt show ?thesis by simp
    qed
  qed
  have shape: "r \<le> 2 ^ 52 \<or> (\<exists>n. r = of_int n)"
  proof (cases "0 \<le> k")
    case True
    then have "pow2 k = of_int (2 ^ nat k)" by (simp add: pow2_def)
    then have "r = of_int (m * 2 ^ nat k)" by (simp add: r)
    then show ?thesis by blast
  next
    case False
    then have "k \<le> - 1" by simp
    then have "pow2 k \<le> pow2 (- 1)" by (rule pow2_mono)
    then have p: "pow2 k \<le> 1 / 2" by (simp add: pow2_def)
    have "r \<le> 2 ^ 53 * pow2 k" unfolding r using mr q by (intro mult_right_mono) simp_all
    also have "\<dots> \<le> 2 ^ 53 * (1 / 2)" using p by (intro mult_left_mono) simp_all
    also have "\<dots> = (2 ^ 52 :: rat)" by simp
    finally show ?thesis by simp
  qed
  from r0 top shape show ?thesis by (intro conjI)
qed

lemma round_half_even_nonneg: "0 \<le> x \<Longrightarrow> 0 \<le> round_half_even x"
  by (auto simp: round_half_even_def Let_def)

text \<open>
  Rounding a finite float to two decimals gives a decimal that a float can hold: reading
  it back does not overflow.
\<close>

lemma round2_of_double:
  assumes "0 \<le> a" and "nearest_double a = Some r"
  shows "nearest_double (of_int (round_half_even (r * 100)) / 100) \<noteq> None"
proof (cases "a = 0")
  case True
  with assms(2) have "r = 0" by (simp add: nearest_double_def)
  then show ?thesis by (simp add: round_half_even_int [of 0, simplified] nearest_double_def)
next
  case False
  with assms(1) have a: "0 < a" by simp
  from nearest_double_range [OF a assms(2)] have r0: "0 \<le> r"
    and top: "r \<le> 2 ^ 1024 - 2 ^ 971" and shape: "r \<le> 2 ^ 52 \<or> (\<exists>n. r = of_int n)"
    by simp_all
  define a' where "a' = (of_int (round_half_even (r * 100)) / 100 :: rat)"
  from r0 have "0 \<le> round_half_even (r * 100)" by (intro round_half_even_nonneg) simp
  then have a0: "0 \<le> a'" by (simp add: a'_def)
  have lim: "a' < 2 ^ 1024 - 2 ^ 970"
    using shape
  proof
    assume "r \<le> 2 ^ 52"
    moreover from round_half_even_near [of "r * 100"]
    have "of_int (round_half_even (r * 100)) \<le> r * 100 + 1 / 2" by linarith
    then have "a' \<le> r + 1 / 200" by (simp add: a'_def)
    ultimately have "a' \<le> 2 ^ 52 + 1 / 200" by linarith
    also have "\<dots> < (2 ^ 1024 - 2 ^ 970 :: rat)" by simp
    finally show ?thesis .
  next
    assume "\<exists>n. r = of_int n"
    then obtain n where n: "r = of_int n" by (elim exE)
    have "r * 100 = of_int (n * 100)" by (simp add: n)
    then have "round_half_even (r * 100) = n * 100" by (simp only: round_half_even_int)
    then have "a' = r" by (simp add: a'_def n)
    with top have "a' \<le> 2 ^ 1024 - 2 ^ 971" by simp
    also have "\<dots> < (2 ^ 1024 - 2 ^ 970 :: rat)" by simp
    finally show ?thesis .
  qed
  show ?thesis
  proof (cases "a' = 0")
    case True
    then show ?thesis unfolding a'_def [symmetric] by (simp add: nearest_double_def)
  next
    case False
    with a0 have "0 < a'" by simp
    from nearest_double_below_limit [OF this lim] show ?thesis by (simp add: a'_def)
  qed
qed

lemma signed_float_finite: "isfinite (signed_float neg a) \<longleftrightarrow> nearest_double a \<noteq> None"
  by (simp add: signed_float_def split: option.splits)

lemma py_round2_signed_float:
  assumes "0 \<le> a" and "isfinite (signed_float neg a)"
  shows "isfinite (py_round2 (signed_float neg a))"
proof -
  from assms(2) obtain r where r: "nearest_double a = Some r"
    by (auto simp: signed_float_finite)
  from assms(1) r have r0: "0 \<le> r"
    using nearest_double_range [of a r] by (cases "a = 0") (auto simp: nearest_double_def)
  from round2_of_double [OF assms(1) r]
  have f: "isfinite (signed_float s (of_int (round_half_even (r * 100)) / 100))" for s
    by (simp add: signed_float_finite)
  show ?thesis
  proof (cases "neg \<and> r = 0")
    case True
    then show ?thesis by (simp add: signed_float_def r)
  next
    case False
    then have "signed_float neg a = Fin (if neg then - r else r)"
      by (auto simp: signed_float_def r)
    moreover have "\<bar>if neg then - r else r\<bar> = r" using r0 by simp
    ultimately show ?thesis using f by simp
  qed
qed

text \<open>\<^verbatim>\<open>round(x * y, 2)\<close> is finite whenever the product is.\<close>

lemma py_round2_product:
  "isfinite (py_round2 (fl_mult x y)) = isfinite (fl_mult x y)"
proof (cases "isfinite (fl_mult x y)")
  case False
  then show ?thesis by (cases "fl_mult x y") simp_all
next
  case True
  then have "fl_mult x y = signed_float (sign_bit x \<noteq> sign_bit y) (magnitude x * magnitude y)"
    by (auto simp: fl_mult_def split: if_splits)
  moreover have "0 \<le> magnitude x * magnitude y"
    by (cases x; cases y) simp_all
  ultimately show ?thesis
    using True py_round2_signed_float [of "magnitude x * magnitude y" "sign_bit x \<noteq> sign_bit y"]
    by simp
qed

lemma py_float_int_overflow:
  "2 ^ 1024 \<le> \<bar>n\<bar> \<Longrightarrow>
   py_float (JInt n) = Inl (OverflowError ''int too large to convert to float'')"
proof -
  assume "2 ^ 1024 \<le> \<bar>n\<bar>"
  then have "(of_int (2 ^ 1024) :: rat) \<le> of_int \<bar>n\<bar>" by (simp only: of_int_le_iff)
  then have "(2 ^ 1024 :: rat) \<le> \<bar>of_int n\<bar>" by simp
  then have "nearest_double \<bar>of_int n\<bar> = None" by (rule nearest_double_overflow)
  then show ?thesis by simp
qed

section \<open>Unit conversion: properties\<close>

text \<open>The helpers on text mean what they say.\<close>

lemma py_contains_iff: "py_contains sep s \<longleftrightarrow> (\<exists>a b. s = a @ sep @ b)"
proof (induction s)
  case Nil
  then show ?case by auto
next
  case (Cons c cs)
  show ?case
  proof
    assume "py_contains sep (c # cs)"
    then consider "prefix sep (c # cs)" | "py_contains sep cs" by auto
    then show "\<exists>a b. c # cs = a @ sep @ b"
    proof cases
      case 1
      then obtain b where "c # cs = sep @ b" by (auto simp: prefix_def)
      then have "c # cs = [] @ sep @ b" by simp
      then show ?thesis by blast
    next
      case 2
      with Cons.IH obtain a b where "cs = a @ sep @ b" by blast
      then have "c # cs = (c # a) @ sep @ b" by simp
      then show ?thesis by blast
    qed
  next
    assume "\<exists>a b. c # cs = a @ sep @ b"
    then obtain a b where ab: "c # cs = a @ sep @ b" by blast
    show "py_contains sep (c # cs)"
    proof (cases a)
      case Nil
      with ab have "prefix sep (c # cs)" by (simp add: prefix_def)
      then show ?thesis by simp
    next
      case (Cons x xs)
      with ab have "cs = xs @ sep @ b" by simp
      with Cons.IH have "py_contains sep cs" by blast
      then show ?thesis by simp
    qed
  qed
qed

lemma split_first_is_prefix:
  "py_contains sep s \<Longrightarrow> \<exists>b. s = split_first sep s @ sep @ b"
proof (induction s)
  case Nil
  then show ?case by simp
next
  case (Cons c cs)
  show ?case
  proof (cases "prefix sep (c # cs)")
    case True
    then show ?thesis by (auto simp: prefix_def)
  next
    case False
    with Cons.prems have "py_contains sep cs" by simp
    with Cons.IH obtain b where "cs = split_first sep cs @ sep @ b" by blast
    with False show ?thesis by auto
  qed
qed

lemma py_lower_append: "py_lower (a @ b) = py_lower a @ py_lower b"
  by (simp add: py_lower_def)

text \<open>A value that contains the unit token as it stands also contains it once lowercased.\<close>

lemma contains_unit_lower:
  assumes "py_lower unit = unit" and "py_contains unit s"
  shows "py_contains unit (py_lower s)"
proof -
  from assms(2) obtain a b where "s = a @ unit @ b"
    unfolding py_contains_iff by (elim exE)
  then have "py_lower s = py_lower a @ unit @ py_lower b"
    by (simp add: py_lower_append assms(1))
  then show ?thesis
    unfolding py_contains_iff by (intro exI)
qed

lemma unit_tokens_lower: "py_lower ''oz'' = ''oz''" "py_lower ''lb'' = ''lb''"
  by (simp_all add: text_eval)

lemma split_first_two:
  assumes "x \<noteq> y" and "\<not> py_contains [x, y] a"
  shows "split_first [x, y] (a @ [x, y] @ b) = a"
  using assms(2)
proof (induction a)
  case Nil
  show ?case by simp
next
  case (Cons c a')
  from Cons.prems have np: "\<not> prefix [x, y] (c # a')" and nc: "\<not> py_contains [x, y] a'"
    by simp_all
  have "\<not> prefix [x, y] (c # a' @ [x, y] @ b)"
  proof (cases a')
    case Nil
    with assms(1) show ?thesis by auto
  next
    case (Cons d a'')
    with np show ?thesis by auto
  qed
  then have "split_first [x, y] ((c # a') @ [x, y] @ b) = c # split_first [x, y] (a' @ [x, y] @ b)"
    by simp
  with Cons.IH [OF nc] show ?case by simp
qed

lemma convert_units_not_text:"(\<forall>t. v \<noteq> JStr t) \<Longrightarrow> convert_units key v = v"
  by (cases v) (simp_all add: convert_units_def)

lemma convert_units_ounces:
  assumes "key = ''capacity'' \<or> key = ''volume''"
    and "py_lower s = a @ ''oz'' @ b" and "\<not> py_contains ''oz'' a"
  shows "convert_units key (JStr s) =
     (case py_float_str (py_strip a) of
        None \<Rightarrow> JStr s
      | Some oz \<Rightarrow> JObj [(''value'', JFloat (py_round2 (fl_mult oz (to_float (295735 / 10000))))),
                          (''unit'', JStr ''ml''), (''source'', JStr s)])"
proof -
  have c: "py_contains ''oz'' (py_lower s)"
    unfolding py_contains_iff using assms(2) by (intro exI)
  have p: "split_first ''oz'' (py_lower s) = a"
    unfolding assms(2) using split_first_two [of "CHR ''o''" "CHR ''z''" a b] assms(3) by simp
  from assms(1) c show ?thesis
    by (auto simp: convert_units_def Let_def p split: option.splits)
qed

lemma convert_units_pounds:
  assumes "key = ''weight''"
    and "py_lower s = a @ ''lb'' @ b" and "\<not> py_contains ''lb'' a"
  shows "convert_units key (JStr s) =
     (case py_float_str (py_strip a) of
        None \<Rightarrow> JStr s
      | Some lb \<Rightarrow> JObj [(''value'', JFloat (py_round2 (fl_mult lb (to_float (453592 / 1000000))))),
                          (''unit'', JStr ''kg''), (''source'', JStr s)])"
proof -
  have c: "py_contains ''lb'' (py_lower s)"
    unfolding py_contains_iff using assms(2) by (intro exI)
  have p: "split_first ''lb'' (py_lower s) = a"
    unfolding assms(2) using split_first_two [of "CHR ''l''" "CHR ''b''" a b] assms(3) by simp
  from assms(1) c show ?thesis
    by (simp add: convert_units_def Let_def p split: option.splits)
qed

lemma convert_units_other:
  "\<not> ((key = ''capacity'' \<or> key = ''volume'') \<and> py_contains ''oz'' (py_lower s)) \<Longrightarrow>
   \<not> (key = ''weight'' \<and> py_contains ''lb'' (py_lower s)) \<Longrightarrow>
   convert_units key (JStr s) = JStr s"
  by (auto simp: convert_units_def Let_def)

lemma convert_units_examples:
  "convert_units ''capacity'' (JStr ''20 oz'') =
     JObj [(''value'', JFloat (to_float (59147 / 100))), (''unit'', JStr ''ml''), (''source'', JStr ''20 oz'')]"
  "convert_units ''weight'' (JStr ''10 lb'') =
     JObj [(''value'', JFloat (to_float (454 / 100))), (''unit'', JStr ''kg''), (''source'', JStr ''10 lb'')]"
  "convert_units ''capacity'' (JStr ''abc oz'') = JStr ''abc oz''"
  "convert_units ''color'' (JStr ''red'') = JStr ''red''"
  "convert_units ''capacity'' (JStr ''50 oz'') =
     JObj [(''value'', JFloat (to_float (147867 / 100))), (''unit'', JStr ''ml''), (''source'', JStr ''50 oz'')]"
  "convert_units ''weight'' (JStr ''1875 lb'') =
     JObj [(''value'', JFloat (to_float (85049 / 100))), (''unit'', JStr ''kg''), (''source'', JStr ''1875 lb'')]"
  by (simp_all add: convert_units_def text_eval float_eval)

text \<open>
  C4. Unit conversion is a function of its two arguments that always returns a value
  (the embedding has no state and no error result: the only exception its body can raise,
  the \<^verbatim>\<open>ValueError\<close> of \<^verbatim>\<open>float\<close>, is caught). For a key \<^verbatim>\<open>capacity\<close> or \<^verbatim>\<open>volume\<close> and text
  whose lowercase form contains \<^verbatim>\<open>oz\<close>, with \<open>a\<close> the part before the first \<^verbatim>\<open>oz\<close>: when
  \<^verbatim>\<open>float\<close> reads the number \<open>oz\<close> from \<open>a\<close>, the result is
  \<^verbatim>\<open>{value: round(oz * 29.5735, 2), unit: "ml", source: text}\<close>; for the key \<^verbatim>\<open>weight\<close> and
  \<^verbatim>\<open>lb\<close> likewise \<^verbatim>\<open>{value: round(lb * 0.453592, 2), unit: "kg", source: text}\<close>; a prefix
  that is not numeric returns the text unchanged; every other key and value passes
  through unchanged. The product and the rounding are those of binary64 floats. In
  particular \<^verbatim>\<open>("capacity", "20 oz")\<close> gives 591.47, \<^verbatim>\<open>("weight", "10 lb")\<close> gives 4.54,
  \<^verbatim>\<open>("capacity", "abc oz")\<close> and \<^verbatim>\<open>("color", "red")\<close> come back unchanged; and
  \<^verbatim>\<open>("capacity", "50 oz")\<close> gives 1478.67, \<^verbatim>\<open>("weight", "1875 lb")\<close> gives 850.49, where the
  exact products 1478.675 and 850.485 would round the other way.
\<close>

theorem convert_units_spec:
  "((key = ''capacity'' \<or> key = ''volume'') \<and> py_lower s = a @ ''oz'' @ b
      \<and> \<not> py_contains ''oz'' a \<and> py_float_str (py_strip a) = Some oz \<longrightarrow>
    convert_units key (JStr s) =
      JObj [(''value'', JFloat (py_round2 (fl_mult oz (to_float (295735 / 10000))))),
            (''unit'', JStr ''ml''), (''source'', JStr s)])
   \<and> (key = ''weight'' \<and> py_lower s = a @ ''lb'' @ b
      \<and> \<not> py_contains ''lb'' a \<and> py_float_str (py_strip a) = Some lb \<longrightarrow>
    convert_units key (JStr s) =
      JObj [(''value'', JFloat (py_round2 (fl_mult lb (to_float (453592 / 1000000))))),
            (''unit'', JStr ''kg''), (''source'', JStr s)])
   \<and> ((((key = ''capacity'' \<or> key = ''volume'') \<and> py_lower s = a @ ''oz'' @ b
         \<and> \<not> py_contains ''oz'' a)
        \<or> (key = ''weight'' \<and> py_lower s = a @ ''lb'' @ b \<and> \<not> py_contains ''lb'' a))
       \<and> py_float_str (py_strip a) = None \<longrightarrow>
    convert_units key (JStr s) = JStr s)
   \<and> (\<not> ((key = ''capacity'' \<or> key = ''volume'') \<and> (\<exists>a b. py_lower s = a @ ''oz'' @ b))
       \<and> \<not> (key = ''weight'' \<and> (\<exists>a b. py_lower s = a @ ''lb'' @ b)) \<longrightarrow>
    convert_units key (JStr s) = JStr s)
   \<and> ((\<forall>t. v \<noteq> JStr t) \<longrightarrow> convert_units key v = v)
   \<and> convert_units ''capacity'' (JStr ''20 oz'') =
       JObj [(''value'', JFloat (to_float (59147 / 100))), (''unit'', JStr ''ml''), (''source'', JStr ''20 oz'')]
   \<and> convert_units ''weight'' (JStr ''10 lb'') =
       JObj [(''value'', JFloat (to_float (454 / 100))), (''unit'', JStr ''kg''), (''source'', JStr ''10 lb'')]
   \<and> convert_units ''capacity'' (JStr ''abc oz'') = JStr ''abc oz''
   \<and> convert_units ''color'' (JStr ''red'') = JStr ''red''
   \<and> convert_units ''capacity'' (JStr ''50 oz'') =
       JObj [(''value'', JFloat (to_float (147867 / 100))), (''unit'', JStr ''ml''), (''source'', JStr ''50 oz'')]
   \<and> convert_units ''weight'' (JStr ''1875 lb'') =
       JObj [(''value'', JFloat (to_float (85049 / 100))), (''unit'', JStr ''kg''), (''source'', JStr ''1875 lb'')]"
proof -
  have ounces: "(key = ''capacity'' \<or> key = ''volume'') \<and> py_lower s = a @ ''oz'' @ b
      \<and> \<not> py_contains ''oz'' a \<and> py_float_str (py_strip a) = Some oz \<longrightarrow>
    convert_units key (JStr s) =
      JObj [(''value'', JFloat (py_round2 (fl_mult oz (to_float (295735 / 10000))))),
            (''unit'', JStr ''ml''), (''source'', JStr s)]"
    using convert_units_ounces [of key s a b] by auto
  have pounds: "key = ''weight'' \<and> py_lower s = a @ ''lb'' @ b
      \<and> \<not> py_contains ''lb'' a \<and> py_float_str (py_strip a) = Some lb \<longrightarrow>
    convert_units key (JStr s) =
      JObj [(''value'', JFloat (py_round2 (fl_mult lb (to_float (453592 / 1000000))))),
            (''unit'', JStr ''kg''), (''source'', JStr s)]"
    using convert_units_pounds [of key s a b] by auto
  have unparsed: "(((key = ''capacity'' \<or> key = ''volume'') \<and> py_lower s = a @ ''oz'' @ b
         \<and> \<not> py_contains ''oz'' a)
        \<or> (key = ''weight'' \<and> py_lower s = a @ ''lb'' @ b \<and> \<not> py_contains ''lb'' a))
       \<and> py_float_str (py_strip a) = None \<longrightarrow>
    convert_units key (JStr s) = JStr s"
    using convert_units_ounces [of key s a b] convert_units_pounds [of key s a b] by auto
  have other: "\<not> ((key = ''capacity'' \<or> key = ''volume'') \<and> (\<exists>a b. py_lower s = a @ ''oz'' @ b))
       \<and> \<not> (key = ''weight'' \<and> (\<exists>a b. py_lower s = a @ ''lb'' @ b)) \<longrightarrow>
    convert_units key (JStr s) = JStr s"
    using convert_units_other [of key s] unfolding py_contains_iff by simp
  have not_text: "(\<forall>t. v \<noteq> JStr t) \<longrightarrow> convert_units key v = v"
    using convert_units_not_text [of v key] by simp
  from ounces pounds unparsed other not_text convert_units_examples show ?thesis
    by (intro conjI)
qed

theorem convert_units_spec_witness:
  "py_lower ''12 OZ'' = ''12 '' @ ''oz'' @ '''' \<and> \<not> py_contains ''oz'' ''12 ''
   \<and> py_float_str (py_strip ''12 '') = Some (Fin 12)
   \<and> convert_units ''volume'' (JStr ''12 OZ'') =
       JObj [(''value'', JFloat (to_float (35488 / 100))), (''unit'', JStr ''ml''), (''source'', JStr ''12 OZ'')]
   \<and> py_lower ''2.5 lbs'' = ''2.5 '' @ ''lb'' @ ''s'' \<and> \<not> py_contains ''lb'' ''2.5 ''
   \<and> py_float_str (py_strip ''2.5 '') = Some (Fin (5 / 2))
   \<and> convert_units ''weight'' (JStr ''2.5 lbs'') =
       JObj [(''value'', JFloat (to_float (113 / 100))), (''unit'', JStr ''kg''), (''source'', JStr ''2.5 lbs'')]
   \<and> py_lower ''about 3 oz'' = ''about 3 '' @ ''oz'' @ '''' \<and> \<not> py_contains ''oz'' ''about 3 ''
   \<and> py_float_str (py_strip ''about 3 '') = None
   \<and> convert_units ''capacity'' (JStr ''about 3 oz'') = JStr ''about 3 oz''
   \<and> \<not> (\<exists>a b. py_lower ''12 oz'' = a @ ''lb'' @ b)
   \<and> convert_units ''weight'' (JStr ''12 oz'') = JStr ''12 oz''
   \<and> convert_units ''capacity'' (JInt 20) = JInt 20"
proof -
  have h1: "py_lower ''12 OZ'' = ''12 '' @ ''oz'' @ ''''" "\<not> py_contains ''oz'' ''12 ''"
    by (simp_all add: text_eval)
  have h2: "py_float_str (py_strip ''12 '') = Some (Fin 12)" by (simp add: text_eval float_eval)
  have h3: "py_lower ''2.5 lbs'' = ''2.5 '' @ ''lb'' @ ''s''" "\<not> py_contains ''lb'' ''2.5 ''"
    by (simp_all add: text_eval)
  have h4: "py_float_str (py_strip ''2.5 '') = Some (Fin (5 / 2))" by (simp add: text_eval float_eval)
  have h5: "py_lower ''about 3 oz'' = ''about 3 '' @ ''oz'' @ ''''" "\<not> py_contains ''oz'' ''about 3 ''"
    by (simp_all add: text_eval)
  have h6: "py_float_str (py_strip ''about 3 '') = None" by (simp add: text_eval float_eval)
  have h7: "\<not> (\<exists>a b. py_lower ''12 oz'' = a @ ''lb'' @ b)"
    unfolding py_contains_iff [symmetric] by (simp add: text_eval)
  have r1: "py_round2 (fl_mult (Fin 12) (to_float (295735 / 10000))) = to_float (35488 / 100)"
    by (simp add: float_eval)
  have r2: "py_round2 (fl_mult (Fin (5 / 2)) (to_float (453592 / 1000000))) = to_float (113 / 100)"
    by (simp add: float_eval)
  have c1: "convert_units ''volume'' (JStr ''12 OZ'') =
       JObj [(''value'', JFloat (to_float (35488 / 100))), (''unit'', JStr ''ml''), (''source'', JStr ''12 OZ'')]"
    using convert_units_spec [where key = "''volume''" and s = "''12 OZ''" and a = "''12 ''"
                                and b = "''''" and oz = "Fin 12"] h1 h2
    by (simp only: r1) simp
  have c2: "convert_units ''weight'' (JStr ''2.5 lbs'') =
       JObj [(''value'', JFloat (to_float (113 / 100))), (''unit'', JStr ''kg''), (''source'', JStr ''2.5 lbs'')]"
    using convert_units_spec [where key = "''weight''" and s = "''2.5 lbs''" and a = "''2.5 ''"
                                and b = "''s''" and lb = "Fin (5 / 2)"] h3 h4
    by (simp only: r2) simp
  have c3: "convert_units ''capacity'' (JStr ''about 3 oz'') = JStr ''about 3 oz''"
    using convert_units_spec [where key = "''capacity''" and s = "''about 3 oz''"
                                and a = "''about 3 ''" and b = "''''"] h5 h6
    by simp
  have c4: "convert_units ''weight'' (JStr ''12 oz'') = JStr ''12 oz''"
    using convert_units_spec [where key = "''weight''" and s = "''12 oz''"] h7
    by simp
  have c5: "convert_units ''capacity'' (JInt 20) = JInt 20"
    using convert_units_spec [where key = "''capacity''" and v = "JInt 20"]
    by simp
  from h1 h2 c1 h3 h4 c2 h5 h6 c3 h7 c4 c5 show ?thesis by (intro conjI)
qed

section \<open>Dictionaries\<close>

lemma map_of_dict_set: "map_of (dict_set d k v) k' = (if k' = k then Some v else map_of d k')"
  by (induction d) auto

lemma dict_get_dict_set: "dict_get (dict_set d k v) k = v"
  by (simp add: dict_get_def map_of_dict_set)

lemma dict_has_dict_set: "dict_has (dict_set d k v) k"
  by (simp add: dict_has_def map_of_dict_set)

lemma dict_set_not_empty: "dict_set d k v \<noteq> []"
  by (cases d) (auto split: if_splits)

lemma dict_set_keys: "set (map fst (dict_set d k v)) = insert k (set (map fst d))"
proof (induction d)
  case Nil
  show ?case by simp
next
  case (Cons a d)
  then show ?case by (cases a) (simp add: insert_commute)
qed

lemma dict_set_distinct: "distinct (map fst d) \<Longrightarrow> distinct (map fst (dict_set d k v))"
proof (induction d)
  case Nil
  show ?case by simp
next
  case (Cons a d)
  then show ?case using dict_set_keys [of d k v] by (cases a) auto
qed

section \<open>The extract stage: properties\<close>

lemma fallback_extract_typed:
  assumes "typed_product p"
  shows "\<exists>normalized.
           fallback_extract_attributes p evs =
             (evs @ [WorkflowEvent ''extract'' ''Normalizing attributes'' None], Inr normalized)
           \<and> dict_has normalized ''category''
           \<and> dict_get normalized ''category'' = JStr (lowercased_category p)
           \<and> normalized \<noteq> []"
proof -
  from assms obtain attrs where a: "dict_get_default p ''attributes'' (JObj []) = JObj attrs"
    by (auto simp: typed_product_def absent_or_mapping_def dict_get_default_def
             split: option.splits jvalue.splits)
  from assms have c: "dict_get_default p ''category'' (JStr ''uncategorized'')
                      = JStr (case map_of p ''category'' of Some (JStr c) \<Rightarrow> c | other \<Rightarrow> ''uncategorized'')"
    by (auto simp: typed_product_def absent_or_text_def dict_get_default_def
             split: option.splits jvalue.splits)
  have l: "py_lower (case map_of p ''category'' of Some (JStr c) \<Rightarrow> c | other \<Rightarrow> ''uncategorized'')
           = lowercased_category p"
    by (auto simp: lowercased_category_def text_eval split: option.splits jvalue.splits)
  show ?thesis
    unfolding fallback_extract_attributes_def Let_def a c
    by (simp add: dict_has_dict_set dict_get_dict_set dict_set_not_empty l)
qed

lemma fallback_extract_untyped:
  assumes "\<not> typed_product p"
  shows "\<exists>what. snd (fallback_extract_attributes p evs) = Inl (AttributeError what)"
  using assms
  by (auto simp: fallback_extract_attributes_def typed_product_def absent_or_text_def
                 absent_or_mapping_def dict_get_default_def Let_def
           split: option.splits jvalue.splits)

text \<open>
  C10, as written: for every product the fallback extraction returns a mapping that
  contains \<^verbatim>\<open>category\<close>. A record whose \<^verbatim>\<open>category\<close> is null (the request model of the API
  allows it) or whose \<^verbatim>\<open>attributes\<close> is null makes the extraction raise
  \<^verbatim>\<open>AttributeError\<close>: no mapping is returned.
\<close>

theorem fallback_extract_null_counterexample:
  "fallback_extract_attributes
     [(''sku'', JStr ''S-1''), (''name'', JStr ''Mug''), (''description'', JStr ''''),
      (''category'', JNull), (''price'', JFloat (Fin 5)), (''currency'', JStr ''USD''),
      (''attributes'', JObj [])] []
     = ([WorkflowEvent ''extract'' ''Normalizing attributes'' None], Inl (AttributeError ''lower''))
   \<and> fallback_extract_attributes
       [(''sku'', JStr ''S-1''), (''name'', JStr ''Mug''), (''category'', JStr ''Kitchen''),
        (''attributes'', JNull)] []
     = ([WorkflowEvent ''extract'' ''Normalizing attributes'' None], Inl (AttributeError ''items''))"
  by (simp add: fallback_extract_attributes_def dict_get_default_def)

text \<open>
  C10, amended. For every product whose category is missing or text and whose attributes
  are missing or a mapping, the fallback attribute extraction returns a mapping that
  contains the key \<^verbatim>\<open>category\<close>, set to the lowercased source category, or to
  \<^verbatim>\<open>uncategorized\<close> when the product has none, whatever the raw attributes
  normalize to; so the mapping is never empty. For every other product the extraction
  raises \<^verbatim>\<open>AttributeError\<close>.
\<close>

theorem fallback_extract_category:
  "(typed_product p \<longrightarrow>
     (\<exists>normalized.
        snd (fallback_extract_attributes p evs) = Inr normalized
        \<and> dict_has normalized ''category''
        \<and> dict_get normalized ''category'' =
            JStr (case map_of p ''category'' of Some (JStr c) \<Rightarrow> py_lower c | other \<Rightarrow> ''uncategorized'')
        \<and> normalized \<noteq> []))
   \<and> (\<not> typed_product p \<longrightarrow>
     (\<exists>what. snd (fallback_extract_attributes p evs) = Inl (AttributeError what)))"
proof (cases "typed_product p")
  case True
  then show ?thesis
    using fallback_extract_typed [of p evs] by (auto simp: lowercased_category_def)
next
  case False
  then show ?thesis by (simp add: fallback_extract_untyped)
qed

theorem fallback_extract_category_witness:
  "typed_product [(''name'', JStr ''Mug'')]
   \<and> snd (fallback_extract_attributes [(''name'', JStr ''Mug'')] []) = Inr [(''category'', JStr ''uncategorized'')]
   \<and> typed_product [(''category'', JStr ''Outdoors''),
                      (''attributes'', JObj [(''Category'', JStr ''Gear''), (''Max Weight'', JStr ''10 LB'')])]
   \<and> (\<exists>normalized.
         snd (fallback_extract_attributes
                [(''category'', JStr ''Outdoors''),
                 (''attributes'', JObj [(''Category'', JStr ''Gear''), (''Max Weight'', JStr ''10 LB'')])] [])
           = Inr normalized
         \<and> dict_get normalized ''category'' = JStr ''outdoors'' \<and> normalized \<noteq> [])
   \<and> snd (fallback_extract_attributes
            [(''category'', JStr ''Outdoors''),
             (''attributes'', JObj [(''Category'', JStr ''Gear''), (''Max Weight'', JStr ''10 LB'')])] [])
       = Inr [(''category'', JStr ''outdoors''),
              (''max_weight'', JStr ''10 LB'')]
   \<and> \<not> typed_product [(''name'', JStr ''Mug''), (''category'', JInt 7)]
   \<and> (\<exists>what. snd (fallback_extract_attributes [(''name'', JStr ''Mug''), (''category'', JInt 7)] [])
                = Inl (AttributeError what))"
proof -
  let ?q = "[(''category'', JStr ''Outdoors''),
             (''attributes'', JObj [(''Category'', JStr ''Gear''), (''Max Weight'', JStr ''10 LB'')])]"
  let ?u = "[(''name'', JStr ''Mug''), (''category'', JInt 7)]"
  have t1: "typed_product [(''name'', JStr ''Mug'')]"
    by (simp add: typed_product_def absent_or_text_def absent_or_mapping_def)
  have t2: "typed_product ?q"
    by (simp add: typed_product_def absent_or_text_def absent_or_mapping_def)
  have t3: "\<not> typed_product ?u"
    by (simp add: typed_product_def absent_or_text_def absent_or_mapping_def)
  have e1: "snd (fallback_extract_attributes [(''name'', JStr ''Mug'')] []) = Inr [(''category'', JStr ''uncategorized'')]"
    by (simp add: fallback_extract_attributes_def dict_get_default_def text_eval)
  have e2: "\<exists>normalized.
         snd (fallback_extract_attributes ?q []) = Inr normalized
         \<and> dict_get normalized ''category'' = JStr ''outdoors'' \<and> normalized \<noteq> []"
    using fallback_extract_category [of ?q "[]"] t2 by (auto simp: text_eval)
  have e3: "snd (fallback_extract_attributes ?q [])
       = Inr [(''category'', JStr ''outdoors''),
              (''max_weight'', JStr ''10 LB'')]"
    by (simp add: fallback_extract_attributes_def dict_get_default_def convert_units_def
                  text_eval float_eval)
  have e4: "\<exists>what. snd (fallback_extract_attributes ?u []) = Inl (AttributeError what)"
    using fallback_extract_category [of ?u "[]"] t3 by simp
  from t1 e1 t2 e2 e3 t3 e4 show ?thesis by (intro conjI)
qed

section \<open>The validate stage: properties\<close>

lemma missing_fields_empty_iff:
  "missing_fields p = [] \<longleftrightarrow>
     py_truthy (dict_get p ''sku'') \<and> py_truthy (dict_get p ''name'') \<and> py_truthy (dict_get p ''price'')"
  by (simp add: missing_fields_def required_fields_def)

lemma truthy_get_default:
  "py_truthy (dict_get p k) \<Longrightarrow> dict_get_default p k dflt = dict_get p k"
  by (auto simp: dict_get_def dict_get_default_def split: option.splits)

lemma isfinite_iff: "isfinite f \<longleftrightarrow> f \<noteq> PInf \<and> f \<noteq> NInf \<and> f \<noteq> NaN"
  by (cases f) simp_all

text \<open>What \<^verbatim>\<open>float\<close> does with some prices.\<close>

lemma py_float_examples:
  "py_float (JInt 10) = Inr (Fin 10)"
  "py_float (JInt (2 ^ 53 + 1)) = Inr (Fin (2 ^ 53))"
  "py_float (JInt (- 3)) = Inr (Fin (- 3))"
  "py_float (JBool True) = Inr (Fin 1)"
  "py_float (JStr '' 12.5 '') = Inr (Fin (25 / 2))"
  "py_float (JStr ''1e-400'') = Inr (Fin 0)"
  "py_float (JStr ''-0'') = Inr NZero"
  "py_float (JStr ''1e400'') = Inr PInf"
  "py_float (JStr ''NaN'') = Inr NaN"
  "py_float (JStr ''0.1'') = Inr (Fin (3602879701896397 / 2 ^ 55))"
  "py_float (JStr [CHR 0x1C, CHR ''1'']) = Inl (ValueError ''could not convert string to float'')"
  "py_float (JStr ''abc'') = Inl (ValueError ''could not convert string to float'')"
  "py_float (JList [JInt 1]) = Inl (TypeError ''float() argument must be a string or a real number'')"
  by (simp_all add: text_eval float_eval)

lemma py_float_huge:
  "py_float (JInt (10 ^ 400)) = Inl (OverflowError ''int too large to convert to float'')"
  by (rule py_float_int_overflow) simp

text \<open>
  C9, as written: every product whose \<^verbatim>\<open>sku\<close>, \<^verbatim>\<open>name\<close> and \<^verbatim>\<open>price\<close> are truthy gets a
  pricing. A price that is text but no numeral, or an integer beyond the range of floats,
  is truthy; the stage appends the passed event and then \<^verbatim>\<open>float(price)\<close> raises, so no
  pricing is returned.
\<close>

theorem price_conversion_counterexample:
  "py_truthy (dict_get [(''sku'', JStr ''TEMP-1''), (''name'', JStr ''Test Bottle''), (''price'', JStr ''abc'')] ''sku'')
   \<and> py_truthy (dict_get [(''sku'', JStr ''TEMP-1''), (''name'', JStr ''Test Bottle''), (''price'', JStr ''abc'')] ''name'')
   \<and> py_truthy (dict_get [(''sku'', JStr ''TEMP-1''), (''name'', JStr ''Test Bottle''), (''price'', JStr ''abc'')] ''price'')
   \<and> validate_product [(''sku'', JStr ''TEMP-1''), (''name'', JStr ''Test Bottle''), (''price'', JStr ''abc'')] [] =
       ([WorkflowEvent ''validate'' ''Validation passed'' None],
        Inl (ValueError ''could not convert string to float''))
   \<and> py_truthy (dict_get [(''sku'', JStr ''TEMP-1''), (''name'', JStr ''Test Bottle''), (''price'', JInt (10 ^ 400))] ''price'')
   \<and> validate_product [(''sku'', JStr ''TEMP-1''), (''name'', JStr ''Test Bottle''), (''price'', JInt (10 ^ 400))] [] =
       ([WorkflowEvent ''validate'' ''Validation passed'' None],
        Inl (OverflowError ''int too large to convert to float''))"
proof -
  let ?p = "[(''sku'', JStr ''TEMP-1''), (''name'', JStr ''Test Bottle''), (''price'', JStr ''abc'')]"
  let ?q = "[(''sku'', JStr ''TEMP-1''), (''name'', JStr ''Test Bottle''), (''price'', JInt (10 ^ 400))]"
  have a: "py_truthy (dict_get ?p ''sku'')" "py_truthy (dict_get ?p ''name'')"
    "py_truthy (dict_get ?p ''price'')" "py_truthy (dict_get ?q ''price'')"
    by (simp_all add: dict_get_def)
  have m: "missing_fields ?p = []" "missing_fields ?q = []"
    by (simp_all add: missing_fields_def required_fields_def dict_get_def)
  have p: "dict_get_default ?p ''price'' (JInt 0) = JStr ''abc''"
    "dict_get_default ?q ''price'' (JInt 0) = JInt (10 ^ 400)"
    by (simp_all add: dict_get_default_def)
  have r1: "validate_product ?p [] =
       ([WorkflowEvent ''validate'' ''Validation passed'' None],
        Inl (ValueError ''could not convert string to float''))"
    unfolding validate_product_def Let_def m p py_float_examples by simp
  have r2: "validate_product ?q [] =
       ([WorkflowEvent ''validate'' ''Validation passed'' None],
        Inl (OverflowError ''int too large to convert to float''))"
    unfolding validate_product_def Let_def m p py_float_huge by simp
  from a(1,2,3) r1 a(4) r2 show ?thesis by (intro conjI)
qed

text \<open>
  C9, amended. For every product whose \<^verbatim>\<open>sku\<close>, \<^verbatim>\<open>name\<close> and \<^verbatim>\<open>price\<close> are all truthy, the
  validate stage appends a passed event. When \<^verbatim>\<open>float(price)\<close> is the float \<open>f\<close> it returns
  the pricing \<^verbatim>\<open>{currency, price, in_stock}\<close>: the product's currency (\<^verbatim>\<open>USD\<close> when it has
  none), \<open>f\<close>, and true exactly when \<open>f\<close> is a finite number. When \<^verbatim>\<open>float(price)\<close> raises,
  the stage raises that error after the passed event and returns no pricing.
\<close>

theorem validate_product_pricing:
  "py_truthy (dict_get p ''sku'') \<Longrightarrow> py_truthy (dict_get p ''name'') \<Longrightarrow>
   py_truthy (dict_get p ''price'') \<Longrightarrow>
   validate_product p evs =
     (evs @ [WorkflowEvent ''validate'' ''Validation passed'' None],
      case py_float (dict_get p ''price'') of
        Inr f \<Rightarrow> Inr [(''currency'', dict_get_default p ''currency'' (JStr ''USD'')),
                     (''price'', JFloat f),
                     (''in_stock'', JBool (f \<noteq> PInf \<and> f \<noteq> NInf \<and> f \<noteq> NaN))]
      | Inl e \<Rightarrow> Inl e)"
  by (simp add: validate_product_def missing_fields_empty_iff truthy_get_default isfinite_iff
           split: sum.splits)

theorem validate_product_pricing_witness:
  "py_truthy (dict_get [(''sku'', JStr ''TEMP-1''), (''name'', JStr ''Test Bottle''), (''price'', JInt 10)] ''sku'')
   \<and> py_truthy (dict_get [(''sku'', JStr ''TEMP-1''), (''name'', JStr ''Test Bottle''), (''price'', JInt 10)] ''name'')
   \<and> py_truthy (dict_get [(''sku'', JStr ''TEMP-1''), (''name'', JStr ''Test Bottle''), (''price'', JInt 10)] ''price'')
   \<and> validate_product [(''sku'', JStr ''TEMP-1''), (''name'', JStr ''Test Bottle''), (''price'', JInt 10)] [] =
       ([WorkflowEvent ''validate'' ''Validation passed'' None],
        Inr [(''currency'', JStr ''USD''), (''price'', JFloat (Fin 10)), (''in_stock'', JBool True)])
   \<and> validate_product [(''sku'', JStr ''X''), (''name'', JStr ''Y''), (''price'', JFloat PInf), (''currency'', JStr ''EUR'')] [] =
       ([WorkflowEvent ''validate'' ''Validation passed'' None],
        Inr [(''currency'', JStr ''EUR''), (''price'', JFloat PInf), (''in_stock'', JBool False)])
   \<and> validate_product [(''sku'', JStr ''X''), (''name'', JStr ''Y''), (''price'', JInt (2 ^ 53 + 1))] [] =
       ([WorkflowEvent ''validate'' ''Validation passed'' None],
        Inr [(''currency'', JStr ''USD''), (''price'', JFloat (Fin (2 ^ 53))), (''in_stock'', JBool True)])
   \<and> validate_product [(''sku'', JStr ''X''), (''name'', JStr ''Y''), (''price'', JList [JInt 1])] [] =
       ([WorkflowEvent ''validate'' ''Validation passed'' None],
        Inl (TypeError ''float() argument must be a string or a real number''))"
proof -
  let ?p = "[(''sku'', JStr ''TEMP-1''), (''name'', JStr ''Test Bottle''), (''price'', JInt 10)]"
  let ?q = "[(''sku'', JStr ''X''), (''name'', JStr ''Y''), (''price'', JFloat PInf), (''currency'', JStr ''EUR'')]"
  let ?r = "[(''sku'', JStr ''X''), (''name'', JStr ''Y''), (''price'', JInt (2 ^ 53 + 1))]"
  let ?s = "[(''sku'', JStr ''X''), (''name'', JStr ''Y''), (''price'', JList [JInt 1])]"
  have a: "py_truthy (dict_get ?p ''sku'')" "py_truthy (dict_get ?p ''name'')"
    "py_truthy (dict_get ?p ''price'')"
    by (simp_all add: dict_get_def)
  have b: "dict_get ?p ''price'' = JInt 10" "dict_get_default ?p ''currency'' (JStr ''USD'') = JStr ''USD''"
    by (simp_all add: dict_get_def dict_get_default_def)
  have c: "py_truthy (dict_get ?q ''sku'')" "py_truthy (dict_get ?q ''name'')"
    "py_truthy (dict_get ?q ''price'')"
    by (simp_all add: dict_get_def)
  have d: "dict_get ?q ''price'' = JFloat PInf" "dict_get_default ?q ''currency'' (JStr ''USD'') = JStr ''EUR''"
    by (simp_all add: dict_get_def dict_get_default_def)
  have e: "py_truthy (dict_get ?r ''sku'')" "py_truthy (dict_get ?r ''name'')"
    "py_truthy (dict_get ?r ''price'')"
    by (simp_all add: dict_get_def)
  have f: "dict_get ?r ''price'' = JInt (2 ^ 53 + 1)" "dict_get_default ?r ''currency'' (JStr ''USD'') = JStr ''USD''"
    by (simp_all add: dict_get_def dict_get_default_def)
  have g: "py_truthy (dict_get ?s ''sku'')" "py_truthy (dict_get ?s ''name'')"
    "py_truthy (dict_get ?s ''price'')"
    by (simp_all add: dict_get_def)
  have h: "dict_get ?s ''price'' = JList [JInt 1]"
    by (simp add: dict_get_def)
  have r1: "validate_product ?p [] =
       ([WorkflowEvent ''validate'' ''Validation passed'' None],
        Inr [(''currency'', JStr ''USD''), (''price'', JFloat (Fin 10)), (''in_stock'', JBool True)])"
    using validate_product_pricing [OF a, of "[]"] unfolding b py_float_examples by simp
  have r2: "validate_product ?q [] =
       ([WorkflowEvent ''validate'' ''Validation passed'' None],
        Inr [(''currency'', JStr ''EUR''), (''price'', JFloat PInf), (''in_stock'', JBool False)])"
    using validate_product_pricing [OF c, of "[]"] unfolding d by simp
  have r3: "validate_product ?r [] =
       ([WorkflowEvent ''validate'' ''Validation passed'' None],
        Inr [(''currency'', JStr ''USD''), (''price'', JFloat (Fin (2 ^ 53))), (''in_stock'', JBool True)])"
    using validate_product_pricing [OF e, of "[]"] unfolding f py_float_examples by simp
  have r4: "validate_product ?s [] =
       ([WorkflowEvent ''validate'' ''Validation passed'' None],
        Inl (TypeError ''float() argument must be a string or a real number''))"
    using validate_product_pricing [OF g, of "[]"] unfolding h py_float_examples by simp
  from a r1 r2 r3 r4 show ?thesis by (intro conjI)
qed

section \<open>Both strategies compute the staged run\<close>

lemmas node_defs =
  node_ingest_def node_extract_def node_validate_def node_copywrite_def node_localize_def
  node_publish_def state_events_def on_events_def append_event_def new_list_def
  empty_heap_def empty_state_def state_update_def or_else_def

lemma sequential_staged:
  "\<not> langgraph_available env \<Longrightarrow> enrich_product env p = finish p (staged_run env p)"
  unfolding enrich_product_def run_strategy_def run_sequential_pipeline_def staged_run_def
  by (auto simp: node_defs ingest_event_def publish_event_def dict_item_def dict_get_def
           split: prod.splits sum.splits option.splits)

lemmas graph_defs =
  get_graph_def invoke_def recursion_limit_def StateGraph_def add_node_def add_edge_def
  set_entry_point_def END_def

lemma graph_staged:
  "langgraph_available env \<Longrightarrow> enrich_product env p = finish p (staged_run env p)"
  unfolding enrich_product_def run_strategy_def staged_run_def
  by (auto simp: graph_defs eval_nat_numeral node_defs ingest_event_def publish_event_def
                 dict_item_def dict_get_def
           split: prod.splits sum.splits option.splits)

text \<open>The stage functions do not read the flag that selects the strategy.\<close>

lemma fstr_flag: "fstr (env\<lparr>langgraph_available := b\<rparr>) = fstr env"
  by (rule ext) (simp add: fstr_def split: jvalue.splits)

lemma fallback_seo_copy_flag:
  "fallback_seo_copy (env\<lparr>langgraph_available := b\<rparr>) = fallback_seo_copy env"
  unfolding fallback_seo_copy_def fstr_flag ..

lemma ai_generate_seo_copy_flag:
  "ai_generate_seo_copy (env\<lparr>langgraph_available := b\<rparr>) = ai_generate_seo_copy env"
  unfolding ai_generate_seo_copy_def fallback_seo_copy_flag ..

lemma stage_flag:
  "normalize_attributes (env\<lparr>langgraph_available := b\<rparr>) = normalize_attributes env"
  "build_seo_copy (env\<lparr>langgraph_available := b\<rparr>) = build_seo_copy env"
  "localize_copy (env\<lparr>langgraph_available := b\<rparr>) = localize_copy env"
  unfolding normalize_attributes_def build_seo_copy_def localize_copy_def
            ai_generate_seo_copy_flag fallback_seo_copy_flag
  by simp_all

lemma staged_run_flag: "staged_run (env\<lparr>langgraph_available := b\<rparr>) p = staged_run env p"
  unfolding staged_run_def stage_flag ..

lemma enrich_product_staged: "enrich_product env p = finish p (staged_run env p)"
  using sequential_staged [of env p] graph_staged [of env p] by blast

text \<open>
  C1. For every product record and every fixed state of the text-generation capability
  (absent, or present with its replies fixed), the six stages run through the graph and
  run sequentially end in the same way: either both raise the same exception, or both
  return the same processed product, whose enriched record has the same \<^verbatim>\<open>sku\<close>,
  \<^verbatim>\<open>normalized_attributes\<close>, \<^verbatim>\<open>seo\<close>, \<^verbatim>\<open>localizations\<close> and \<^verbatim>\<open>pricing\<close>; in the model even the
  event logs agree.
\<close>

theorem strategies_agree:
  "enrich_product (env\<lparr>langgraph_available := True\<rparr>) p
   = enrich_product (env\<lparr>langgraph_available := False\<rparr>) p"
proof -
  have "enrich_product (env\<lparr>langgraph_available := True\<rparr>) p = finish p (staged_run env p)"
    using graph_staged [of "env\<lparr>langgraph_available := True\<rparr>" p] by (simp add: staged_run_flag)
  moreover
  have "enrich_product (env\<lparr>langgraph_available := False\<rparr>) p = finish p (staged_run env p)"
    using sequential_staged [of "env\<lparr>langgraph_available := False\<rparr>" p] by (simp add: staged_run_flag)
  ultimately show ?thesis by simp
qed

section \<open>What each stage appends to the event list\<close>

lemma appends_block_one: "appends_block name evs (evs @ [WorkflowEvent name m pl])"
  by (simp add: appends_block_def WorkflowEvent_def)

lemma appends_block_append:
  "appends_block name evs (evs @ new) \<longleftrightarrow> new \<noteq> [] \<and> (\<forall>e\<in>set new. step e = name)"
  by (auto simp: appends_block_def)

lemma appends_block_trans:
  "appends_block name a b \<Longrightarrow> appends_block name b c \<Longrightarrow> appends_block name a c"
  unfolding appends_block_def
proof -
  assume "\<exists>new. b = a @ new \<and> new \<noteq> [] \<and> (\<forall>e\<in>set new. step e = name)"
    and "\<exists>new. c = b @ new \<and> new \<noteq> [] \<and> (\<forall>e\<in>set new. step e = name)"
  then obtain n1 n2 where "b = a @ n1" "n1 \<noteq> []" "\<forall>e\<in>set n1. step e = name"
    "c = b @ n2" "\<forall>e\<in>set n2. step e = name" by blast
  then have "c = a @ (n1 @ n2) \<and> n1 @ n2 \<noteq> [] \<and> (\<forall>e\<in>set (n1 @ n2). step e = name)"
    by auto
  then show "\<exists>new. c = a @ new \<and> new \<noteq> [] \<and> (\<forall>e\<in>set new. step e = name)" by blast
qed

lemma appends_block_more:
  "appends_block name a b \<Longrightarrow> appends_block name a (b @ [WorkflowEvent name m pl])"
  using appends_block_trans [OF _ appends_block_one] by blast

lemma fallback_extract_appends:
  "fallback_extract_attributes p evs = (evs', r) \<Longrightarrow> appends_block ''extract'' evs evs'"
  by (auto simp: fallback_extract_attributes_def Let_def appends_block_one
           split: jvalue.splits)

lemma ai_extract_attempt_appends:
  "ai_extract_attempt p evs cl = (evs', r) \<Longrightarrow>
   evs' = evs \<or> appends_block ''extract'' evs evs'"
  by (auto simp: ai_extract_attempt_def Let_def appends_block_one
           split: ai_reply.splits option.splits jvalue.splits)

lemma ai_extract_appends:
  assumes "ai_extract_attributes p evs cl = (evs', r)"
  shows "appends_block ''extract'' evs evs'"
proof (cases "ai_extract_attempt p evs cl")
  case (Pair evs1 res)
  from ai_extract_attempt_appends [OF Pair]
  have a: "evs1 = evs \<or> appends_block ''extract'' evs evs1" .
  show ?thesis
  proof (cases res)
    case (Inr normalized)
    with Pair assms have "evs' = evs1" by (simp add: ai_extract_attributes_def)
    moreover from Pair Inr have "evs1 \<noteq> evs"
      by (auto simp: ai_extract_attempt_def Let_def split: ai_reply.splits option.splits jvalue.splits)
    ultimately show ?thesis using a by simp
  next
    case (Inl msg)
    let ?ev = "WorkflowEvent ''extract'' (''AI extraction failed: '' @ msg @ '', using fallback'') None"
    from Pair Inl assms have f: "fallback_extract_attributes p (evs1 @ [?ev]) = (evs', r)"
      by (simp add: ai_extract_attributes_def)
    have "appends_block ''extract'' evs (evs1 @ [?ev])"
      using a appends_block_one [of "''extract''" evs] appends_block_more [of "''extract''" evs evs1]
      by auto
    with fallback_extract_appends [OF f] show ?thesis using appends_block_trans by blast
  qed
qed

lemma normalize_attributes_appends:
  assumes "normalize_attributes env p evs = (evs', r)"
  shows "appends_block ''extract'' evs evs'"
proof (cases "openai_client env")
  case None
  with assms have "fallback_extract_attributes p
      ((evs @ [WorkflowEvent ''extract'' ''Extracting attributes with AI'' None])
        @ [WorkflowEvent ''extract'' ''Using fallback attribute extraction'' None]) = (evs', r)"
    by (simp add: normalize_attributes_def)
  from fallback_extract_appends [OF this] show ?thesis
    using appends_block_trans appends_block_more appends_block_one by blast
next
  case (Some cl)
  with assms have "ai_extract_attributes p
      (evs @ [WorkflowEvent ''extract'' ''Extracting attributes with AI'' None]) cl = (evs', r)"
    by (simp add: normalize_attributes_def)
  from ai_extract_appends [OF this] show ?thesis
    using appends_block_trans appends_block_one by blast
qed

lemma validate_product_appends:
  "validate_product p evs = (evs', r) \<Longrightarrow> appends_block ''validate'' evs evs'"
  by (auto simp: validate_product_def Let_def appends_block_one split: if_splits sum.splits)

lemma fallback_seo_copy_appends:
  "fallback_seo_copy env p n evs = (evs', Inr sc) \<Longrightarrow> appends_block ''copywrite'' evs evs'"
  by (auto simp: fallback_seo_copy_def Let_def appends_block_one split: sum.splits jvalue.splits)

lemma build_seo_copy_appends:
  assumes "build_seo_copy env p n evs = (evs', Inr sc)"
  shows "appends_block ''copywrite'' evs evs'"
proof (cases "openai_client env")
  case None
  with assms have "fallback_seo_copy env p n
      (evs @ [WorkflowEvent ''copywrite'' ''Using fallback SEO generation'' None]) = (evs', Inr sc)"
    by (simp add: build_seo_copy_def)
  from fallback_seo_copy_appends [OF this] show ?thesis
    using appends_block_trans appends_block_one by blast
next
  case (Some cl)
  with assms have a: "ai_generate_seo_copy env p n evs cl = (evs', Inr sc)"
    by (simp add: build_seo_copy_def)
  show ?thesis
  proof (cases "cl (SeoRequest p n)")
    case (CallFailed msg)
    with a have "fallback_seo_copy env p n
        (evs @ [WorkflowEvent ''copywrite'' (''AI SEO failed: '' @ msg @ '', using fallback'') None])
        = (evs', Inr sc)"
      by (simp add: ai_generate_seo_copy_def)
    from fallback_seo_copy_appends [OF this] show ?thesis
      using appends_block_trans appends_block_one by blast
  next
    case (Reply content usage)
    show ?thesis
    proof (cases usage)
      case None
      with Reply a have "fallback_seo_copy env p n
          (evs @ [WorkflowEvent ''copywrite'' (''AI SEO failed: '' @ usage_error @ '', using fallback'') None])
          = (evs', Inr sc)"
        by (simp add: ai_generate_seo_copy_def)
      from fallback_seo_copy_appends [OF this] show ?thesis
        using appends_block_trans appends_block_one by blast
    next
      case (Some tokens)
      with Reply a show ?thesis
        by (auto simp: ai_generate_seo_copy_def appends_block_one)
    qed
  qed
qed

lemma localize_locale_appends:
  "localize_locale cl base locale (ls, evs) = (ls', evs') \<Longrightarrow>
   \<exists>e. evs' = evs @ [e] \<and> step e = ''localize''"
  by (auto simp: localize_locale_def Let_def localize_failed_def WorkflowEvent_def
           split: ai_reply.splits option.splits jvalue.splits)

lemma fold_localize_appends:
  "fold (localize_locale cl base) locales (ls, evs) = (ls', evs') \<Longrightarrow> locales \<noteq> [] \<Longrightarrow>
   appends_block ''localize'' evs evs'"
proof (induction locales arbitrary: ls evs)
  case Nil
  then show ?case by simp
next
  case (Cons l rest)
  obtain ls1 evs1 where s: "localize_locale cl base l (ls, evs) = (ls1, evs1)"
    by (cases "localize_locale cl base l (ls, evs)")
  from localize_locale_appends [OF s] obtain e where e: "evs1 = evs @ [e]" "step e = ''localize''"
    by blast
  then have b1: "appends_block ''localize'' evs evs1"
    by (auto simp: appends_block_def)
  from Cons.prems s have f: "fold (localize_locale cl base) rest (ls1, evs1) = (ls', evs')" by simp
  show ?case
  proof (cases rest)
    case Nil
    with f b1 show ?thesis by simp
  next
    case (Cons a list)
    with Cons.IH [OF f] have "appends_block ''localize'' evs1 evs'" by simp
    with b1 show ?thesis by (rule appends_block_trans)
  qed
qed

lemma localize_copy_appends:
  assumes "localize_copy env sc evs = (evs', Inr ls)"
  shows "appends_block ''localize'' evs evs'"
proof (cases "openai_client env")
  case None
  with assms show ?thesis
    by (auto simp: localize_copy_def fallback_localize_copy_def Let_def
                   appends_block_append WorkflowEvent_def
             split: jvalue.splits)
next
  case (Some cl)
  with assms have a: "ai_localize_copy sc evs cl = (evs', Inr ls)"
    by (simp add: localize_copy_def)
  then obtain d where d: "sc = JObj d"
    by (cases sc) (simp_all add: ai_localize_copy_def)
  from a d obtain base l0 where
    "fold (localize_locale cl base) (tl target_locales) (l0, evs) = (ls, evs')"
    by (auto simp: ai_localize_copy_def Let_def split: prod.splits)
  from fold_localize_appends [OF this] show ?thesis
    by (simp add: target_locales_def)
qed

section \<open>Runs on sample data\<close>

lemmas stage_eval =
  staged_run_def ingest_event_def publish_event_def WorkflowEvent_def
  normalize_attributes_def fallback_extract_attributes_def validate_product_def
  missing_fields_def required_fields_def build_seo_copy_def fallback_seo_copy_def
  sorted_pair_def localize_copy_def fallback_localize_copy_def
  dict_get_def dict_get_default_def dict_item_def fstr_def convert_units_def

lemma bottle_run: "enrich_product plain_env bottle = (bottle_log, Inr bottle_processed)"
  by (simp add: enrich_product_staged plain_env_def bottle_def bottle_log_def bottle_processed_def bottle_enriched_def
                stage_eval text_eval float_eval)

section \<open>Order of the steps in the event log\<close>

lemma remdups_adj_block:
  "xs \<noteq> [] \<Longrightarrow> \<forall>x\<in>set xs. x = a \<Longrightarrow> ys = [] \<or> hd ys \<noteq> a \<Longrightarrow>
   remdups_adj (xs @ ys) = a # remdups_adj ys"
proof (induction xs rule: list_nonempty_induct)
  case (single x)
  then show ?case by (cases ys) auto
next
  case (cons x xs)
  then obtain z zs where "xs = z # zs" by (cases xs) auto
  with cons show ?case by auto
qed

lemma hd_block: "xs \<noteq> [] \<Longrightarrow> \<forall>x\<in>set xs. x = a \<Longrightarrow> hd (xs @ ys) = a"
  by (cases xs) auto

lemma staged_run_steps:
  assumes "staged_run env p = (evs, Inr en)"
  shows "\<exists>s2 s3 s4 s5.
           map step evs = [''ingest''] @ s2 @ s3 @ s4 @ s5 @ [''publish'']
           \<and> s2 \<noteq> [] \<and> (\<forall>x\<in>set s2. x = ''extract'')
           \<and> s3 \<noteq> [] \<and> (\<forall>x\<in>set s3. x = ''validate'')
           \<and> s4 \<noteq> [] \<and> (\<forall>x\<in>set s4. x = ''copywrite'')
           \<and> s5 \<noteq> [] \<and> (\<forall>x\<in>set s5. x = ''localize'')"
proof -
  from assms obtain evs2 normalized evs3 pr evs4 sc evs5 ls sku where
    st: "normalize_attributes env p [ingest_event p] = (evs2, Inr normalized)"
        "validate_product p evs2 = (evs3, Inr pr)"
        "build_seo_copy env p normalized evs3 = (evs4, Inr sc)"
        "localize_copy env sc evs4 = (evs5, Inr ls)"
        "evs = evs5 @ [publish_event sku]"
    by (auto simp: staged_run_def split: prod.splits sum.splits)
  from normalize_attributes_appends [OF st(1)] validate_product_appends [OF st(2)]
       build_seo_copy_appends [OF st(3)] localize_copy_appends [OF st(4)]
  obtain n2 n3 n4 n5 where
    n: "evs2 = [ingest_event p] @ n2" "n2 \<noteq> []" "\<forall>e\<in>set n2. step e = ''extract''"
       "evs3 = evs2 @ n3" "n3 \<noteq> []" "\<forall>e\<in>set n3. step e = ''validate''"
       "evs4 = evs3 @ n4" "n4 \<noteq> []" "\<forall>e\<in>set n4. step e = ''copywrite''"
       "evs5 = evs4 @ n5" "n5 \<noteq> []" "\<forall>e\<in>set n5. step e = ''localize''"
    unfolding appends_block_def by blast
  have "map step evs = [''ingest''] @ map step n2 @ map step n3 @ map step n4 @ map step n5 @ [''publish'']"
    using st(5) n by (simp add: ingest_event_def publish_event_def WorkflowEvent_def)
  moreover have "map step n2 \<noteq> []" "map step n3 \<noteq> []" "map step n4 \<noteq> []" "map step n5 \<noteq> []"
    using n by simp_all
  moreover have "\<forall>x\<in>set (map step n2). x = ''extract''" "\<forall>x\<in>set (map step n3). x = ''validate''"
    "\<forall>x\<in>set (map step n4). x = ''copywrite''" "\<forall>x\<in>set (map step n5). x = ''localize''"
    using n by auto
  ultimately show ?thesis by blast
qed

lemma staged_run_remdups:
  assumes "staged_run env p = (evs, Inr en)"
  shows "remdups_adj (map step evs) = WORKFLOW_STEPS"
proof -
  from staged_run_steps [OF assms] obtain s2 s3 s4 s5 where
    m: "map step evs = [''ingest''] @ s2 @ s3 @ s4 @ s5 @ [''publish'']"
    and b: "s2 \<noteq> []" "\<forall>x\<in>set s2. x = ''extract''" "s3 \<noteq> []" "\<forall>x\<in>set s3. x = ''validate''"
       "s4 \<noteq> []" "\<forall>x\<in>set s4. x = ''copywrite''" "s5 \<noteq> []" "\<forall>x\<in>set s5. x = ''localize''"
    by (elim exE conjE)
  let ?t5 = "s5 @ [''publish'']"
  let ?t4 = "s4 @ ?t5"
  let ?t3 = "s3 @ ?t4"
  let ?t2 = "s2 @ ?t3"
  have h5: "hd ?t5 = ''localize''" by (rule hd_block [OF b(7,8)])
  have h4: "hd ?t4 = ''copywrite''" by (rule hd_block [OF b(5,6)])
  have h3: "hd ?t3 = ''validate''" by (rule hd_block [OF b(3,4)])
  have h2: "hd ?t2 = ''extract''" by (rule hd_block [OF b(1,2)])
  have r5: "remdups_adj ?t5 = ''localize'' # remdups_adj [''publish'']"
    by (rule remdups_adj_block [OF b(7,8)]) simp
  have r4: "remdups_adj ?t4 = ''copywrite'' # remdups_adj ?t5"
    by (rule remdups_adj_block [OF b(5,6)], rule disjI2, unfold h5, simp)
  have r3: "remdups_adj ?t3 = ''validate'' # remdups_adj ?t4"
    by (rule remdups_adj_block [OF b(3,4)], rule disjI2, unfold h4, simp)
  have r2: "remdups_adj ?t2 = ''extract'' # remdups_adj ?t3"
    by (rule remdups_adj_block [OF b(1,2)], rule disjI2, unfold h3, simp)
  have r1: "remdups_adj ([''ingest''] @ ?t2) = ''ingest'' # remdups_adj ?t2"
    by (rule remdups_adj_block, simp, simp, rule disjI2, unfold h2, simp)
  have "remdups_adj (map step evs) = remdups_adj ([''ingest''] @ ?t2)"
    by (simp only: m)
  also have "\<dots> = [''ingest'', ''extract'', ''validate'', ''copywrite'', ''localize'', ''publish'']"
    by (simp only: r1 r2 r3 r4 r5 remdups_adj.simps)
  finally show ?thesis by (simp only: WORKFLOW_STEPS_def)
qed

lemma staged_run_canonical:
  assumes "staged_run env p = (evs, Inr en)"
  shows "canonical_steps evs = map step evs"
proof -
  from staged_run_steps [OF assms] obtain s2 s3 s4 s5 where
    m: "map step evs = [''ingest''] @ s2 @ s3 @ s4 @ s5 @ [''publish'']"
    and b: "\<forall>x\<in>set s2. x = ''extract''" "\<forall>x\<in>set s3. x = ''validate''"
       "\<forall>x\<in>set s4. x = ''copywrite''" "\<forall>x\<in>set s5. x = ''localize''"
    by (elim exE conjE)
  then have "\<forall>x\<in>set (map step evs). x \<in> set WORKFLOW_STEPS"
    by (auto simp: WORKFLOW_STEPS_def)
  then show ?thesis
    unfolding canonical_steps_def by (simp add: filter_id_conv)
qed

lemma finish_Inr:
  "finish p r = (evs, Inr pp) \<Longrightarrow> \<exists>en. r = (evs, Inr en) \<and> pp_enriched pp = en \<and> pp_events pp = evs"
  by (cases r; cases "snd r") auto

text \<open>
  C6, as written: the step sequence of a successful run, restricted to the six canonical
  steps, is a subsequence of the six steps. It is not: every stage but ingest, validate
  and publish logs more than one event, so steps repeat. The run of the test product
  succeeds and logs ten events.
\<close>

theorem step_subsequence_counterexample:
  "enrich_product plain_env bottle = (bottle_log, Inr bottle_processed)
   \<and> canonical_steps bottle_log
       = [''ingest'', ''extract'', ''extract'', ''extract'', ''validate'',
          ''copywrite'', ''copywrite'', ''localize'', ''localize'', ''publish'']
   \<and> \<not> subseq (canonical_steps bottle_log) WORKFLOW_STEPS"
proof -
  have c: "canonical_steps bottle_log
       = [''ingest'', ''extract'', ''extract'', ''extract'', ''validate'',
          ''copywrite'', ''copywrite'', ''localize'', ''localize'', ''publish'']"
    by (simp add: bottle_log_def canonical_steps_def WORKFLOW_STEPS_def)
  have "\<not> subseq [''ingest'', ''extract'', ''extract'', ''extract'', ''validate'',
          ''copywrite'', ''copywrite'', ''localize'', ''localize'', ''publish''] WORKFLOW_STEPS"
    by (rule not_subseq_length) (simp add: WORKFLOW_STEPS_def)
  with c bottle_run show ?thesis by simp
qed

text \<open>
  C6, amended. For every successful pipeline run, the step sequence of the event log
  consists of canonical steps only and, once runs of the same step are collapsed to one
  occurrence, is the sequence of the six canonical steps, hence a subsequence of it:
  steps repeat, but never appear out of order.
\<close>

theorem step_order:
  "enrich_product env p = (evs, Inr pp) \<Longrightarrow>
   canonical_steps evs = map step evs
   \<and> remdups_adj (canonical_steps evs) = WORKFLOW_STEPS
   \<and> subseq (remdups_adj (canonical_steps evs)) WORKFLOW_STEPS"
proof -
  assume "enrich_product env p = (evs, Inr pp)"
  then have "finish p (staged_run env p) = (evs, Inr pp)" by (simp add: enrich_product_staged)
  from finish_Inr [OF this] obtain en where s: "staged_run env p = (evs, Inr en)" by blast
  from staged_run_canonical [OF s] staged_run_remdups [OF s] show ?thesis by simp
qed

theorem step_order_witness:
  "enrich_product plain_env bottle = (bottle_log, Inr bottle_processed)
   \<and> remdups_adj (canonical_steps bottle_log)
       = [''ingest'', ''extract'', ''validate'', ''copywrite'', ''localize'', ''publish'']
   \<and> subseq (remdups_adj (canonical_steps bottle_log)) WORKFLOW_STEPS"
proof -
  from step_order [OF bottle_run]
  have "remdups_adj (canonical_steps bottle_log) = WORKFLOW_STEPS"
    and "subseq (remdups_adj (canonical_steps bottle_log)) WORKFLOW_STEPS" by blast+
  with bottle_run show ?thesis unfolding WORKFLOW_STEPS_def by blast
qed

section \<open>Validation failures\<close>

lemma fallback_extract_ok:
  assumes "typed_product p"
  shows "\<exists>evs' normalized. fallback_extract_attributes p evs = (evs', Inr normalized)"
proof -
  from fallback_extract_typed [OF assms, of evs] obtain normalized where
    "fallback_extract_attributes p evs =
       (evs @ [WorkflowEvent ''extract'' ''Normalizing attributes'' None], Inr normalized)"
    by (elim exE conjE)
  then show ?thesis by (intro exI)
qed

lemma ai_extract_typed:
  assumes "typed_product p"
  shows "\<exists>evs' normalized. ai_extract_attributes p evs cl = (evs', Inr normalized)"
proof (cases "ai_extract_attempt p evs cl")
  case (Pair evs1 res)
  show ?thesis
  proof (cases res)
    case (Inr normalized)
    with Pair show ?thesis by (simp add: ai_extract_attributes_def)
  next
    case (Inl msg)
    with Pair show ?thesis
      unfolding ai_extract_attributes_def by (simp add: fallback_extract_ok [OF assms])
  qed
qed

lemma normalize_attributes_typed:
  assumes "typed_product p"
  shows "\<exists>evs' normalized. normalize_attributes env p evs = (evs', Inr normalized)"
proof (cases "openai_client env")
  case None
  then show ?thesis
    unfolding normalize_attributes_def by (simp add: fallback_extract_ok [OF assms])
next
  case (Some cl)
  then show ?thesis
    unfolding normalize_attributes_def by (simp add: ai_extract_typed [OF assms])
qed

lemma validate_product_missing:
  "missing_fields p \<noteq> [] \<Longrightarrow>
   validate_product p evs =
     (evs @ [WorkflowEvent ''validate'' (''Missing required fields: '' @ py_join '', '' (missing_fields p))
               (Some [(''status'', JStr ''error'')])],
      Inl (ValueError (''Missing required fields: '' @ py_join '', '' (missing_fields p))))"
  by (simp add: validate_product_def Let_def)

text \<open>
  C2, as written: every product with a missing required field ends in the validation
  error, the log ending at step \<^verbatim>\<open>validate\<close>. The record built for a request with an empty
  name and a null category has missing fields, yet its run ends one stage earlier: the
  extract stage raises \<^verbatim>\<open>AttributeError\<close> on the category, and the log ends at step
  \<^verbatim>\<open>extract\<close>.
\<close>

theorem null_category_counterexample:
  "\<not> py_truthy (dict_get blank_request ''name'')
   \<and> enrich_product plain_env blank_request =
       ([\<lparr>step = ''ingest'', message = ''Loaded product'', payload = Some [(''sku'', JStr ''TEMP-9'')]\<rparr>,
         \<lparr>step = ''extract'', message = ''Extracting attributes with AI'', payload = None\<rparr>,
         \<lparr>step = ''extract'', message = ''Using fallback attribute extraction'', payload = None\<rparr>,
         \<lparr>step = ''extract'', message = ''Normalizing attributes'', payload = None\<rparr>],
        Inl (AttributeError ''lower''))
   \<and> step (last (fst (enrich_product plain_env blank_request))) = ''extract''
   \<and> step (last (fst (enrich_product plain_env blank_request))) \<noteq> ''validate''"
proof -
  have r: "enrich_product plain_env blank_request =
       ([\<lparr>step = ''ingest'', message = ''Loaded product'', payload = Some [(''sku'', JStr ''TEMP-9'')]\<rparr>,
         \<lparr>step = ''extract'', message = ''Extracting attributes with AI'', payload = None\<rparr>,
         \<lparr>step = ''extract'', message = ''Using fallback attribute extraction'', payload = None\<rparr>,
         \<lparr>step = ''extract'', message = ''Normalizing attributes'', payload = None\<rparr>],
        Inl (AttributeError ''lower''))"
    by (simp add: enrich_product_staged plain_env_def blank_request_def stage_eval)
  have n: "\<not> py_truthy (dict_get blank_request ''name'')"
    by (simp add: blank_request_def dict_get_def)
  have s: "step (last (fst (enrich_product plain_env blank_request))) = ''extract''"
    unfolding r by simp
  from n r s show ?thesis by simp
qed

text \<open>
  C2, amended. For every product whose category is missing or text and whose attributes
  are missing or a mapping, in which any of the fields \<^verbatim>\<open>sku\<close>, \<^verbatim>\<open>name\<close>, \<^verbatim>\<open>price\<close> is absent
  or falsy, the pipeline (under either strategy and any state of the capability) raises
  the validation error, a \<^verbatim>\<open>ValueError\<close> whose message lists the missing field names, and
  so produces no enriched output; when it raises, the event log ends with an entry whose
  step is \<^verbatim>\<open>validate\<close> and whose payload is \<^verbatim>\<open>{"status": "error"}\<close>.
\<close>

theorem missing_field_aborts:
  "typed_product p \<Longrightarrow>
   \<not> py_truthy (dict_get p ''sku'') \<or> \<not> py_truthy (dict_get p ''name'')
     \<or> \<not> py_truthy (dict_get p ''price'') \<Longrightarrow>
   \<exists>evs. enrich_product env p =
           (evs, Inl (ValueError (''Missing required fields: '' @ py_join '', '' (missing_fields p))))
         \<and> missing_fields p \<noteq> [] \<and> set (missing_fields p) \<subseteq> {''sku'', ''name'', ''price''}
         \<and> evs \<noteq> [] \<and> step (last evs) = ''validate''
         \<and> payload (last evs) = Some [(''status'', JStr ''error'')]"
proof -
  assume t: "typed_product p"
    and f: "\<not> py_truthy (dict_get p ''sku'') \<or> \<not> py_truthy (dict_get p ''name'')
            \<or> \<not> py_truthy (dict_get p ''price'')"
  from f have m: "missing_fields p \<noteq> []" by (simp add: missing_fields_empty_iff)
  have s: "set (missing_fields p) \<subseteq> {''sku'', ''name'', ''price''}"
    by (auto simp: missing_fields_def required_fields_def)
  from normalize_attributes_typed [OF t, of env "[ingest_event p]"] obtain evs2 normalized where
    n: "normalize_attributes env p [ingest_event p] = (evs2, Inr normalized)"
    by (elim exE)
  let ?msg = "''Missing required fields: '' @ py_join '', '' (missing_fields p)"
  let ?evs = "evs2 @ [WorkflowEvent ''validate'' ?msg (Some [(''status'', JStr ''error'')])]"
  have "staged_run env p = (?evs, Inl (ValueError ?msg))"
    by (simp add: staged_run_def n validate_product_missing [OF m])
  then have "enrich_product env p = (?evs, Inl (ValueError ?msg))"
    by (simp add: enrich_product_staged)
  moreover have "?evs \<noteq> []" "step (last ?evs) = ''validate''"
    "payload (last ?evs) = Some [(''status'', JStr ''error'')]"
    by (simp_all add: WorkflowEvent_def)
  ultimately show ?thesis using m s by (intro exI [of _ ?evs] conjI)
qed

theorem missing_field_aborts_witness:
  "typed_product [(''sku'', JStr ''TEMP-3''), (''price'', JInt 0), (''category'', JStr ''Test'')]
   \<and> \<not> py_truthy (dict_get [(''sku'', JStr ''TEMP-3''), (''price'', JInt 0), (''category'', JStr ''Test'')] ''name'')
   \<and> (\<exists>evs. enrich_product plain_env [(''sku'', JStr ''TEMP-3''), (''price'', JInt 0), (''category'', JStr ''Test'')]
               = (evs, Inl (ValueError ''Missing required fields: name, price''))
            \<and> evs \<noteq> [] \<and> step (last evs) = ''validate''
            \<and> payload (last evs) = Some [(''status'', JStr ''error'')])"
proof -
  let ?p = "[(''sku'', JStr ''TEMP-3''), (''price'', JInt 0), (''category'', JStr ''Test'')]"
  have t: "typed_product ?p"
    by (simp add: typed_product_def absent_or_text_def absent_or_mapping_def)
  have f: "\<not> py_truthy (dict_get ?p ''name'')" by (simp add: dict_get_def)
  then have f': "\<not> py_truthy (dict_get ?p ''sku'') \<or> \<not> py_truthy (dict_get ?p ''name'')
                \<or> \<not> py_truthy (dict_get ?p ''price'')" by simp
  have e: "missing_fields ?p = [''name'', ''price'']"
    by (simp add: missing_fields_def required_fields_def dict_get_def)
  have j: "''Missing required fields: '' @ py_join '', '' [''name'', ''price'']
           = ''Missing required fields: name, price''"
    by simp
  have "\<exists>evs. enrich_product plain_env ?p
               = (evs, Inl (ValueError (''Missing required fields: '' @ py_join '', '' [''name'', ''price''])))
            \<and> evs \<noteq> [] \<and> step (last evs) = ''validate''
            \<and> payload (last evs) = Some [(''status'', JStr ''error'')]"
    using missing_field_aborts [OF t f', of plain_env] unfolding e
    by (elim exE conjE, intro exI conjI)
  then have "\<exists>evs. enrich_product plain_env ?p = (evs, Inl (ValueError ''Missing required fields: name, price''))
            \<and> evs \<noteq> [] \<and> step (last evs) = ''validate''
            \<and> payload (last evs) = Some [(''status'', JStr ''error'')]"
    by (simp only: j)
  with t f show ?thesis by (intro conjI)
qed

section \<open>The copywrite stage: properties\<close>

lemma py_strip_id:
  "s \<noteq> [] \<Longrightarrow> \<not> is_space (hd s) \<Longrightarrow> \<not> is_space (last s) \<Longrightarrow> py_strip s = s"
proof -
  assume a: "s \<noteq> []" "\<not> is_space (hd s)" "\<not> is_space (last s)"
  then have "dropWhile is_space s = s" by (cases s) auto
  moreover from a have "\<not> is_space (hd (rev s))" by (simp add: hd_rev)
  then have "dropWhile is_space (rev s) = rev s" using a by (cases "rev s") auto
  ultimately show ?thesis by (simp add: py_strip_def)
qed

lemma sorted_pair_set: "sorted_pair a b = sorted_list_of_set {a, b}"
proof -
  have "sorted_list_of_set (set [a, b]) = sort (remdups [a, b])"
    by (rule sorted_list_of_set_sort_remdups)
  then show ?thesis by (simp add: sorted_pair_def insert_commute)
qed

lemma fallback_seo_copy_typed:
  assumes n: "map_of p ''name'' = Some (JStr n)"
    and c: "absent_or_text p ''category''"
  shows "fallback_seo_copy env p normalized evs =
           (evs @ [WorkflowEvent ''copywrite'' ''Generated SEO copy'' None],
            Inr (JObj [(''title'', JStr (py_strip (spec_title n (text_of p ''category'')))),
                       (''description'',
                        JStr (''Buy '' @ n @ '' featuring ''
                              @ (case normalized of
                                   (k, JStr s) # rest \<Rightarrow> s
                                 | other \<Rightarrow> fstr env (dict_get_default p ''description'' (JStr '''')))
                              @ ''.'')),
                       (''keywords'',
                        JList (map JStr (filter (\<lambda>kw. kw \<noteq> [])
                                           (sorted_list_of_set {text_of p ''category'', n}))))]))"
proof -
  from c have cat: "dict_get_default p ''category'' (JStr '''') = JStr (text_of p ''category'')"
    by (auto simp: absent_or_text_def dict_get_default_def text_of_def
             split: option.splits jvalue.splits)
  have feat: "(case (case normalized of [] \<Rightarrow> dict_get_default p ''description'' (JStr '''')
                     | (k, v) # rest \<Rightarrow> v) of
                 JStr s \<Rightarrow> s
               | _ \<Rightarrow> fstr env (dict_get_default p ''description'' (JStr '''')))
              = (case normalized of
                   (k, JStr s) # rest \<Rightarrow> s
                 | other \<Rightarrow> fstr env (dict_get_default p ''description'' (JStr '''')))"
    by (auto simp: fstr_def split: list.splits jvalue.splits)
  show ?thesis
    unfolding fallback_seo_copy_def Let_def cat feat
    by (simp add: n dict_item_def dict_get_default_def fstr_def spec_title_def
                  py_strip_id [where s = "CHR ''B'' # xs" for xs] is_space_def sorted_pair_set)
qed


lemma build_seo_copy_fallback:
  assumes "openai_client env = None
           \<or> (\<exists>cl. openai_client env = Some cl \<and> seo_call_fails cl p normalized)"
  shows "\<exists>evs1. build_seo_copy env p normalized evs = fallback_seo_copy env p normalized evs1"
proof (cases "openai_client env")
  case None
  then show ?thesis by (auto simp: build_seo_copy_def)
next
  case (Some cl)
  with assms have "seo_call_fails cl p normalized" by simp
  with Some show ?thesis
    by (cases "cl (SeoRequest p normalized)")
       (auto simp: build_seo_copy_def ai_generate_seo_copy_def seo_call_fails_def
             split: option.splits)
qed

text \<open>
  C7, as written: the fallback title is \<^verbatim>\<open>"{name} | {Category title-cased}"\<close>. The code strips
  the formatted title, so for a product without a category the title is \<^verbatim>\<open>"Bottle |"\<close>, not
  \<^verbatim>\<open>"Bottle | "\<close>.
\<close>

theorem seo_title_counterexample:
  "openai_client plain_env = None
   \<and> snd (build_seo_copy plain_env uncategorized_bottle [(''category'', JStr ''uncategorized'')] [])
       = Inr (JObj [(''title'', JStr ''Bottle |''),
                    (''description'', JStr ''Buy Bottle featuring uncategorized.''),
                    (''keywords'', JList [JStr ''Bottle''])])
   \<and> spec_title ''Bottle'' (text_of uncategorized_bottle ''category'') = ''Bottle | ''
   \<and> ''Bottle |'' \<noteq> spec_title ''Bottle'' (text_of uncategorized_bottle ''category'')"
  by (simp add: plain_env_def uncategorized_bottle_def build_seo_copy_def fallback_seo_copy_def
                sorted_pair_def dict_item_def dict_get_default_def fstr_def spec_title_def
                text_of_def text_eval)

text \<open>
  C7, amended. For every product whose name is text and whose category is text or
  missing, when the text-generation capability is absent or its call fails, the
  copywrite stage returns \<^verbatim>\<open>seo\<close> with the title \<^verbatim>\<open>"{name} | {Category title-cased}"\<close> stripped of
  surrounding whitespace, the description \<^verbatim>\<open>"Buy {name} featuring {x}."\<close> where \<open>x\<close> is the
  first normalized attribute value when that is text and the raw description otherwise,
  and as keywords the sorted, de-duplicated, non-empty members of \<open>{category, name}\<close>. In
  particular, for the name \<^verbatim>\<open>Bottle\<close> and the category \<^verbatim>\<open>Outdoors\<close> the title starts with
  \<^verbatim>\<open>"Bottle | "\<close>.
\<close>

theorem fallback_seo_copy_spec:
  "map_of p ''name'' = Some (JStr n) \<Longrightarrow> absent_or_text p ''category'' \<Longrightarrow>
   openai_client env = None \<or> (\<exists>cl. openai_client env = Some cl \<and> seo_call_fails cl p normalized) \<Longrightarrow>
   snd (build_seo_copy env p normalized evs) =
     Inr (JObj [(''title'', JStr (py_strip (spec_title n (text_of p ''category'')))),
                (''description'',
                 JStr (''Buy '' @ n @ '' featuring ''
                       @ (case normalized of
                            (k, JStr s) # rest \<Rightarrow> s
                          | other \<Rightarrow> fstr env (dict_get_default p ''description'' (JStr '''')))
                       @ ''.'')),
                (''keywords'',
                 JList (map JStr (filter (\<lambda>kw. kw \<noteq> [])
                                    (sorted_list_of_set {text_of p ''category'', n}))))])
   \<and> (n = ''Bottle'' \<and> text_of p ''category'' = ''Outdoors'' \<longrightarrow>
        prefix ''Bottle | '' (py_strip (spec_title n (text_of p ''category''))))"
proof -
  assume n: "map_of p ''name'' = Some (JStr n)" and c: "absent_or_text p ''category''"
    and f: "openai_client env = None
            \<or> (\<exists>cl. openai_client env = Some cl \<and> seo_call_fails cl p normalized)"
  from build_seo_copy_fallback [OF f, of evs] obtain evs1 where
    "build_seo_copy env p normalized evs = fallback_seo_copy env p normalized evs1"
    by (elim exE)
  then have r: "snd (build_seo_copy env p normalized evs) =
     Inr (JObj [(''title'', JStr (py_strip (spec_title n (text_of p ''category'')))),
                (''description'',
                 JStr (''Buy '' @ n @ '' featuring ''
                       @ (case normalized of
                            (k, JStr s) # rest \<Rightarrow> s
                          | other \<Rightarrow> fstr env (dict_get_default p ''description'' (JStr '''')))
                       @ ''.'')),
                (''keywords'',
                 JList (map JStr (filter (\<lambda>kw. kw \<noteq> [])
                                    (sorted_list_of_set {text_of p ''category'', n}))))])"
    by (simp only: fallback_seo_copy_typed [OF n c] snd_conv)
  have b: "py_strip (spec_title ''Bottle'' ''Outdoors'') = ''Bottle | Outdoors''"
    by (simp add: spec_title_def text_eval)
  have "n = ''Bottle'' \<and> text_of p ''category'' = ''Outdoors'' \<longrightarrow>
        prefix ''Bottle | '' (py_strip (spec_title n (text_of p ''category'')))"
    by (auto simp: b)
  with r show ?thesis by (intro conjI)
qed


theorem fallback_seo_copy_spec_witness:
  "map_of bottle ''name'' = Some (JStr ''Bottle'') \<and> absent_or_text bottle ''category''
   \<and> openai_client plain_env = None
   \<and> snd (build_seo_copy plain_env bottle
             [(''capacity'', JObj [(''value'', JFloat (to_float (59147 / 100))), (''unit'', JStr ''ml''),
                                   (''source'', JStr ''20 oz'')]),
              (''category'', JStr ''outdoors'')] [])
       = Inr (JObj [(''title'', JStr ''Bottle | Outdoors''),
                    (''description'', JStr ''Buy Bottle featuring .''),
                    (''keywords'', JList [JStr ''Bottle'', JStr ''Outdoors''])])
   \<and> prefix ''Bottle | '' ''Bottle | Outdoors''
   \<and> (\<exists>cl. openai_client failing_env = Some cl
             \<and> seo_call_fails cl bottle [(''category'', JStr ''outdoors'')])
   \<and> snd (build_seo_copy failing_env bottle [(''category'', JStr ''outdoors'')] [])
       = Inr (JObj [(''title'', JStr ''Bottle | Outdoors''),
                    (''description'', JStr ''Buy Bottle featuring outdoors.''),
                    (''keywords'', JList [JStr ''Bottle'', JStr ''Outdoors''])])"
proof -
  let ?n1 = "[(''capacity'', JObj [(''value'', JFloat (to_float (59147 / 100))), (''unit'', JStr ''ml''),
                                   (''source'', JStr ''20 oz'')]),
              (''category'', JStr ''outdoors'')]"
  let ?n2 = "[(''category'', JStr ''outdoors'')]"
  have n: "map_of bottle ''name'' = Some (JStr ''Bottle'')" by (simp add: bottle_def)
  have c: "absent_or_text bottle ''category''" by (simp add: bottle_def absent_or_text_def)
  have a1: "openai_client plain_env = None" by (simp add: plain_env_def)
  have a2: "\<exists>cl. openai_client failing_env = Some cl \<and> seo_call_fails cl bottle ?n2"
    by (simp add: failing_env_def seo_call_fails_def)
  have t: "text_of bottle ''category'' = ''Outdoors''" by (simp add: bottle_def text_of_def)
  have s: "py_strip (spec_title ''Bottle'' ''Outdoors'') = ''Bottle | Outdoors''"
    by (simp add: spec_title_def text_eval)
  have k: "sorted_list_of_set {''Outdoors'', ''Bottle''} = [''Bottle'', ''Outdoors'']"
    by (simp add: sorted_pair_set [symmetric] sorted_pair_def)
  have d: "dict_get_default bottle ''description'' (JStr '''') = JStr ''''"
    by (simp add: bottle_def dict_get_default_def)
  have r1: "snd (build_seo_copy plain_env bottle ?n1 [])
       = Inr (JObj [(''title'', JStr ''Bottle | Outdoors''),
                    (''description'', JStr ''Buy Bottle featuring .''),
                    (''keywords'', JList [JStr ''Bottle'', JStr ''Outdoors''])])"
    using fallback_seo_copy_spec [OF n c, of plain_env ?n1 "[]"] a1
    by (simp add: t s k d fstr_def)
  have p1: "prefix ''Bottle | '' ''Bottle | Outdoors''"
    using fallback_seo_copy_spec [OF n c, of plain_env ?n1 "[]"] a1
    by (simp add: t s)
  have r2: "snd (build_seo_copy failing_env bottle ?n2 [])
       = Inr (JObj [(''title'', JStr ''Bottle | Outdoors''),
                    (''description'', JStr ''Buy Bottle featuring outdoors.''),
                    (''keywords'', JList [JStr ''Bottle'', JStr ''Outdoors''])])"
    using fallback_seo_copy_spec [OF n c, of failing_env ?n2 "[]"] a2
    by (simp add: t s k)
  from n c a1 r1 p1 a2 r2 show ?thesis by (intro conjI)
qed

section \<open>The localize stage: properties\<close>

lemma localize_locale_extends:
  "localize_locale cl base locale (ls, evs) = (ls', evs') \<Longrightarrow> \<exists>more. ls' = ls @ more"
  by (auto simp: localize_locale_def Let_def split: ai_reply.splits option.splits jvalue.splits)

lemma fold_localize_extends:
  "fold (localize_locale cl base) locales (ls, evs) = (ls', evs') \<Longrightarrow> \<exists>more. ls' = ls @ more"
proof (induction locales arbitrary: ls evs)
  case Nil
  then show ?case by simp
next
  case (Cons l rest)
  obtain ls1 evs1 where s: "localize_locale cl base l (ls, evs) = (ls1, evs1)"
    by (cases "localize_locale cl base l (ls, evs)")
  from localize_locale_extends [OF s] obtain m1 where m1: "ls1 = ls @ m1" by (elim exE)
  from Cons.prems s have "fold (localize_locale cl base) rest (ls1, evs1) = (ls', evs')" by simp
  from Cons.IH [OF this] obtain m2 where "ls' = ls1 @ m2" by (elim exE)
  with m1 have "ls' = ls @ (m1 @ m2)" by simp
  then show ?case by (rule exI)
qed

lemma ai_localize_copy_head:
  "\<exists>more. snd (ai_localize_copy (JObj sc) evs cl) =
     Inr (JObj [(''locale'', JStr ''en-US''),
                (''title'', dict_get_default sc ''title'' (JStr '''')),
                (''description'', dict_get_default sc ''description'' (JStr '''')),
                (''long_description'', dict_get_default sc ''long_description'' (JStr ''''))] # more)"
proof -
  let ?base = "[(''title'', dict_get_default sc ''title'' (JStr '''')),
                (''description'', dict_get_default sc ''description'' (JStr '''')),
                (''long_description'', dict_get_default sc ''long_description'' (JStr ''''))]"
  let ?en = "JObj [(''locale'', JStr ''en-US''),
                (''title'', dict_get_default sc ''title'' (JStr '''')),
                (''description'', dict_get_default sc ''description'' (JStr '''')),
                (''long_description'', dict_get_default sc ''long_description'' (JStr ''''))]"
  obtain ls' evs' where f: "fold (localize_locale cl ?base) (tl target_locales) ([?en], evs) = (ls', evs')"
    by (cases "fold (localize_locale cl ?base) (tl target_locales) ([?en], evs)")
  from fold_localize_extends [OF f] obtain more where "ls' = [?en] @ more" by (elim exE)
  then have "ls' = ?en # more" by simp
  moreover have "snd (ai_localize_copy (JObj sc) evs cl) = Inr ls'"
    using f by (simp add: ai_localize_copy_def Let_def dict_get_def dict_get_default_def)
  ultimately have "snd (ai_localize_copy (JObj sc) evs cl) = Inr (?en # more)" by simp
  then show ?thesis by (rule exI)
qed

lemma fallback_seo_copy_shape:
  "fallback_seo_copy env p n evs = (evs1, Inr seo_copy) \<Longrightarrow>
   \<exists>t d ks. seo_copy = JObj [(''title'', t), (''description'', d), (''keywords'', ks)]"
  by (auto simp: fallback_seo_copy_def Let_def split: sum.splits jvalue.splits)

lemma build_seo_copy_shape:
  assumes "openai_client env = None" and "build_seo_copy env p n evs = (evs1, Inr seo_copy)"
  shows "\<exists>t d ks. seo_copy = JObj [(''title'', t), (''description'', d), (''keywords'', ks)]"
proof -
  from assms have "fallback_seo_copy env p n
      (evs @ [WorkflowEvent ''copywrite'' ''Using fallback SEO generation'' None]) = (evs1, Inr seo_copy)"
    by (simp add: build_seo_copy_def)
  then show ?thesis by (rule fallback_seo_copy_shape)
qed

text \<open>
  C8, as written: the localize stage always includes an en-US entry. When the capability
  answers the request for SEO copy with JSON that is not an object, the copywrite stage
  passes it on as the seo result and the localize stage raises \<^verbatim>\<open>AttributeError\<close> on it:
  the run ends without any localization.
\<close>

theorem non_mapping_seo_counterexample:
  "build_seo_copy list_env bottle [(''category'', JStr ''outdoors'')] [] =
     ([\<lparr>step = ''copywrite'', message = ''AI generated SEO copy'',
        payload = Some [(''token_usage'', JInt 7)]\<rparr>], Inr (JList []))
   \<and> localize_copy list_env (JList []) [] = ([], Inl (AttributeError ''get''))
   \<and> enrich_product list_env bottle =
       ([\<lparr>step = ''ingest'', message = ''Loaded product'', payload = Some [(''sku'', JStr ''TEMP-2'')]\<rparr>,
         \<lparr>step = ''extract'', message = ''Extracting attributes with AI'', payload = None\<rparr>,
         \<lparr>step = ''extract'', message = ''AI extracted product attributes'',
          payload = Some [(''token_usage'', JInt 7)]\<rparr>,
         \<lparr>step = ''extract'',
          message = ''AI extraction failed: list indices must be integers or slices, not str, using fallback'',
          payload = None\<rparr>,
         \<lparr>step = ''extract'', message = ''Normalizing attributes'', payload = None\<rparr>,
         \<lparr>step = ''validate'', message = ''Validation passed'', payload = None\<rparr>,
         \<lparr>step = ''copywrite'', message = ''AI generated SEO copy'',
          payload = Some [(''token_usage'', JInt 7)]\<rparr>],
        Inl (AttributeError ''get''))"
proof -
  have a: "build_seo_copy list_env bottle [(''category'', JStr ''outdoors'')] [] =
     ([\<lparr>step = ''copywrite'', message = ''AI generated SEO copy'',
        payload = Some [(''token_usage'', JInt 7)]\<rparr>], Inr (JList []))"
    by (simp add: build_seo_copy_def ai_generate_seo_copy_def list_env_def WorkflowEvent_def)
  have b: "localize_copy list_env (JList []) [] = ([], Inl (AttributeError ''get''))"
    by (simp add: localize_copy_def ai_localize_copy_def list_env_def)
  have c: "enrich_product list_env bottle =
       ([\<lparr>step = ''ingest'', message = ''Loaded product'', payload = Some [(''sku'', JStr ''TEMP-2'')]\<rparr>,
         \<lparr>step = ''extract'', message = ''Extracting attributes with AI'', payload = None\<rparr>,
         \<lparr>step = ''extract'', message = ''AI extracted product attributes'',
          payload = Some [(''token_usage'', JInt 7)]\<rparr>,
         \<lparr>step = ''extract'',
          message = ''AI extraction failed: list indices must be integers or slices, not str, using fallback'',
          payload = None\<rparr>,
         \<lparr>step = ''extract'', message = ''Normalizing attributes'', payload = None\<rparr>,
         \<lparr>step = ''validate'', message = ''Validation passed'', payload = None\<rparr>,
         \<lparr>step = ''copywrite'', message = ''AI generated SEO copy'',
          payload = Some [(''token_usage'', JInt 7)]\<rparr>],
        Inl (AttributeError ''get''))"
    by (simp add: enrich_product_staged list_env_def bottle_def stage_eval text_eval float_eval
                  ai_extract_attributes_def ai_extract_attempt_def ai_generate_seo_copy_def
                  ai_localize_copy_def)
  from a b c show ?thesis by (intro conjI)
qed

text \<open>
  C8, amended. Let the seo result be the one that the copywrite stage returns under the
  same state of the capability. When it is a mapping, the localize stage returns a
  sequence whose first entry has the locale \<^verbatim>\<open>en-US\<close> and the title and description of the
  seo result (empty text for a missing one). With the capability present the entry also
  carries \<^verbatim>\<open>long_description\<close>, copied from the seo result (empty text when it has none).
  With the capability absent the seo result has no \<^verbatim>\<open>long_description\<close>, the entry has
  none either, and the sequence consists of only that entry. When the seo result is not
  a mapping the localize stage raises \<^verbatim>\<open>AttributeError\<close>.
\<close>

theorem localize_copy_base_entry:
  "build_seo_copy env p normalized evs = (evs1, Inr seo_copy) \<Longrightarrow>
   (case seo_copy of
      JObj sc \<Rightarrow>
        (\<exists>entry more.
           snd (localize_copy env seo_copy evs2) = Inr (JObj entry # more)
           \<and> dict_get entry ''locale'' = JStr ''en-US''
           \<and> dict_get entry ''title'' = dict_get_default sc ''title'' (JStr '''')
           \<and> dict_get entry ''description'' = dict_get_default sc ''description'' (JStr '''')
           \<and> (openai_client env \<noteq> None \<longrightarrow>
                dict_get entry ''long_description'' = dict_get_default sc ''long_description'' (JStr ''''))
           \<and> (openai_client env = None \<longrightarrow>
                more = [] \<and> \<not> dict_has sc ''long_description''
                \<and> \<not> dict_has entry ''long_description''))
    | other \<Rightarrow> snd (localize_copy env seo_copy evs2) = Inl (AttributeError ''get''))"
proof (cases "openai_client env")
  case None
  assume b: "build_seo_copy env p normalized evs = (evs1, Inr seo_copy)"
  from build_seo_copy_shape [OF None b] obtain t d ks where
    s: "seo_copy = JObj [(''title'', t), (''description'', d), (''keywords'', ks)]"
    by (elim exE)
  let ?entry = "[(''locale'', JStr ''en-US''), (''title'', t), (''description'', d)]"
  have "snd (localize_copy env seo_copy evs2) = Inr (JObj ?entry # [])"
    by (simp add: s None localize_copy_def fallback_localize_copy_def dict_get_default_def)
  then show ?thesis
    unfolding s using None
    by (simp add: dict_get_def dict_get_default_def dict_has_def)
next
  case (Some cl)
  then have l: "localize_copy env x evs2 = ai_localize_copy x evs2 cl" for x
    by (simp add: localize_copy_def)
  show ?thesis
  proof (cases "\<exists>sc. seo_copy = JObj sc")
    case True
    then obtain sc where s: "seo_copy = JObj sc" by (elim exE)
    let ?entry = "[(''locale'', JStr ''en-US''),
                   (''title'', dict_get_default sc ''title'' (JStr '''')),
                   (''description'', dict_get_default sc ''description'' (JStr '''')),
                   (''long_description'', dict_get_default sc ''long_description'' (JStr ''''))]"
    from ai_localize_copy_head [of sc evs2 cl] obtain more where
      "snd (ai_localize_copy (JObj sc) evs2 cl) = Inr (JObj ?entry # more)"
      by (elim exE)
    then have "snd (localize_copy env seo_copy evs2) = Inr (JObj ?entry # more)
           \<and> dict_get ?entry ''locale'' = JStr ''en-US''
           \<and> dict_get ?entry ''title'' = dict_get_default sc ''title'' (JStr '''')
           \<and> dict_get ?entry ''description'' = dict_get_default sc ''description'' (JStr '''')
           \<and> (openai_client env \<noteq> None \<longrightarrow>
                dict_get ?entry ''long_description'' = dict_get_default sc ''long_description'' (JStr ''''))
           \<and> (openai_client env = None \<longrightarrow>
                more = [] \<and> \<not> dict_has sc ''long_description''
                \<and> \<not> dict_has ?entry ''long_description'')"
      using Some by (simp add: l s dict_get_def)
    then show ?thesis unfolding s jvalue.case by (intro exI)
  next
    case False
    then show ?thesis
      by (cases seo_copy) (simp_all add: l ai_localize_copy_def)
  qed
qed

theorem localize_copy_base_entry_witness:
  "build_seo_copy plain_env bottle [(''category'', JStr ''outdoors'')] [] =
     ([\<lparr>step = ''copywrite'', message = ''Using fallback SEO generation'', payload = None\<rparr>,
       \<lparr>step = ''copywrite'', message = ''Generated SEO copy'', payload = None\<rparr>],
      Inr (JObj [(''title'', JStr ''Bottle | Outdoors''),
                 (''description'', JStr ''Buy Bottle featuring outdoors.''),
                 (''keywords'', JList [JStr ''Bottle'', JStr ''Outdoors''])]))
   \<and> (\<exists>entry.
         snd (localize_copy plain_env
                (JObj [(''title'', JStr ''Bottle | Outdoors''),
                       (''description'', JStr ''Buy Bottle featuring outdoors.''),
                       (''keywords'', JList [JStr ''Bottle'', JStr ''Outdoors''])]) []) = Inr [JObj entry]
         \<and> dict_get entry ''locale'' = JStr ''en-US''
         \<and> dict_get entry ''title'' = JStr ''Bottle | Outdoors''
         \<and> dict_get entry ''description'' = JStr ''Buy Bottle featuring outdoors.''
         \<and> \<not> dict_has entry ''long_description'')
   \<and> build_seo_copy copy_env bottle [(''category'', JStr ''outdoors'')] [] =
       ([\<lparr>step = ''copywrite'', message = ''AI generated SEO copy'',
          payload = Some [(''token_usage'', JInt 7)]\<rparr>],
        Inr (JObj [(''title'', JStr ''T''), (''description'', JStr ''D''),
                   (''long_description'', JStr ''L'')]))
   \<and> (\<exists>entry more.
         snd (localize_copy copy_env
                (JObj [(''title'', JStr ''T''), (''description'', JStr ''D''),
                       (''long_description'', JStr ''L'')]) []) = Inr (JObj entry # more)
         \<and> dict_get entry ''locale'' = JStr ''en-US''
         \<and> dict_get entry ''title'' = JStr ''T''
         \<and> dict_get entry ''description'' = JStr ''D''
         \<and> dict_get entry ''long_description'' = JStr ''L'')
   \<and> build_seo_copy list_env bottle [(''category'', JStr ''outdoors'')] [] =
       ([\<lparr>step = ''copywrite'', message = ''AI generated SEO copy'',
          payload = Some [(''token_usage'', JInt 7)]\<rparr>], Inr (JList []))
   \<and> snd (localize_copy list_env (JList []) []) = Inl (AttributeError ''get'')"
proof -
  let ?n = "[(''category'', JStr ''outdoors'')]"
  let ?s1 = "JObj [(''title'', JStr ''Bottle | Outdoors''),
                   (''description'', JStr ''Buy Bottle featuring outdoors.''),
                   (''keywords'', JList [JStr ''Bottle'', JStr ''Outdoors''])]"
  let ?s2 = "JObj [(''title'', JStr ''T''), (''description'', JStr ''D''),
                   (''long_description'', JStr ''L'')]"
  have o: "openai_client plain_env = None" "openai_client copy_env \<noteq> None"
    by (simp_all add: plain_env_def copy_env_def)
  have b1: "build_seo_copy plain_env bottle ?n [] =
     ([\<lparr>step = ''copywrite'', message = ''Using fallback SEO generation'', payload = None\<rparr>,
       \<lparr>step = ''copywrite'', message = ''Generated SEO copy'', payload = None\<rparr>], Inr ?s1)"
    by (simp add: plain_env_def bottle_def stage_eval text_eval)
  have b2: "build_seo_copy copy_env bottle ?n [] =
       ([\<lparr>step = ''copywrite'', message = ''AI generated SEO copy'',
          payload = Some [(''token_usage'', JInt 7)]\<rparr>], Inr ?s2)"
    by (simp add: build_seo_copy_def ai_generate_seo_copy_def copy_env_def WorkflowEvent_def)
  have b3: "build_seo_copy list_env bottle ?n [] =
       ([\<lparr>step = ''copywrite'', message = ''AI generated SEO copy'',
          payload = Some [(''token_usage'', JInt 7)]\<rparr>], Inr (JList []))"
    by (simp add: build_seo_copy_def ai_generate_seo_copy_def list_env_def WorkflowEvent_def)
  have r1: "\<exists>entry.
         snd (localize_copy plain_env ?s1 []) = Inr [JObj entry]
         \<and> dict_get entry ''locale'' = JStr ''en-US''
         \<and> dict_get entry ''title'' = JStr ''Bottle | Outdoors''
         \<and> dict_get entry ''description'' = JStr ''Buy Bottle featuring outdoors.''
         \<and> \<not> dict_has entry ''long_description''"
    using localize_copy_base_entry [OF b1, of "[]"] o(1)
    by (auto simp: dict_get_default_def)
  have r2: "\<exists>entry more.
         snd (localize_copy copy_env ?s2 []) = Inr (JObj entry # more)
         \<and> dict_get entry ''locale'' = JStr ''en-US''
         \<and> dict_get entry ''title'' = JStr ''T''
         \<and> dict_get entry ''description'' = JStr ''D''
         \<and> dict_get entry ''long_description'' = JStr ''L''"
    using localize_copy_base_entry [OF b2, of "[]"] o(2)
    by (auto simp: dict_get_default_def)
  have r3: "snd (localize_copy list_env (JList []) []) = Inl (AttributeError ''get'')"
    using localize_copy_base_entry [OF b3, of "[]"] by simp
  from b1 r1 b2 r2 b3 r3 show ?thesis by (intro conjI)
qed

section \<open>Batch processing: properties\<close>

lemma record_skus_ok:
  "hashable_dicts records \<Longrightarrow> record_skus records = Inr (map sku_key (dicts_of records))"
  by (induction records rule: record_skus.induct) (simp_all add: hashable_dicts_def sku_key_def)

lemma record_skus_hashable: "record_skus records = Inr ks \<Longrightarrow> hashable_dicts records"
  by (induction records arbitrary: ks rule: record_skus.induct)
     (auto simp: hashable_dicts_def split: if_splits sum.splits)

lemma record_skus_iff:
  "record_skus records = Inr ks \<longleftrightarrow> hashable_dicts records \<and> ks = map sku_key (dicts_of records)"
  using record_skus_ok [of records] record_skus_hashable [of records ks] by auto

lemma pending_of_ok:
  "hashable_dicts records \<Longrightarrow>
   pending_of ex records = Inr (filter (\<lambda>d. sku_key d \<notin> set ex) (dicts_of records))"
  by (induction ex records rule: pending_of.induct) (simp_all add: hashable_dicts_def sku_key_def)

lemma pending_of_hashable: "pending_of ex records = Inr ps \<Longrightarrow> hashable_dicts records"
  by (induction ex records arbitrary: ps rule: pending_of.induct)
     (auto simp: hashable_dicts_def split: if_splits sum.splits)

lemma pending_of_iff:
  "pending_of ex records = Inr ps \<longleftrightarrow>
     hashable_dicts records \<and> ps = filter (\<lambda>d. sku_key d \<notin> set ex) (dicts_of records)"
  using pending_of_ok [of records ex] pending_of_hashable [of ex records ps] by auto



lemma dicts_of_hashable:
  "hashable_dicts records \<Longrightarrow> d \<in> set (dicts_of records) \<Longrightarrow> hashable (dict_get d ''sku'')"
proof (induction records rule: dicts_of.induct)
  case 1
  then show ?case by simp
qed (auto simp: hashable_dicts_def)


lemma enrich_all_set:
  "pp \<in> set (enrich_all env ps) \<longleftrightarrow> (\<exists>p\<in>set ps. \<exists>evs. enrich_product env p = (evs, Inr pp))"
proof (induction ps)
  case Nil
  show ?case by simp
next
  case (Cons p ps)
  show ?case
  proof (cases "enrich_product env p")
    case (Pair evs res)
    with Cons show ?thesis by (cases res) auto
  qed
qed


lemma enrich_all_filter:
  "enrich_all env ps = map (\<lambda>p. projr (snd (enrich_product env p))) (filter (succeeds env) ps)"
proof (induction ps)
  case Nil
  show ?case by simp
next
  case (Cons p ps)
  show ?case
  proof (cases "enrich_product env p")
    case (Pair evs res)
    with Cons show ?thesis by (cases res) (auto simp: succeeds_def)
  qed
qed


lemma enrich_product_output:
  assumes "enrich_product env p = (evs, Inr pp)"
  shows "dict_get (pp_enriched pp) ''sku'' = dict_get p ''sku''"
    and "py_truthy (dict_get p ''sku'')"
    and "pp_original pp = p" and "pp_events pp = evs" and "pp_sku pp = dict_get p ''sku''"
proof -
  from assms have f: "finish p (staged_run env p) = (evs, Inr pp)"
    by (simp add: enrich_product_staged)
  from finish_Inr [OF f] obtain en where
    s: "staged_run env p = (evs, Inr en)" and e: "pp_enriched pp = en" and "pp_events pp = evs"
    by (elim exE conjE)
  then show "pp_events pp = evs" by simp
  from f s show "pp_original pp = p" "pp_sku pp = dict_get p ''sku''" by auto
  from s obtain evs2 evs3 pr where v: "validate_product p evs2 = (evs3, Inr pr)"
    by (auto simp: staged_run_def split: prod.splits sum.splits)
  then have "missing_fields p = []"
    by (auto simp: validate_product_def Let_def split: if_splits)
  then show "py_truthy (dict_get p ''sku'')" by (simp add: missing_fields_empty_iff)
  from s obtain sku rest where "dict_item p ''sku'' = Inr sku" "en = (''sku'', sku) # rest"
    by (auto simp: staged_run_def split: prod.splits sum.splits)
  then show "dict_get (pp_enriched pp) ''sku'' = dict_get p ''sku''"
    using e by (auto simp: dict_item_def dict_get_def split: option.splits)
qed

lemma py_key_null: "py_key v = JNull \<longleftrightarrow> v = JNull"
  by (cases v rule: py_key.cases) (auto split: if_splits)

lemma initial_seen_ok:
  "\<forall>r\<in>set existing. hashable (dict_get r key) \<Longrightarrow>
   \<exists>seen. initial_seen key existing = Inr seen
          \<and> set seen = (\<lambda>r. py_key (dict_get r key)) ` {r \<in> set existing. dict_has r key}"
proof (induction existing)
  case Nil
  show ?case by simp
next
  case (Cons r rs)
  then obtain seen where
    s: "initial_seen key rs = Inr seen"
       "set seen = (\<lambda>r. py_key (dict_get r key)) ` {r \<in> set rs. dict_has r key}"
    by auto
  from Cons.prems have h: "hashable (dict_get r key)" by simp
  show ?case
  proof (cases "dict_has r key")
    case True
    with s h have "initial_seen key (r # rs) = Inr (py_key (dict_get r key) # seen)" by simp
    moreover from True s have
      "set (py_key (dict_get r key) # seen)
         = (\<lambda>r. py_key (dict_get r key)) ` {x \<in> set (r # rs). dict_has x key}"
      by auto
    ultimately show ?thesis by (intro exI conjI)
  next
    case False
    with s have "initial_seen key (r # rs) = Inr seen" by simp
    moreover from False s have
      "set seen = (\<lambda>r. py_key (dict_get r key)) ` {x \<in> set (r # rs). dict_has x key}"
      by auto
    ultimately show ?thesis by (intro exI conjI)
  qed
qed

lemma append_new_ok:
  "\<forall>r\<in>set new. dict_get r key \<noteq> JNull \<and> hashable (dict_get r key) \<Longrightarrow>
   \<exists>added. append_new key new seen appended = Inr (appended @ added)
          \<and> distinct (map (\<lambda>r. py_key (dict_get r key)) added)
          \<and> set (map (\<lambda>r. py_key (dict_get r key)) added)
              = (\<lambda>r. py_key (dict_get r key)) ` set new - set seen"
proof (induction new arbitrary: seen appended)
  case Nil
  show ?case by simp
next
  case (Cons r rs)
  let ?kf = "\<lambda>r. py_key (dict_get r key)"
  from Cons.prems have r: "dict_get r key \<noteq> JNull" "hashable (dict_get r key)"
    and rs: "\<forall>r\<in>set rs. dict_get r key \<noteq> JNull \<and> hashable (dict_get r key)" by simp_all
  show ?case
  proof (cases "?kf r \<in> set seen")
    case True
    from Cons.IH [OF rs, of seen appended] obtain added where
      a: "append_new key rs seen appended = Inr (appended @ added)"
         "distinct (map ?kf added)" "set (map ?kf added) = ?kf ` set rs - set seen"
      by (elim exE conjE)
    from True r a(1) have "append_new key (r # rs) seen appended = Inr (appended @ added)"
      by (simp add: Let_def)
    moreover from True a(3) have "set (map ?kf added) = ?kf ` set (r # rs) - set seen" by auto
    ultimately show ?thesis using a(2) by (intro exI conjI)
  next
    case False
    from Cons.IH [OF rs, of "?kf r # seen" "appended @ [r]"] obtain added where
      a: "append_new key rs (?kf r # seen) (appended @ [r]) = Inr ((appended @ [r]) @ added)"
         "distinct (map ?kf added)" "set (map ?kf added) = ?kf ` set rs - set (?kf r # seen)"
      by (elim exE conjE)
    from False r a(1) have "append_new key (r # rs) seen appended = Inr (appended @ (r # added))"
      by (simp add: Let_def)
    moreover from a(2,3) have "distinct (map ?kf (r # added))" by auto
    moreover from False a(3) have "set (map ?kf (r # added)) = ?kf ` set (r # rs) - set seen" by auto
    ultimately show ?thesis by (intro exI conjI)
  qed
qed

lemma pending_records_Inr:
  assumes "pending_records fs sp ep = Inr pending"
  obtains simple old where
    "load_json_array fs sp = Inr simple" "load_json_array fs ep = Inr old"
    "hashable_dicts simple" "hashable_dicts old"
    "record_skus old = Inr (map sku_key (dicts_of old))"
    "pending_of (map sku_key (dicts_of old)) simple = Inr pending"
    "pending = filter (\<lambda>d. sku_key d \<notin> set (map sku_key (dicts_of old))) (dicts_of simple)"
proof -
  from assms obtain simple old ks where
    l: "load_json_array fs sp = Inr simple" "load_json_array fs ep = Inr old"
       "record_skus old = Inr ks" "pending_of ks simple = Inr pending"
    by (auto simp: pending_records_def split: sum.splits)
  from l(3) have k: "hashable_dicts old" "ks = map sku_key (dicts_of old)"
    by (simp_all add: record_skus_iff)
  from l(4) have p: "hashable_dicts simple"
    "pending = filter (\<lambda>d. sku_key d \<notin> set ks) (dicts_of simple)"
    by (simp_all add: pending_of_iff)
  from l k p that show thesis by simp
qed

lemma new_records_keys:
  assumes "hashable_dicts simple"
    and "set pending \<subseteq> set (dicts_of simple)"
    and "r \<in> set (map pp_enriched (enrich_all env pending))"
  shows "dict_get r ''sku'' \<noteq> JNull \<and> hashable (dict_get r ''sku'')
         \<and> (\<exists>p\<in>set pending. succeeds env p \<and> sku_key r = sku_key p)"
proof -
  from assms(3) obtain pp where pp: "pp \<in> set (enrich_all env pending)" "r = pp_enriched pp"
    by auto
  then obtain p evs where p: "p \<in> set pending" "enrich_product env p = (evs, Inr pp)"
    by (auto simp: enrich_all_set)
  from enrich_product_output(1,2) [OF p(2)] pp(2)
  have g: "dict_get r ''sku'' = dict_get p ''sku''" "py_truthy (dict_get p ''sku'')" by simp_all
  from g(2) have "dict_get p ''sku'' \<noteq> JNull" by auto
  moreover from p(1) assms(1,2) have "hashable (dict_get p ''sku'')"
    using dicts_of_hashable by blast
  moreover from p(2) have "succeeds env p" by (simp add: succeeds_def)
  ultimately show ?thesis using g(1) p(1) by (auto simp: sku_key_def)
qed


text \<open>What a run over all pending records does to the catalogs and returns.\<close>

lemma batch_all:
  assumes pend: "pending_records fs sp ep = Inr pending"
    and old: "load_json_array fs ep = Inr old"
  shows "\<exists>added.
           process_pending_products env fs sp ep True =
             (if enrich_all env pending = [] then fs
              else write_json_array ep (dicts_of old @ added) fs,
              Inr (enrich_all env pending))
           \<and> distinct (map sku_key added)
           \<and> set (map sku_key added) = sku_key ` set (map pp_enriched (enrich_all env pending))
           \<and> set (map sku_key added) \<inter> set (map sku_key (dicts_of old)) = {}"
proof -
  from pend obtain simple old' where
    l: "load_json_array fs sp = Inr simple" "load_json_array fs ep = Inr old'"
       "hashable_dicts simple" "hashable_dicts old'"
       "record_skus old' = Inr (map sku_key (dicts_of old'))"
       "pending_of (map sku_key (dicts_of old')) simple = Inr pending"
       "pending = filter (\<lambda>d. sku_key d \<notin> set (map sku_key (dicts_of old'))) (dicts_of simple)"
    by (rule pending_records_Inr)
  from l(2) old have [simp]: "old' = old" by simp
  let ?new = "map pp_enriched (enrich_all env pending)"
  let ?kf = "\<lambda>r. py_key (dict_get r ''sku'')"
  have kf: "?kf = sku_key" by (simp add: sku_key_def fun_eq_iff)
  from l(7) have sub: "set pending \<subseteq> set (dicts_of simple)" by auto
  have newk: "\<forall>r\<in>set ?new. dict_get r ''sku'' \<noteq> JNull \<and> hashable (dict_get r ''sku'')"
    using new_records_keys [OF l(3) sub] by blast
  have fresh: "sku_key ` set ?new \<inter> set (map sku_key (dicts_of old)) = {}"
  proof -
    { fix r assume "r \<in> set ?new"
      from new_records_keys [OF l(3) sub this] obtain p where
        "p \<in> set pending" "sku_key r = sku_key p" by auto
      with l(7) have "sku_key r \<notin> set (map sku_key (dicts_of old))" by simp }
    then show ?thesis by auto
  qed
  have "\<forall>r\<in>set (dicts_of old). hashable (dict_get r ''sku'')"
    using l(4) dicts_of_hashable by auto
  from initial_seen_ok [OF this] obtain seen where
    seen: "initial_seen ''sku'' (dicts_of old) = Inr seen"
      "set seen = ?kf ` {r \<in> set (dicts_of old). dict_has r ''sku''}"
    by (elim exE conjE)
  from seen(2) have seen_sub: "set seen \<subseteq> set (map sku_key (dicts_of old))"
    by (auto simp: sku_key_def)
  from append_new_ok [OF newk, of seen "dicts_of old"] obtain added where
    a: "append_new ''sku'' ?new seen (dicts_of old) = Inr (dicts_of old @ added)"
       "distinct (map ?kf added)" "set (map ?kf added) = ?kf ` set ?new - set seen"
    by (elim exE conjE)
  have sets: "\<And>A K S B :: jvalue set. A = K - S \<Longrightarrow> K \<inter> B = {} \<Longrightarrow> S \<subseteq> B \<Longrightarrow> A = K"
    by blast
  have k: "set (map sku_key added) = sku_key ` set ?new"
    by (rule sets [OF a(3) [unfolded kf] fresh seen_sub])
  from a(2) have d: "distinct (map sku_key added)" unfolding kf .
  from k fresh have i: "set (map sku_key added) \<inter> set (map sku_key (dicts_of old)) = {}"
    by simp
  have "process_pending_products env fs sp ep True =
             (if enrich_all env pending = [] then fs
              else write_json_array ep (dicts_of old @ added) fs,
              Inr (enrich_all env pending))"
    using l(1,2,5,6) seen(1) a(1)
    by (simp add: process_pending_products_def append_unique_records_def Let_def)
  with d k i show ?thesis by (intro exI conjI)
qed

lemma validation_fails:
  assumes t: "typed_product p" and m: "missing_fields p \<noteq> []"
  shows "\<not> succeeds env p"
proof -
  from normalize_attributes_typed [OF t, of env "[ingest_event p]"] obtain evs2 normalized where
    n: "normalize_attributes env p [ingest_event p] = (evs2, Inr normalized)"
    by (elim exE)
  have "isl (snd (staged_run env p))"
    by (simp add: staged_run_def n validate_product_missing [OF m])
  then have "isl (snd (finish p (staged_run env p)))"
    by (cases "staged_run env p"; cases "snd (staged_run env p)") auto
  then show ?thesis by (simp add: succeeds_def enrich_product_staged)
qed

lemma enrich_all_one_good:
  assumes "\<not> succeeds env bad" and "enrich_product env good = (evs, Inr pp)"
    and "pending = [bad, good] \<or> pending = [good, bad]"
  shows "enrich_all env pending = [pp]"
proof -
  from assms(1) obtain evs' e where "enrich_product env bad = (evs', Inl e)"
    by (cases "enrich_product env bad"; cases "snd (enrich_product env bad)")
       (auto simp: succeeds_def)
  with assms(2,3) show ?thesis by auto
qed

lemma nameless_run: "\<not> succeeds plain_env nameless"
  by (rule validation_fails)
     (simp_all add: nameless_def typed_product_def absent_or_text_def absent_or_mapping_def
                    missing_fields_def required_fields_def dict_get_def)

lemma mixed_pending:
  "pending_records mixed_catalogs ''simple.json'' ''enriched.json'' = Inr [bottle, nameless]"
  by (simp add: pending_records_def mixed_catalogs_def load_json_array_def bottle_def nameless_def
                dict_get_def)

text \<open>
  C5, as written: whenever one pending record fails validation and another is valid, the
  batch returns exactly the valid record's output. With \<^verbatim>\<open>process_all\<close> false, its default,
  only the last pending record is processed: when that is the failing one the result is
  empty.
\<close>

theorem newest_only_counterexample:
  "pending_records mixed_catalogs ''simple.json'' ''enriched.json'' = Inr [bottle, nameless]
   \<and> typed_product nameless \<and> missing_fields nameless = [''name'']
   \<and> enrich_product plain_env bottle = (bottle_log, Inr bottle_processed)
   \<and> process_pending_products plain_env mixed_catalogs ''simple.json'' ''enriched.json'' False
       = (mixed_catalogs, Inr [])
   \<and> snd (process_pending_products plain_env mixed_catalogs ''simple.json'' ''enriched.json'' False)
       \<noteq> Inr [bottle_processed]"
proof -
  have t: "typed_product nameless"
    by (simp add: nameless_def typed_product_def absent_or_text_def absent_or_mapping_def)
  have m: "missing_fields nameless = [''name'']"
    by (simp add: nameless_def missing_fields_def required_fields_def dict_get_def)
  have l: "load_json_array mixed_catalogs ''simple.json'' = Inr [JObj bottle, JObj nameless]"
    "load_json_array mixed_catalogs ''enriched.json'' = Inr []"
    by (simp_all add: mixed_catalogs_def load_json_array_def)
  have p: "pending_of [] [JObj bottle, JObj nameless] = Inr [bottle, nameless]"
    by (simp add: bottle_def nameless_def dict_get_def)
  have r: "process_pending_products plain_env mixed_catalogs ''simple.json'' ''enriched.json'' False
       = (mixed_catalogs, Inr [])"
  proof -
    from nameless_run obtain evs' e' where f: "enrich_product plain_env nameless = (evs', Inl e')"
      by (cases "enrich_product plain_env nameless"; cases "snd (enrich_product plain_env nameless)")
         (auto simp: succeeds_def)
    show ?thesis
      by (simp only: process_pending_products_def l sum.case record_skus.simps p Let_def)
         (simp add: f)
  qed
  then have "snd (process_pending_products plain_env mixed_catalogs ''simple.json'' ''enriched.json'' False)
       \<noteq> Inr [bottle_processed]"
    by simp
  with mixed_pending t m bottle_run r show ?thesis by (intro conjI)
qed

text \<open>
  C5, amended. With \<^verbatim>\<open>process_all\<close> true, for every pair of catalogs whose pending records
  are one record that fails validation and one valid record (a record whose enrichment
  returns an output), \<^verbatim>\<open>process_pending_products\<close> returns exactly the valid record's
  output. In general it returns the outputs of the pending records whose enrichment
  succeeds, in catalog order: a failure of one record is caught in the batch loop, never
  reaches the caller, and the remaining records are still processed.
\<close>

theorem batch_isolates_failures:
  "pending_records fs sp ep = Inr pending \<Longrightarrow>
   snd (process_pending_products env fs sp ep True)
     = Inr (map (\<lambda>p. projr (snd (enrich_product env p))) (filter (succeeds env) pending))
   \<and> (\<forall>bad good evs pp.
         (pending = [bad, good] \<or> pending = [good, bad])
         \<and> typed_product bad \<and> missing_fields bad \<noteq> []
         \<and> enrich_product env good = (evs, Inr pp)
         \<longrightarrow> snd (process_pending_products env fs sp ep True) = Inr [pp])"
proof -
  assume pend: "pending_records fs sp ep = Inr pending"
  then obtain old where old: "load_json_array fs ep = Inr old"
    by (rule pending_records_Inr)
  from batch_all [OF pend old, of env]
  have r: "snd (process_pending_products env fs sp ep True) = Inr (enrich_all env pending)"
    by auto
  have "\<forall>bad good evs pp.
         (pending = [bad, good] \<or> pending = [good, bad])
         \<and> typed_product bad \<and> missing_fields bad \<noteq> []
         \<and> enrich_product env good = (evs, Inr pp)
         \<longrightarrow> enrich_all env pending = [pp]"
    using validation_fails enrich_all_one_good by blast
  with r show ?thesis by (simp add: enrich_all_filter)
qed

theorem batch_isolates_failures_witness:
  "pending_records mixed_catalogs ''simple.json'' ''enriched.json'' = Inr [bottle, nameless]
   \<and> typed_product nameless \<and> missing_fields nameless \<noteq> []
   \<and> enrich_product plain_env bottle = (bottle_log, Inr bottle_processed)
   \<and> snd (process_pending_products plain_env mixed_catalogs ''simple.json'' ''enriched.json'' True)
       = Inr [bottle_processed]"
proof -
  have t: "typed_product nameless"
    by (simp add: nameless_def typed_product_def absent_or_text_def absent_or_mapping_def)
  have m: "missing_fields nameless \<noteq> []"
    by (simp add: nameless_def missing_fields_def required_fields_def dict_get_def)
  from batch_isolates_failures [OF mixed_pending, of plain_env]
  have "\<forall>bad good evs pp.
         ([bottle, nameless] = [bad, good] \<or> [bottle, nameless] = [good, bad])
         \<and> typed_product bad \<and> missing_fields bad \<noteq> []
         \<and> enrich_product plain_env good = (evs, Inr pp)
         \<longrightarrow> snd (process_pending_products plain_env mixed_catalogs ''simple.json'' ''enriched.json'' True)
              = Inr [pp]"
    by (rule conjunct2)
  then have "([bottle, nameless] = [nameless, bottle] \<or> [bottle, nameless] = [bottle, nameless])
         \<and> typed_product nameless \<and> missing_fields nameless \<noteq> []
         \<and> enrich_product plain_env bottle = (bottle_log, Inr bottle_processed)
         \<longrightarrow> snd (process_pending_products plain_env mixed_catalogs ''simple.json'' ''enriched.json'' True)
              = Inr [bottle_processed]"
    by (elim allE)
  with t m bottle_run
  have "snd (process_pending_products plain_env mixed_catalogs ''simple.json'' ''enriched.json'' True)
              = Inr [bottle_processed]"
    by simp
  with mixed_pending t m bottle_run show ?thesis by (intro conjI)
qed










text \<open>Without the capability, a valid record is enriched successfully.\<close>

lemma valid_product_succeeds:
  assumes v: "valid_product p" and c: "openai_client env = None"
  shows "succeeds env p"
proof -
  from v have t: "typed_product p" and m: "missing_fields p = []"
    and fl: "\<not> isl (py_float (dict_get p ''price''))"
    by (simp_all add: valid_product_def)
  from v obtain n where n: "map_of p ''name'' = Some (JStr n)"
    by (auto simp: valid_product_def split: option.splits jvalue.splits)
  from m have tr: "py_truthy (dict_get p ''sku'')" "py_truthy (dict_get p ''price'')"
    by (simp_all add: missing_fields_empty_iff)
  from tr(1) obtain sku where sku: "map_of p ''sku'' = Some sku"
    by (auto simp: dict_get_def split: option.splits)
  from fl obtain f where f: "py_float (dict_get p ''price'') = Inr f"
    by (cases "py_float (dict_get p ''price'')") auto
  from normalize_attributes_typed [OF t, of env "[ingest_event p]"] obtain evs2 normalized where
    s1: "normalize_attributes env p [ingest_event p] = (evs2, Inr normalized)"
    by (elim exE)
  have s2: "\<exists>pr. validate_product p evs2
                 = (evs2 @ [WorkflowEvent ''validate'' ''Validation passed'' None], Inr pr)"
    by (simp add: validate_product_def m truthy_get_default [OF tr(2)] f)
  from t have ct: "absent_or_text p ''category''" by (simp add: typed_product_def)
  have s3: "\<exists>evs4 sc. build_seo_copy env p normalized evs3 = (evs4, Inr (JObj sc))" for evs3
    by (simp add: build_seo_copy_def c fallback_seo_copy_typed [OF n ct])
  have s4: "\<exists>evs5 ls. localize_copy env (JObj sc) evs4 = (evs5, Inr ls)" for sc evs4
    by (simp add: localize_copy_def c fallback_localize_copy_def)
  from s2 obtain pr evs3 where v2: "validate_product p evs2 = (evs3, Inr pr)" by auto
  from s3 [of evs3] obtain evs4 sc where v3: "build_seo_copy env p normalized evs3 = (evs4, Inr (JObj sc))"
    by auto
  from s4 [of sc evs4] obtain evs5 ls where v4: "localize_copy env (JObj sc) evs4 = (evs5, Inr ls)"
    by auto
  have "\<not> isl (snd (staged_run env p))"
    by (simp add: staged_run_def s1 v2 v3 v4 dict_item_def sku n)
  then have "\<not> isl (snd (finish p (staged_run env p)))"
    by (cases "staged_run env p"; cases "snd (staged_run env p)") auto
  then show ?thesis by (simp add: succeeds_def enrich_product_staged)
qed

lemma bottle_valid: "valid_product bottle"
  by (simp add: valid_product_def bottle_def typed_product_def absent_or_text_def
                absent_or_mapping_def missing_fields_def required_fields_def dict_get_def)

end
